(* ===== verification/Prelude.thy ===== *)
theory Prelude
  imports Main "HOL-Library.Word"
begin

text \<open>
  The shared ground of the development: the machine integer types of the Rust sources, the
  result type and its sequencing operator, the association of Rust standard library calls with
  HOL functions that the component theories use, and the generic lemmas on lists, maps and
  words. Nothing here models a file of the repository; every component theory imports it.
\<close>

unbundle bit_operations_syntax

named_theorems wire_simps \<open>unfolding rules of the wire format and the frame layer\<close>
named_theorems op_defs \<open>definitions of the operations of a component, unfolded together\<close>
named_theorems inv_intros \<open>preservation lemmas of the component invariants\<close>

type_synonym u8 = "8 word"
type_synonym u16 = "16 word"
type_synonym u32 = "32 word"
type_synonym u64 = "64 word"
type_synonym i64 = "64 word"
type_synonym u128 = "128 word"
type_synonym bytes = "8 word list"

text \<open>
  Rust's \<open>Result<T, E>\<close> is the sum type with the error on the left. A stateful fallible call is a
  function \<open>'s \<Rightarrow> ('e + 'a) \<times> 's\<close>; \<open>andthen\<close> is the \<open>?\<close> operator: it runs the
  continuation on success and propagates the error, with the state reached so far, otherwise.
\<close>

abbreviation Ok :: "'a \<Rightarrow> 'e + 'a" where "Ok \<equiv> Inr"

abbreviation Err :: "'e \<Rightarrow> 'e + 'a" where "Err \<equiv> Inl"

definition andthen :: "('s \<Rightarrow> ('e + 'a) \<times> 's) \<Rightarrow> ('a \<Rightarrow> 's \<Rightarrow> ('e + 'b) \<times> 's) \<Rightarrow> 's \<Rightarrow> ('e + 'b) \<times> 's" where
  "andthen m f = (\<lambda>s. case m s of (Inl e, s') \<Rightarrow> (Inl e, s') | (Inr a, s') \<Rightarrow> f a s')"

definition is_ok :: "'e + 'a \<Rightarrow> bool" where
  "is_ok r = (case r of Inl _ \<Rightarrow> False | Inr _ \<Rightarrow> True)"

definition result_ok :: "'e + 'a \<Rightarrow> 'a option" where
  "result_ok r = (case r of Inl _ \<Rightarrow> None | Inr a \<Rightarrow> Some a)"

definition ok_or :: "'a option \<Rightarrow> 'e \<Rightarrow> 'e + 'a" where
  "ok_or x e = (case x of None \<Rightarrow> Inl e | Some a \<Rightarrow> Inr a)"

text \<open>The largest value of \<open>usize\<close> and \<open>u64\<close> on the 64-bit targets the program builds for.\<close>

definition usize_max :: nat where
  "usize_max = 2 ^ 64 - 1"

definition saturating_mul :: "nat \<Rightarrow> nat \<Rightarrow> nat" where
  "saturating_mul a b = min usize_max (a * b)"

definition saturating_add_u64 :: "u64 \<Rightarrow> u64 \<Rightarrow> u64" where
  "saturating_add_u64 a b = (if unat a + unat b \<le> usize_max then a + b else word_of_nat usize_max)"

lemma andthen_Ok [simp]: "m s = (Inr a, s') \<Longrightarrow> andthen m f s = f a s'"
  by (simp add: andthen_def)

lemma andthen_Err [simp]: "m s = (Inl e, s') \<Longrightarrow> andthen m f s = (Inl e, s')"
  by (simp add: andthen_def)

lemma andthen_eq_OkE:
  assumes "andthen m f s = (Inr b, t)"
  obtains a s' where "m s = (Inr a, s')" and "f a s' = (Inr b, t)"
  using assms by (auto simp: andthen_def split: prod.splits sum.splits)

text \<open>The \<open>?\<close> operator on a result: it succeeds exactly when both steps do.\<close>

lemma case_result_eq_Inr:
  "(case r of Inl e \<Rightarrow> Inl (g e) | Inr a \<Rightarrow> f a) = Inr b \<longleftrightarrow> (\<exists>a. r = Inr a \<and> f a = Inr b)"
  by (cases r) auto

lemma if_err_eq_Inr: "(if c then Inl e else r) = Inr b \<longleftrightarrow> \<not> c \<and> r = Inr b"
  by simp

lemma is_ok_simps [simp]: "is_ok (Inr a)" "\<not> is_ok (Inl e)"
  by (simp_all add: is_ok_def)

lemma is_okE: "is_ok r \<Longrightarrow> (\<And>a. r = Inr a \<Longrightarrow> P) \<Longrightarrow> P"
  by (cases r) auto

lemma result_ok_simps [simp]: "result_ok (Inr a) = Some a" "result_ok (Inl e) = None"
  by (simp_all add: result_ok_def)

lemma ok_or_simps [simp]: "ok_or (Some a) e = Inr a" "ok_or None e = Inl e"
  by (simp_all add: ok_or_def)

lemma ok_or_eq_Inr [simp]: "ok_or x e = Inr a \<longleftrightarrow> x = Some a"
  by (cases x) auto

text \<open>Words: an addition that does not overflow is an addition of the unsigned values.\<close>

lemma unat_add_no_overflow:
  fixes a b :: "'a::len word"
  shows "unat a + unat b < 2 ^ LENGTH('a) \<Longrightarrow> unat (a + b) = unat a + unat b"
  by (simp add: unat_word_ariths)

lemma unat_of_nat_less:
  "n < 2 ^ LENGTH('a) \<Longrightarrow> unat (word_of_nat n :: 'a::len word) = n"
  by (simp add: unat_of_nat take_bit_nat_eq_self)

lemma unat_saturating_add_u64:
  "unat (saturating_add_u64 a b) = min usize_max (unat a + unat b)"
  by (auto simp: saturating_add_u64_def usize_max_def unat_of_nat_less unat_add_no_overflow min_def)

lemma snd_andthen:
  "(\<And>x. P (snd (m x)) = P x) \<Longrightarrow> (\<And>a x. P (snd (f a x)) = P x) \<Longrightarrow> P (snd (andthen m f x)) = P x"
  by (cases "m x"; cases "fst (m x)") (auto simp: andthen_def, metis snd_conv, metis snd_conv)

text \<open>Lists.\<close>

lemma drop_append_le: "n \<le> length xs \<Longrightarrow> drop n (xs @ ys) = drop n xs @ ys"
  by simp

lemma take_take_drop: "take n (drop k xs) @ take m (drop (k + n) xs) = take (n + m) (drop k xs)"
  by (simp add: take_add add.commute [of k n])

lemma sum_list_map_append [simp]:
  "sum_list (map f (xs @ ys)) = sum_list (map f xs) + (sum_list (map f ys) :: nat)"
  by simp

lemma sum_list_take_drop:
  "sum_list (map f (take n xs)) + sum_list (map f (drop n xs)) = (sum_list (map f xs) :: nat)"
  by (metis append_take_drop_id map_append sum_list_append)

text \<open>Finite maps: the sum of a weight over the entries, and how an update changes it.\<close>

definition entry_sum :: "('v \<Rightarrow> nat) \<Rightarrow> ('k \<rightharpoonup> 'v) \<Rightarrow> nat" where
  "entry_sum f m = (\<Sum>k\<in>dom m. f (the (m k)))"

lemma entry_sum_empty [simp]: "entry_sum f Map.empty = 0"
  by (simp add: entry_sum_def)

lemma entry_sum_remove:
  "finite (dom m) \<Longrightarrow> m k = Some v \<Longrightarrow> entry_sum f m = f v + entry_sum f (m(k := None))"
proof -
  assume fin: "finite (dom m)" and k: "m k = Some v"
  have d: "dom m = insert k (dom (m(k := None)))"
    using k by auto
  have "entry_sum f m = f (the (m k)) + (\<Sum>j\<in>dom (m(k := None)). f (the (m j)))"
    unfolding entry_sum_def using fin k by (subst d, subst sum.insert) auto
  also have "(\<Sum>j\<in>dom (m(k := None)). f (the (m j))) = entry_sum f (m(k := None))"
    unfolding entry_sum_def by (rule sum.cong) auto
  finally show ?thesis by (simp add: k)
qed

lemma entry_sum_insert_new:
  "finite (dom m) \<Longrightarrow> m k = None \<Longrightarrow> entry_sum f (m(k \<mapsto> v)) = f v + entry_sum f m"
  using entry_sum_remove [of "m(k \<mapsto> v)" k v f] by (simp add: fun_upd_idem)

lemma entry_sum_update:
  "finite (dom m) \<Longrightarrow> m k = Some w \<Longrightarrow> entry_sum f (m(k \<mapsto> v)) + f w = f v + entry_sum f m"
  using entry_sum_remove [of "m(k \<mapsto> v)" k v f] entry_sum_remove [of m k w f] by simp

lemma entry_sum_ge: "finite (dom m) \<Longrightarrow> m k = Some v \<Longrightarrow> f v \<le> entry_sum f m"
  using entry_sum_remove [of m k v f] by simp

end
