(* ===== verification/Rust_Str.thy ===== *)
theory Rust_Str
  imports Prelude
begin

text \<open>
  The string functions of the Rust standard library that the sources call. A Rust \<open>str\<close> is its
  UTF-8 byte sequence, so a HOL \<open>string\<close> (a list of 8-bit characters) is one, \<open>str::len\<close> is
  \<open>length\<close>, and the functions that look for Unicode white space look for its UTF-8 sequences.
  On valid UTF-8 no such sequence starts in the middle of a character, so this is exact.
\<close>

section \<open>Splitting, trimming and searching\<close>

text \<open>\<open>str::split(c)\<close>: every piece between separators, the empty ones included.\<close>

fun split_char :: "char \<Rightarrow> string \<Rightarrow> string list" where
  "split_char c [] = [[]]"
| "split_char c (x # xs) =
     (if x = c then [] # split_char c xs
      else (x # hd (split_char c xs)) # tl (split_char c xs))"

text \<open>The inverse of \<open>split_char\<close>: pieces joined by a separator.\<close>

fun join_char :: "char \<Rightarrow> string list \<Rightarrow> string" where
  "join_char c [] = []"
| "join_char c [p] = p"
| "join_char c (p # q # ps) = p @ c # join_char c (q # ps)"

definition trim_start_matches :: "char \<Rightarrow> string \<Rightarrow> string" where
  "trim_start_matches c s = dropWhile (\<lambda>x. x = c) s"

definition trim_end_matches :: "char \<Rightarrow> string \<Rightarrow> string" where
  "trim_end_matches c s = rev (dropWhile (\<lambda>x. x = c) (rev s))"

definition starts_with :: "string \<Rightarrow> string \<Rightarrow> bool" where
  "starts_with p s = (take (length p) s = p)"

definition ends_with :: "string \<Rightarrow> string \<Rightarrow> bool" where
  "ends_with p s = starts_with (rev p) (rev s)"

definition strip_prefix :: "string \<Rightarrow> string \<Rightarrow> string option" where
  "strip_prefix p s = (if starts_with p s then Some (drop (length p) s) else None)"

text \<open>\<open>str::find\<close>: the byte index of the first occurrence.\<close>

fun find_str :: "string \<Rightarrow> string \<Rightarrow> nat option" where
  "find_str p [] = (if p = [] then Some 0 else None)"
| "find_str p (x # xs) =
     (if starts_with p (x # xs) then Some 0 else map_option Suc (find_str p xs))"

definition contains_str :: "string \<Rightarrow> string \<Rightarrow> bool" where
  "contains_str p s = (find_str p s \<noteq> None)"

text \<open>\<open>str::split_once(c)\<close>.\<close>

definition split_once :: "char \<Rightarrow> string \<Rightarrow> (string \<times> string) option" where
  "split_once c s =
     (if c \<in> set s
      then Some (takeWhile (\<lambda>x. x \<noteq> c) s, tl (dropWhile (\<lambda>x. x \<noteq> c) s))
      else None)"

section \<open>White space\<close>

text \<open>The UTF-8 sequences of the characters with the Unicode property \<open>White_Space\<close>.\<close>

definition ws_seqs :: "string list" where
  "ws_seqs =
    [[CHR 0x20], [CHR 0x0A], [CHR 0x09], [CHR 0x0B], [CHR 0x0C], [CHR 0x0D],
     [CHR 0xC2, CHR 0x85], [CHR 0xC2, CHR 0xA0], [CHR 0xE1, CHR 0x9A, CHR 0x80],
     [CHR 0xE2, CHR 0x80, CHR 0x80], [CHR 0xE2, CHR 0x80, CHR 0x81],
     [CHR 0xE2, CHR 0x80, CHR 0x82], [CHR 0xE2, CHR 0x80, CHR 0x83],
     [CHR 0xE2, CHR 0x80, CHR 0x84], [CHR 0xE2, CHR 0x80, CHR 0x85],
     [CHR 0xE2, CHR 0x80, CHR 0x86], [CHR 0xE2, CHR 0x80, CHR 0x87],
     [CHR 0xE2, CHR 0x80, CHR 0x88], [CHR 0xE2, CHR 0x80, CHR 0x89],
     [CHR 0xE2, CHR 0x80, CHR 0x8A], [CHR 0xE2, CHR 0x80, CHR 0xA8],
     [CHR 0xE2, CHR 0x80, CHR 0xA9], [CHR 0xE2, CHR 0x80, CHR 0xAF],
     [CHR 0xE2, CHR 0x81, CHR 0x9F], [CHR 0xE3, CHR 0x80, CHR 0x80]]"

text \<open>The number of bytes of the white space character a string starts (ends) with, 0 for none.\<close>

definition ws_len :: "string \<Rightarrow> nat" where
  "ws_len s = (case find (\<lambda>w. starts_with w s) ws_seqs of None \<Rightarrow> 0 | Some w \<Rightarrow> length w)"

definition ws_end_len :: "string \<Rightarrow> nat" where
  "ws_end_len s = (case find (\<lambda>w. ends_with w s) ws_seqs of None \<Rightarrow> 0 | Some w \<Rightarrow> length w)"

lemma ws_len_Nil [simp]: "ws_len [] = 0"
  by (simp add: ws_len_def ws_seqs_def starts_with_def)

lemma ws_end_len_Nil [simp]: "ws_end_len [] = 0"
  by (simp add: ws_end_len_def ws_seqs_def starts_with_def ends_with_def)

lemma ws_len_pos: "0 < ws_len s \<Longrightarrow> s \<noteq> []"
  by auto

lemma ws_end_len_pos: "0 < ws_end_len s \<Longrightarrow> s \<noteq> []"
  by auto

function trim_start :: "string \<Rightarrow> string" where
  "trim_start s = (if ws_len s = 0 then s else trim_start (drop (ws_len s) s))"
  by pat_completeness auto
termination
  by (relation "measure length") (auto intro!: diff_less dest: ws_len_pos)

function trim_end :: "string \<Rightarrow> string" where
  "trim_end s = (if ws_end_len s = 0 then s else trim_end (take (length s - ws_end_len s) s))"
  by pat_completeness auto
termination
  by (relation "measure length") (auto intro!: diff_less dest: ws_end_len_pos)

declare trim_start.simps [simp del] trim_end.simps [simp del]

definition trim_str :: "string \<Rightarrow> string" where
  "trim_str s = trim_end (trim_start s)"

text \<open>\<open>str::split_whitespace\<close>, with the token read so far as accumulator.\<close>

fun words_from :: "string \<Rightarrow> string \<Rightarrow> string list" where
  "words_from acc [] = (if acc = [] then [] else [acc])"
| "words_from acc (x # xs) =
     (if ws_len (x # xs) = 0 then words_from (acc @ [x]) xs
      else (if acc = [] then [] else [acc]) @ words_from [] (drop (ws_len (x # xs) - 1) xs))"

definition split_whitespace :: "string \<Rightarrow> string list" where
  "split_whitespace s = words_from [] s"

text \<open>\<open>splitn(2, char::is_whitespace)\<close>: the text before the first white space character and, if
  there is one, the text after it.\<close>

fun splitn2_ws :: "string \<Rightarrow> string \<times> string option" where
  "splitn2_ws [] = ([], None)"
| "splitn2_ws (x # xs) =
     (if ws_len (x # xs) = 0 then (let r = splitn2_ws xs in (x # fst r, snd r))
      else ([], Some (drop (ws_len (x # xs) - 1) xs)))"

text \<open>\<open>str::lines\<close>: split at line feeds, a carriage return before a line feed removed, no empty
  line after the last line feed.\<close>

definition strip_cr :: "string \<Rightarrow> string" where
  "strip_cr l = (if l \<noteq> [] \<and> last l = CHR 0x0D then butlast l else l)"

definition str_lines :: "string \<Rightarrow> string list" where
  "str_lines s =
     (let ps = split_char (CHR 0x0A) s
      in map strip_cr (butlast ps) @ (if last ps = [] then [] else [last ps]))"

section \<open>Lemmas\<close>

lemma split_char_not_Nil [simp]: "split_char c s \<noteq> []"
  by (cases s) auto

lemma split_char_no_sep: "p \<in> set (split_char c s) \<Longrightarrow> c \<notin> set p"
proof (induction s arbitrary: p)
  case (Cons x xs)
  have hd: "c \<notin> set (hd (split_char c xs))"
    using Cons.IH [of "hd (split_char c xs)"] by simp
  have tl: "q \<in> set (tl (split_char c xs)) \<Longrightarrow> c \<notin> set q" for q
    using Cons.IH [of q] by (auto dest: list.set_sel(2) [OF split_char_not_Nil])
  show ?case
    using Cons.prems Cons.IH hd tl by (auto split: if_splits)
qed simp

lemma split_char_append_sep: "split_char c (xs @ c # ys) = split_char c xs @ split_char c ys"
  by (induction xs) auto

lemma split_char_free: "c \<notin> set s \<Longrightarrow> split_char c s = [s]"
  by (induction s) auto

lemma join_split_char [simp]: "join_char c (split_char c s) = s"
proof (induction s)
  case (Cons x xs)
  obtain p ps where ps: "split_char c xs = p # ps"
    by (cases "split_char c xs") auto
  show ?case
    using Cons ps by (cases ps) auto
qed simp

lemma split_join_char:
  "ps \<noteq> [] \<Longrightarrow> (\<forall>p\<in>set ps. c \<notin> set p) \<Longrightarrow> split_char c (join_char c ps) = ps"
  by (induction c ps rule: join_char.induct) (auto simp: split_char_free split_char_append_sep)

lemma set_split_char: "p \<in> set (split_char c s) \<Longrightarrow> set p \<subseteq> set s"
proof (induction s arbitrary: p)
  case (Cons x xs)
  have "set (hd (split_char c xs)) \<subseteq> set xs"
    using Cons.IH [of "hd (split_char c xs)"] by simp
  moreover have "q \<in> set (tl (split_char c xs)) \<Longrightarrow> set q \<subseteq> set xs" for q
    using Cons.IH [of q] by (auto dest: list.set_sel(2) [OF split_char_not_Nil])
  ultimately show ?case
    using Cons.prems Cons.IH [of p] by (auto split: if_splits)
qed simp

lemma starts_with_append [simp]: "starts_with p (p @ s)"
  by (simp add: starts_with_def)

lemma starts_with_iff: "starts_with p s \<longleftrightarrow> (\<exists>t. s = p @ t)"
  unfolding starts_with_def by (metis append_eq_conv_conj append_take_drop_id)

lemma strip_prefix_eq_Some: "strip_prefix p s = Some t \<longleftrightarrow> s = p @ t"
  by (auto simp: strip_prefix_def starts_with_iff)

lemma find_str_Some:
  "find_str p s = Some i \<Longrightarrow> \<exists>t. drop i s = p @ t"
  by (induction p s arbitrary: i rule: find_str.induct)
    (auto simp: starts_with_iff split: if_splits)

lemma takeWhile_sep: "c \<notin> set a \<Longrightarrow> takeWhile (\<lambda>x. x \<noteq> c) (a @ c # b) = a"
  by (induction a) auto

lemma dropWhile_sep: "c \<notin> set a \<Longrightarrow> dropWhile (\<lambda>x. x \<noteq> c) (a @ c # b) = c # b"
  by (induction a) auto

lemma split_once_Some:
  "split_once c s = Some (a, b) \<longleftrightarrow> s = a @ c # b \<and> c \<notin> set a"
proof
  assume "split_once c s = Some (a, b)"
  then have c: "c \<in> set s" and a: "a = takeWhile (\<lambda>x. x \<noteq> c) s"
    and b: "b = tl (dropWhile (\<lambda>x. x \<noteq> c) s)"
    by (auto simp: split_once_def split: if_splits)
  from c have "dropWhile (\<lambda>x. x \<noteq> c) s \<noteq> []" by auto
  moreover from this have "hd (dropWhile (\<lambda>x. x \<noteq> c) s) = c"
    using hd_dropWhile [of "\<lambda>x. x \<noteq> c" s] by blast
  ultimately have "dropWhile (\<lambda>x. x \<noteq> c) s = c # b"
    unfolding b by (metis list.collapse)
  then show "s = a @ c # b \<and> c \<notin> set a"
    unfolding a by (metis takeWhile_dropWhile_id set_takeWhileD)
next
  assume "s = a @ c # b \<and> c \<notin> set a"
  then show "split_once c s = Some (a, b)"
    by (simp add: split_once_def takeWhile_sep dropWhile_sep)
qed

lemma split_once_None: "split_once c s = None \<longleftrightarrow> c \<notin> set s"
  by (simp add: split_once_def)

section \<open>Words and lines of graphic characters\<close>

text \<open>The printing ASCII characters other than the space: none of them is part of a white space
  character at either end.\<close>

definition graphic :: "char \<Rightarrow> bool" where
  "graphic c = (0x21 \<le> (of_char c :: nat) \<and> (of_char c :: nat) \<le> 0x7E)"

definition graphic_word :: "string \<Rightarrow> bool" where
  "graphic_word w = (w \<noteq> [] \<and> list_all graphic w)"

lemma ws_seqs_not_graphic:
  "w \<in> set ws_seqs \<Longrightarrow> w \<noteq> [] \<and> \<not> graphic (hd w) \<and> \<not> graphic (last w)"
  by (auto simp: ws_seqs_def graphic_def)

lemma ws_len_graphic [simp]: "graphic c \<Longrightarrow> ws_len (c # s) = 0"
proof -
  assume c: "graphic c"
  have "\<not> starts_with w (c # s)" if "w \<in> set ws_seqs" for w
    using ws_seqs_not_graphic [OF that] c by (cases w) (auto simp: starts_with_def)
  then have "find (\<lambda>w. starts_with w (c # s)) ws_seqs = None"
    by (auto simp: find_None_iff)
  then show ?thesis by (simp add: ws_len_def)
qed

lemma ws_end_len_graphic [simp]: "graphic c \<Longrightarrow> ws_end_len (s @ [c]) = 0"
proof -
  assume c: "graphic c"
  have "\<not> ends_with w (s @ [c])" if "w \<in> set ws_seqs" for w
    using ws_seqs_not_graphic [OF that] c
    by (cases w rule: rev_cases) (auto simp: starts_with_def ends_with_def)
  then have "find (\<lambda>w. ends_with w (s @ [c])) ws_seqs = None"
    by (auto simp: find_None_iff)
  then show ?thesis by (simp add: ws_end_len_def)
qed

lemma ws_len_space [simp]: "ws_len (CHR '' '' # s) = 1"
  by (simp add: ws_len_def ws_seqs_def starts_with_def)

lemma trim_str_Nil [simp]: "trim_str [] = []"
  by (simp add: trim_str_def trim_start.simps trim_end.simps)

lemma trim_str_graphic: "s \<noteq> [] \<Longrightarrow> graphic (hd s) \<Longrightarrow> graphic (last s) \<Longrightarrow> trim_str s = s"
proof -
  assume s: "s \<noteq> []" "graphic (hd s)" "graphic (last s)"
  have "trim_start s = s"
    using s by (cases s) (simp_all add: trim_start.simps)
  moreover have "trim_end s = s"
    using s by (cases s rule: rev_cases) (simp_all add: trim_end.simps)
  ultimately show ?thesis by (simp add: trim_str_def)
qed

lemma words_from_graphic:
  "list_all graphic w \<Longrightarrow> words_from acc (w @ rest) = words_from (acc @ w) rest"
  by (induction w arbitrary: acc) simp_all

lemma split_whitespace_two:
  "graphic_word a \<Longrightarrow> graphic_word b \<Longrightarrow> split_whitespace (a @ CHR '' '' # b) = [a, b]"
  using words_from_graphic [of b "[]" "[]"]
  by (simp add: split_whitespace_def graphic_word_def words_from_graphic)

lemma splitn2_ws_word: "list_all graphic w \<Longrightarrow> splitn2_ws w = (w, None)"
  by (induction w) simp_all

lemma splitn2_ws_space: "list_all graphic w \<Longrightarrow> splitn2_ws (w @ CHR '' '' # s) = (w, Some s)"
  by (induction w) simp_all

lemma str_lines_concat:
  assumes "\<forall>l\<in>set ls. CHR 0x0A \<notin> set l"
  shows "str_lines (concat (map (\<lambda>l. l @ [CHR 0x0A]) ls)) = map strip_cr ls"
proof -
  have "split_char (CHR 0x0A) (concat (map (\<lambda>l. l @ [CHR 0x0A]) ls)) = ls @ [[]]"
    using assms
  proof (induction ls)
    case (Cons l ls)
    then show ?case
      using split_char_append_sep [of "CHR 0x0A" l] by (simp add: split_char_free)
  qed simp
  then show ?thesis by (simp add: str_lines_def)
qed

lemma strip_cr_graphic: "graphic (last l) \<Longrightarrow> strip_cr l = l"
  by (auto simp: strip_cr_def graphic_def)

lemma graphic_word_ends:
  "graphic_word w \<Longrightarrow> graphic (hd w) \<and> graphic (last w) \<and> CHR 0x0A \<notin> set w"
  unfolding graphic_word_def list_all_iff
  by (auto simp: graphic_def)

end
