(* ===== verification/Status.thy ===== *)
theory Status
  imports Rust_Str
begin

text \<open>
  The status codes of the wire protocol (\<open>common/src/status.rs\<close>), the I/O errors they are made
  from, and the two places where the client reads them back: \<open>check_status\<close>
  (\<open>client/src/conn.rs\<close>) and the error numbers handed to the kernel (\<open>io_to_errno\<close> and
  \<open>rpc_to_errno\<close> of \<open>client/src/fuse_ops.rs\<close>). An \<open>anyhow::Error\<close> is the text its \<open>Display\<close>
  prints, the outermost context: \<open>rpc_to_errno\<close> looks at nothing else.
\<close>

type_synonym anyhow = string

section \<open>Standard library: I/O errors\<close>

datatype error_kind =
    NotFound_k | PermissionDenied_k | AlreadyExists_k | InvalidInput_k | InvalidData_k
  | DirectoryNotEmpty_k | NotADirectory_k | IsADirectory_k | StorageFull_k | Unsupported_k
  | FilesystemLoop_k | StaleNetworkFileHandle_k | CrossesDevices_k | Interrupted_k | Other_k

text \<open>An \<open>std::io::Error\<close>: an error number of the operating system, or a kind set by the library.\<close>

datatype io_error = OsError nat | KindError error_kind

definition raw_os_error :: "io_error \<Rightarrow> nat option" where
  "raw_os_error e = (case e of OsError n \<Rightarrow> Some n | KindError _ \<Rightarrow> None)"

definition ENOENT :: nat where "ENOENT = 2"

definition EINTR :: nat where "EINTR = 4"

definition EIO :: nat where "EIO = 5"

definition EACCES :: nat where "EACCES = 13"

definition EEXIST :: nat where "EEXIST = 17"

definition EXDEV :: nat where "EXDEV = 18"

definition ENOTDIR :: nat where "ENOTDIR = 20"

definition EISDIR :: nat where "EISDIR = 21"

definition EINVAL :: nat where "EINVAL = 22"

definition ENOSPC :: nat where "ENOSPC = 28"

definition ENOSYS :: nat where "ENOSYS = 38"

definition ENOTEMPTY :: nat where "ENOTEMPTY = 39"

definition ELOOP :: nat where "ELOOP = 40"

definition ESTALE :: nat where "ESTALE = 116"

lemmas errno_defs = ENOENT_def EINTR_def EIO_def EACCES_def EEXIST_def EXDEV_def ENOTDIR_def
  EISDIR_def EINVAL_def ENOSPC_def ENOSYS_def ENOTEMPTY_def ELOOP_def ESTALE_def

text \<open>\<open>io::Error::kind\<close> on Linux (EPERM is error number 1).\<close>

definition decode_error_kind :: "nat \<Rightarrow> error_kind" where
  "decode_error_kind n =
     (if n = ENOENT then NotFound_k
      else if n = EACCES \<or> n = 1 then PermissionDenied_k
      else if n = EEXIST then AlreadyExists_k
      else if n = EINVAL then InvalidInput_k
      else if n = ENOTEMPTY then DirectoryNotEmpty_k
      else if n = ENOTDIR then NotADirectory_k
      else if n = EISDIR then IsADirectory_k
      else if n = ENOSPC then StorageFull_k
      else if n = ENOSYS then Unsupported_k
      else if n = ELOOP then FilesystemLoop_k
      else if n = ESTALE then StaleNetworkFileHandle_k
      else if n = EXDEV then CrossesDevices_k
      else if n = EINTR then Interrupted_k
      else Other_k)"

definition io_kind :: "io_error \<Rightarrow> error_kind" where
  "io_kind e = (case e of OsError n \<Rightarrow> decode_error_kind n | KindError k \<Rightarrow> k)"

section \<open>Status codes\<close>

datatype Status =
    St_Ok | St_NotFound | St_Permission | St_Io | St_Exists | St_NotEmpty | St_NotDir | St_IsDir
  | St_InvalidArg | St_NoSpace | St_TooLarge | St_Stale | St_Unknown

text \<open>\<open>status as u8\<close>: the discriminants.\<close>

fun status_u8 :: "Status \<Rightarrow> u8" where
  "status_u8 St_Ok = 0"
| "status_u8 St_NotFound = 1"
| "status_u8 St_Permission = 2"
| "status_u8 St_Io = 3"
| "status_u8 St_Exists = 4"
| "status_u8 St_NotEmpty = 5"
| "status_u8 St_NotDir = 6"
| "status_u8 St_IsDir = 7"
| "status_u8 St_InvalidArg = 8"
| "status_u8 St_NoSpace = 9"
| "status_u8 St_TooLarge = 10"
| "status_u8 St_Stale = 11"
| "status_u8 St_Unknown = 255"

definition status_from_u8 :: "u8 \<Rightarrow> Status" where
  "status_from_u8 v =
     (if v = 0 then St_Ok else if v = 1 then St_NotFound else if v = 2 then St_Permission
      else if v = 3 then St_Io else if v = 4 then St_Exists else if v = 5 then St_NotEmpty
      else if v = 6 then St_NotDir else if v = 7 then St_IsDir else if v = 8 then St_InvalidArg
      else if v = 9 then St_NoSpace else if v = 10 then St_TooLarge else if v = 11 then St_Stale
      else St_Unknown)"

text \<open>\<open>impl From<std::io::Error> for Status\<close>.\<close>

definition status_from_io :: "io_error \<Rightarrow> Status" where
  "status_from_io e =
     (case io_kind e of
        NotFound_k \<Rightarrow> St_NotFound
      | PermissionDenied_k \<Rightarrow> St_Permission
      | AlreadyExists_k \<Rightarrow> St_Exists
      | InvalidInput_k \<Rightarrow> St_InvalidArg
      | InvalidData_k \<Rightarrow> St_InvalidArg
      | _ \<Rightarrow> St_Io)"

section \<open>The client's reading of a status\<close>

text \<open>The derived \<open>Debug\<close> text of a status.\<close>

fun status_debug :: "Status \<Rightarrow> string" where
  "status_debug St_Ok = ''Ok''"
| "status_debug St_NotFound = ''NotFound''"
| "status_debug St_Permission = ''Permission''"
| "status_debug St_Io = ''Io''"
| "status_debug St_Exists = ''Exists''"
| "status_debug St_NotEmpty = ''NotEmpty''"
| "status_debug St_NotDir = ''NotDir''"
| "status_debug St_IsDir = ''IsDir''"
| "status_debug St_InvalidArg = ''InvalidArg''"
| "status_debug St_NoSpace = ''NoSpace''"
| "status_debug St_TooLarge = ''TooLarge''"
| "status_debug St_Stale = ''Stale''"
| "status_debug St_Unknown = ''Unknown''"

definition check_status :: "u8 \<Rightarrow> anyhow + unit" where
  "check_status v =
     (case status_from_u8 v of
        St_Ok \<Rightarrow> Inr ()
      | s \<Rightarrow> Inl (''server error: '' @ status_debug s))"

definition io_to_errno :: "io_error \<Rightarrow> nat" where
  "io_to_errno e =
     (case io_kind e of
        NotFound_k \<Rightarrow> ENOENT
      | PermissionDenied_k \<Rightarrow> EACCES
      | AlreadyExists_k \<Rightarrow> EEXIST
      | DirectoryNotEmpty_k \<Rightarrow> ENOTEMPTY
      | InvalidInput_k \<Rightarrow> EINVAL
      | InvalidData_k \<Rightarrow> EINVAL
      | _ \<Rightarrow> EIO)"

definition rpc_to_errno :: "anyhow \<Rightarrow> nat" where
  "rpc_to_errno msg =
     (if contains_str ''NotFound'' msg then ENOENT
      else if contains_str ''Permission'' msg then EACCES
      else if contains_str ''Exists'' msg then EEXIST
      else if contains_str ''NotEmpty'' msg then ENOTEMPTY
      else if contains_str ''NotDir'' msg then ENOTDIR
      else if contains_str ''IsDir'' msg then EISDIR
      else if contains_str ''NoSpace'' msg then ENOSPC
      else if contains_str ''Stale'' msg then ESTALE
      else EIO)"

text \<open>The error number the kernel is given for a status: the documented table.\<close>

fun errno_of_status :: "Status \<Rightarrow> nat" where
  "errno_of_status St_NotFound = ENOENT"
| "errno_of_status St_Permission = EACCES"
| "errno_of_status St_Exists = EEXIST"
| "errno_of_status St_NotEmpty = ENOTEMPTY"
| "errno_of_status St_NotDir = ENOTDIR"
| "errno_of_status St_IsDir = EISDIR"
| "errno_of_status St_NoSpace = ENOSPC"
| "errno_of_status St_Stale = ESTALE"
| "errno_of_status _ = EIO"

section \<open>Lemmas\<close>

lemma status_u8_inverse [simp]: "status_from_u8 (status_u8 s) = s"
  by (cases s) (simp_all add: status_from_u8_def)

lemma status_u8_eq_iff [simp]: "status_u8 s = status_u8 t \<longleftrightarrow> s = t"
  by (metis status_u8_inverse)

lemma status_u8_eq_0 [simp]: "status_u8 s = 0 \<longleftrightarrow> s = St_Ok"
  by (cases s) simp_all

lemma check_status_Ok: "check_status v = Inr () \<longleftrightarrow> v = 0"
  by (auto simp: check_status_def status_from_u8_def)

lemma check_status_u8:
  "check_status (status_u8 s) =
     (if s = St_Ok then Inr () else Inl (''server error: '' @ status_debug s))"
  unfolding check_status_def status_u8_inverse by (cases s) simp_all

lemma status_from_io_range:
  "status_from_io e \<in> {St_NotFound, St_Permission, St_Exists, St_InvalidArg, St_Io}"
  by (auto simp: status_from_io_def split: error_kind.splits)

lemma status_from_io_not_Ok [simp]: "status_from_io e \<noteq> St_Ok"
  using status_from_io_range [of e] by auto

lemma rpc_to_errno_status: "rpc_to_errno (''server error: '' @ status_debug s) = errno_of_status s"
  by (cases s; hypsubst; code_simp)

lemma check_status_errno:
  "s \<noteq> St_Ok \<Longrightarrow> \<exists>msg. check_status (status_u8 s) = Inl msg \<and> rpc_to_errno msg = errno_of_status s"
  by (metis check_status_u8 rpc_to_errno_status)

section \<open>Properties\<close>

text \<open>C32: The number the kernel is given. For every status a server can answer with, the client's
  check passes exactly for \<open>Ok\<close>; otherwise the text of the error leads \<open>rpc_to_errno\<close> to the number
  that stands for that status.\<close>

theorem status_reaches_kernel:
  "case check_status (status_u8 s) of
     Inr _ \<Rightarrow> s = St_Ok
   | Inl e \<Rightarrow> s \<noteq> St_Ok \<and> rpc_to_errno e = errno_of_status s"
proof (cases "s = St_Ok")
  case True
  then show ?thesis using check_status_u8 [of St_Ok] by simp
next
  case False
  with check_status_errno [OF False] show ?thesis by auto
qed

text \<open>C33: What is lost on the way. Whatever system call error the server meets, the application sees
  one of four numbers: the conversion to a status has no case for a directory that is not empty, a
  full disk, or an invalid argument, although the client's table has entries for the first two and
  \<open>io_to_errno\<close> would have given all of them their own.\<close>

theorem server_error_numbers:
  "\<exists>msg. check_status (status_u8 (status_from_io e)) = Inl msg \<and>
     rpc_to_errno msg =
       (case io_kind e of NotFound_k \<Rightarrow> ENOENT | PermissionDenied_k \<Rightarrow> EACCES
                        | AlreadyExists_k \<Rightarrow> EEXIST | _ \<Rightarrow> EIO)"
proof -
  have "errno_of_status (status_from_io e) =
      (case io_kind e of NotFound_k \<Rightarrow> ENOENT | PermissionDenied_k \<Rightarrow> EACCES
                       | AlreadyExists_k \<Rightarrow> EEXIST | _ \<Rightarrow> EIO)"
    by (simp add: status_from_io_def split: error_kind.split)
  with check_status_errno [of "status_from_io e"] show ?thesis by simp
qed

end
