(* ===== verification/Frames.thy ===== *)
theory Frames
  imports Status
begin

text \<open>
  The messages of the wire protocol: \<open>common/src/stat.rs\<close> and \<open>common/src/frames.rs\<close>, one
  \<open>record\<close> per struct with the source's fields in order, each field name prefixed by a tag of its
  struct because HOL records of one theory share a name space. The MessagePack encoding (crate
  \<open>rmp_serde\<close>) is not part of the repository: it is the parameter \<open>server_codec\<close> and
  \<open>client_codec\<close>, and \<open>codec_ok\<close> states the behaviour the program relies on, that a message
  encoded as a named map decodes to itself and that \<open>Envelope\<close> decodes from any message to its
  \<open>op\<close> and \<open>seq\<close> fields.
\<close>

section \<open>Operation codes and limits\<close>

definition OP_GET_ATTR :: u8 where "OP_GET_ATTR = 0x01"

definition OP_SET_ATTR :: u8 where "OP_SET_ATTR = 0x02"

definition OP_READ_DIR :: u8 where "OP_READ_DIR = 0x03"

definition OP_MKDIR :: u8 where "OP_MKDIR = 0x04"

definition OP_RMDIR :: u8 where "OP_RMDIR = 0x05"

definition OP_UNLINK :: u8 where "OP_UNLINK = 0x06"

definition OP_RENAME :: u8 where "OP_RENAME = 0x07"

definition OP_SYMLINK :: u8 where "OP_SYMLINK = 0x08"

definition OP_READLINK :: u8 where "OP_READLINK = 0x09"

definition OP_LINK :: u8 where "OP_LINK = 0x0A"

definition OP_STAT_FS :: u8 where "OP_STAT_FS = 0x0B"

definition OP_OPEN :: u8 where "OP_OPEN = 0x10"

definition OP_RELEASE :: u8 where "OP_RELEASE = 0x11"

definition OP_CREATE :: u8 where "OP_CREATE = 0x12"

definition OP_READ :: u8 where "OP_READ = 0x20"

definition OP_WRITE :: u8 where "OP_WRITE = 0x21"

definition OP_FSYNC :: u8 where "OP_FSYNC = 0x22"

definition OP_HANDSHAKE :: u8 where "OP_HANDSHAKE = 0xF0"

definition OP_PING :: u8 where "OP_PING = 0xF1"

lemmas op_code_defs = OP_GET_ATTR_def OP_SET_ATTR_def OP_READ_DIR_def OP_MKDIR_def OP_RMDIR_def OP_UNLINK_def OP_RENAME_def OP_SYMLINK_def OP_READLINK_def OP_LINK_def OP_STAT_FS_def OP_OPEN_def OP_RELEASE_def OP_CREATE_def OP_READ_def OP_WRITE_def OP_FSYNC_def OP_HANDSHAKE_def OP_PING_def

definition MAX_FRAME_SIZE :: nat where "MAX_FRAME_SIZE = 16 * 1024 * 1024"

definition ALPN_PROTOCOL :: string where "ALPN_PROTOCOL = ''quicfs/1''"

section \<open>Attributes and directory entries\<close>

record Stat =
  st_ino :: u64
  st_mode :: u32
  st_nlink :: u32
  st_uid :: u32
  st_gid :: u32
  st_size :: u64
  st_atime :: i64
  st_mtime :: i64
  st_ctime :: i64
  st_blksz :: u32
  st_blocks :: u64

record DirEntry =
  de_name :: string
  de_ino :: u64
  de_mode :: u32

record StatFs =
  sf_blocks :: u64
  sf_bfree :: u64
  sf_bavail :: u64
  sf_files :: u64
  sf_ffree :: u64
  sf_bsize :: u32
  sf_namelen :: u32
  sf_frsize :: u32

section \<open>Messages\<close>

record Envelope =
  env_op :: u8
  env_seq :: u64

record HandshakeRequest =
  hsq_op :: u8
  hsq_seq :: u64
  hsq_version :: u8
  hsq_client_id :: string
  hsq_features :: "string list"
  hsq_chunk_size :: u32
  hsq_auth_type :: string

record HandshakeResponse =
  hsr_op :: u8
  hsr_seq :: u64
  hsr_status :: u8
  hsr_version :: u8
  hsr_features :: "string list"
  hsr_chunk_size :: u32
  hsr_server_id :: string
  hsr_export_root :: string

record PingRequest =
  pgq_op :: u8
  pgq_seq :: u64

record PingResponse =
  pgr_op :: u8
  pgr_seq :: u64
  pgr_status :: u8

record GetAttrRequest =
  gaq_op :: u8
  gaq_seq :: u64
  gaq_path :: string

record GetAttrResponse =
  gar_op :: u8
  gar_seq :: u64
  gar_status :: u8
  gar_stat :: "Stat option"

record SetAttrRequest =
  saq_op :: u8
  saq_seq :: u64
  saq_path :: string
  saq_valid :: u32
  saq_mode :: u32
  saq_uid :: u32
  saq_gid :: u32
  saq_size :: u64
  saq_atime :: i64
  saq_mtime :: i64

record SetAttrResponse =
  sar_op :: u8
  sar_seq :: u64
  sar_status :: u8
  sar_stat :: "Stat option"

record ReadDirRequest =
  rdq_op :: u8
  rdq_seq :: u64
  rdq_path :: string
  rdq_cursor :: u64

record ReadDirResponse =
  rdr_op :: u8
  rdr_seq :: u64
  rdr_status :: u8
  rdr_entries :: "DirEntry list"
  rdr_cursor :: u64
  rdr_eof :: bool

record OpenRequest =
  opq_op :: u8
  opq_seq :: u64
  opq_path :: string
  opq_flags :: u32

record OpenResponse =
  opr_op :: u8
  opr_seq :: u64
  opr_status :: u8
  opr_handle :: u64
  opr_stat :: "Stat option"

record ReleaseRequest =
  rlq_op :: u8
  rlq_seq :: u64
  rlq_handle :: u64

record ReleaseResponse =
  rlr_op :: u8
  rlr_seq :: u64
  rlr_status :: u8

record ReadRequest =
  rq_op :: u8
  rq_seq :: u64
  rq_handle :: u64
  rq_offset :: u64
  rq_length :: u32

record ReadResponse =
  rr_op :: u8
  rr_seq :: u64
  rr_status :: u8
  rr_offset :: u64
  rr_data :: bytes
  rr_eof :: bool

record WriteRequest =
  wq_op :: u8
  wq_seq :: u64
  wq_handle :: u64
  wq_offset :: u64
  wq_data :: bytes
  wq_done :: bool

record WriteResponse =
  wr_op :: u8
  wr_seq :: u64
  wr_status :: u8
  wr_written :: u64

record RenameRequest =
  rnq_op :: u8
  rnq_seq :: u64
  rnq_old :: string
  rnq_new :: string
  rnq_flags :: u32

record RenameResponse =
  rnr_op :: u8
  rnr_seq :: u64
  rnr_status :: u8

record PathRequest =
  pq_op :: u8
  pq_seq :: u64
  pq_path :: string

record StatusResponse =
  sr_op :: u8
  sr_seq :: u64
  sr_status :: u8

record ReadLinkResponse =
  lkr_op :: u8
  lkr_seq :: u64
  lkr_status :: u8
  lkr_target :: string

record MkDirRequest =
  mkq_op :: u8
  mkq_seq :: u64
  mkq_path :: string
  mkq_mode :: u32

record CreateRequest =
  crq_op :: u8
  crq_seq :: u64
  crq_path :: string
  crq_flags :: u32
  crq_mode :: u32

record FsyncRequest =
  fsq_op :: u8
  fsq_seq :: u64
  fsq_handle :: u64
  fsq_datasync :: bool

record StatFsResponse =
  sfr_op :: u8
  sfr_seq :: u64
  sfr_status :: u8
  sfr_statfs :: "StatFs option"

record SymlinkRequest =
  syq_op :: u8
  syq_seq :: u64
  syq_target :: string
  syq_link :: string

record LinkRequest =
  lnq_op :: u8
  lnq_seq :: u64
  lnq_path :: string
  lnq_link :: string

text \<open>The messages a client sends and the ones a server sends.\<close>

datatype request =
    Q_Handshake HandshakeRequest
  | Q_Ping PingRequest
  | Q_GetAttr GetAttrRequest
  | Q_SetAttr SetAttrRequest
  | Q_ReadDir ReadDirRequest
  | Q_Open OpenRequest
  | Q_Release ReleaseRequest
  | Q_Read ReadRequest
  | Q_Write WriteRequest
  | Q_Rename RenameRequest
  | Q_Path PathRequest
  | Q_MkDir MkDirRequest
  | Q_Create CreateRequest
  | Q_Fsync FsyncRequest
  | Q_Symlink SymlinkRequest
  | Q_Link LinkRequest

datatype response =
    R_Handshake HandshakeResponse
  | R_Ping PingResponse
  | R_GetAttr GetAttrResponse
  | R_SetAttr SetAttrResponse
  | R_ReadDir ReadDirResponse
  | R_Open OpenResponse
  | R_Release ReleaseResponse
  | R_Read ReadResponse
  | R_Write WriteResponse
  | R_Status StatusResponse
  | R_ReadLink ReadLinkResponse
  | R_StatFs StatFsResponse

fun req_op :: "request \<Rightarrow> u8" where
  "req_op (Q_Handshake x) = hsq_op x"
| "req_op (Q_Ping x) = pgq_op x"
| "req_op (Q_GetAttr x) = gaq_op x"
| "req_op (Q_SetAttr x) = saq_op x"
| "req_op (Q_ReadDir x) = rdq_op x"
| "req_op (Q_Open x) = opq_op x"
| "req_op (Q_Release x) = rlq_op x"
| "req_op (Q_Read x) = rq_op x"
| "req_op (Q_Write x) = wq_op x"
| "req_op (Q_Rename x) = rnq_op x"
| "req_op (Q_Path x) = pq_op x"
| "req_op (Q_MkDir x) = mkq_op x"
| "req_op (Q_Create x) = crq_op x"
| "req_op (Q_Fsync x) = fsq_op x"
| "req_op (Q_Symlink x) = syq_op x"
| "req_op (Q_Link x) = lnq_op x"

fun req_seq :: "request \<Rightarrow> u64" where
  "req_seq (Q_Handshake x) = hsq_seq x"
| "req_seq (Q_Ping x) = pgq_seq x"
| "req_seq (Q_GetAttr x) = gaq_seq x"
| "req_seq (Q_SetAttr x) = saq_seq x"
| "req_seq (Q_ReadDir x) = rdq_seq x"
| "req_seq (Q_Open x) = opq_seq x"
| "req_seq (Q_Release x) = rlq_seq x"
| "req_seq (Q_Read x) = rq_seq x"
| "req_seq (Q_Write x) = wq_seq x"
| "req_seq (Q_Rename x) = rnq_seq x"
| "req_seq (Q_Path x) = pq_seq x"
| "req_seq (Q_MkDir x) = mkq_seq x"
| "req_seq (Q_Create x) = crq_seq x"
| "req_seq (Q_Fsync x) = fsq_seq x"
| "req_seq (Q_Symlink x) = syq_seq x"
| "req_seq (Q_Link x) = lnq_seq x"

fun resp_op :: "response \<Rightarrow> u8" where
  "resp_op (R_Handshake x) = hsr_op x"
| "resp_op (R_Ping x) = pgr_op x"
| "resp_op (R_GetAttr x) = gar_op x"
| "resp_op (R_SetAttr x) = sar_op x"
| "resp_op (R_ReadDir x) = rdr_op x"
| "resp_op (R_Open x) = opr_op x"
| "resp_op (R_Release x) = rlr_op x"
| "resp_op (R_Read x) = rr_op x"
| "resp_op (R_Write x) = wr_op x"
| "resp_op (R_Status x) = sr_op x"
| "resp_op (R_ReadLink x) = lkr_op x"
| "resp_op (R_StatFs x) = sfr_op x"

fun resp_seq :: "response \<Rightarrow> u64" where
  "resp_seq (R_Handshake x) = hsr_seq x"
| "resp_seq (R_Ping x) = pgr_seq x"
| "resp_seq (R_GetAttr x) = gar_seq x"
| "resp_seq (R_SetAttr x) = sar_seq x"
| "resp_seq (R_ReadDir x) = rdr_seq x"
| "resp_seq (R_Open x) = opr_seq x"
| "resp_seq (R_Release x) = rlr_seq x"
| "resp_seq (R_Read x) = rr_seq x"
| "resp_seq (R_Write x) = wr_seq x"
| "resp_seq (R_Status x) = sr_seq x"
| "resp_seq (R_ReadLink x) = lkr_seq x"
| "resp_seq (R_StatFs x) = sfr_seq x"

fun resp_status :: "response \<Rightarrow> u8" where
  "resp_status (R_Handshake x) = hsr_status x"
| "resp_status (R_Ping x) = pgr_status x"
| "resp_status (R_GetAttr x) = gar_status x"
| "resp_status (R_SetAttr x) = sar_status x"
| "resp_status (R_ReadDir x) = rdr_status x"
| "resp_status (R_Open x) = opr_status x"
| "resp_status (R_Release x) = rlr_status x"
| "resp_status (R_Read x) = rr_status x"
| "resp_status (R_Write x) = wr_status x"
| "resp_status (R_Status x) = sr_status x"
| "resp_status (R_ReadLink x) = lkr_status x"
| "resp_status (R_StatFs x) = sfr_status x"

section \<open>The encoding, a parameter\<close>

record server_codec =
  enc_response :: "response \<Rightarrow> bytes option"
  dec_Envelope :: "bytes \<Rightarrow> Envelope option"
  dec_HandshakeRequest :: "bytes \<Rightarrow> HandshakeRequest option"
  dec_PingRequest :: "bytes \<Rightarrow> PingRequest option"
  dec_GetAttrRequest :: "bytes \<Rightarrow> GetAttrRequest option"
  dec_SetAttrRequest :: "bytes \<Rightarrow> SetAttrRequest option"
  dec_ReadDirRequest :: "bytes \<Rightarrow> ReadDirRequest option"
  dec_OpenRequest :: "bytes \<Rightarrow> OpenRequest option"
  dec_ReleaseRequest :: "bytes \<Rightarrow> ReleaseRequest option"
  dec_ReadRequest :: "bytes \<Rightarrow> ReadRequest option"
  dec_WriteRequest :: "bytes \<Rightarrow> WriteRequest option"
  dec_RenameRequest :: "bytes \<Rightarrow> RenameRequest option"
  dec_PathRequest :: "bytes \<Rightarrow> PathRequest option"
  dec_MkDirRequest :: "bytes \<Rightarrow> MkDirRequest option"
  dec_CreateRequest :: "bytes \<Rightarrow> CreateRequest option"
  dec_FsyncRequest :: "bytes \<Rightarrow> FsyncRequest option"
  dec_SymlinkRequest :: "bytes \<Rightarrow> SymlinkRequest option"
  dec_LinkRequest :: "bytes \<Rightarrow> LinkRequest option"

record client_codec =
  enc_request :: "request \<Rightarrow> bytes option"
  dec_HandshakeResponse :: "bytes \<Rightarrow> HandshakeResponse option"
  dec_PingResponse :: "bytes \<Rightarrow> PingResponse option"
  dec_GetAttrResponse :: "bytes \<Rightarrow> GetAttrResponse option"
  dec_SetAttrResponse :: "bytes \<Rightarrow> SetAttrResponse option"
  dec_ReadDirResponse :: "bytes \<Rightarrow> ReadDirResponse option"
  dec_OpenResponse :: "bytes \<Rightarrow> OpenResponse option"
  dec_ReleaseResponse :: "bytes \<Rightarrow> ReleaseResponse option"
  dec_ReadResponse :: "bytes \<Rightarrow> ReadResponse option"
  dec_WriteResponse :: "bytes \<Rightarrow> WriteResponse option"
  dec_StatusResponse :: "bytes \<Rightarrow> StatusResponse option"
  dec_ReadLinkResponse :: "bytes \<Rightarrow> ReadLinkResponse option"
  dec_StatFsResponse :: "bytes \<Rightarrow> StatFsResponse option"
  dec_RenameResponse :: "bytes \<Rightarrow> RenameResponse option"

text \<open>The message decodes to itself with the decoder of its own struct. \<open>RenameResponse\<close> and
  \<open>StatusResponse\<close> have the same fields, so one decodes from the other's named map: the server
  answers a rename with a \<open>StatusResponse\<close> and the client reads a \<open>RenameResponse\<close>.\<close>

fun decodes_request :: "server_codec \<Rightarrow> bytes \<Rightarrow> request \<Rightarrow> bool" where
  "decodes_request sc b (Q_Handshake x) = (dec_HandshakeRequest sc b = Some x)"
| "decodes_request sc b (Q_Ping x) = (dec_PingRequest sc b = Some x)"
| "decodes_request sc b (Q_GetAttr x) = (dec_GetAttrRequest sc b = Some x)"
| "decodes_request sc b (Q_SetAttr x) = (dec_SetAttrRequest sc b = Some x)"
| "decodes_request sc b (Q_ReadDir x) = (dec_ReadDirRequest sc b = Some x)"
| "decodes_request sc b (Q_Open x) = (dec_OpenRequest sc b = Some x)"
| "decodes_request sc b (Q_Release x) = (dec_ReleaseRequest sc b = Some x)"
| "decodes_request sc b (Q_Read x) = (dec_ReadRequest sc b = Some x)"
| "decodes_request sc b (Q_Write x) = (dec_WriteRequest sc b = Some x)"
| "decodes_request sc b (Q_Rename x) = (dec_RenameRequest sc b = Some x)"
| "decodes_request sc b (Q_Path x) = (dec_PathRequest sc b = Some x)"
| "decodes_request sc b (Q_MkDir x) = (dec_MkDirRequest sc b = Some x)"
| "decodes_request sc b (Q_Create x) = (dec_CreateRequest sc b = Some x)"
| "decodes_request sc b (Q_Fsync x) = (dec_FsyncRequest sc b = Some x)"
| "decodes_request sc b (Q_Symlink x) = (dec_SymlinkRequest sc b = Some x)"
| "decodes_request sc b (Q_Link x) = (dec_LinkRequest sc b = Some x)"

fun decodes_response :: "client_codec \<Rightarrow> bytes \<Rightarrow> response \<Rightarrow> bool" where
  "decodes_response cc b (R_Handshake x) = (dec_HandshakeResponse cc b = Some x)"
| "decodes_response cc b (R_Ping x) = (dec_PingResponse cc b = Some x)"
| "decodes_response cc b (R_GetAttr x) = (dec_GetAttrResponse cc b = Some x)"
| "decodes_response cc b (R_SetAttr x) = (dec_SetAttrResponse cc b = Some x)"
| "decodes_response cc b (R_ReadDir x) = (dec_ReadDirResponse cc b = Some x)"
| "decodes_response cc b (R_Open x) = (dec_OpenResponse cc b = Some x)"
| "decodes_response cc b (R_Release x) = (dec_ReleaseResponse cc b = Some x)"
| "decodes_response cc b (R_Read x) = (dec_ReadResponse cc b = Some x)"
| "decodes_response cc b (R_Write x) = (dec_WriteResponse cc b = Some x)"
| "decodes_response cc b (R_Status x) =
     (dec_StatusResponse cc b = Some x \<and>
      dec_RenameResponse cc b = Some \<lparr>rnr_op = sr_op x, rnr_seq = sr_seq x, rnr_status = sr_status x\<rparr>)"
| "decodes_response cc b (R_ReadLink x) = (dec_ReadLinkResponse cc b = Some x)"
| "decodes_response cc b (R_StatFs x) = (dec_StatFsResponse cc b = Some x)"

definition codec_ok :: "server_codec \<Rightarrow> client_codec \<Rightarrow> bool" where
  "codec_ok sc cc =
     ((\<forall>r b. enc_request cc r = Some b \<longrightarrow>
         decodes_request sc b r \<and> dec_Envelope sc b = Some \<lparr>env_op = req_op r, env_seq = req_seq r\<rparr>) \<and>
      (\<forall>r b. enc_response sc r = Some b \<longrightarrow> decodes_response cc b r))"

section \<open>Lemmas\<close>

lemma codec_ok_request:
  assumes "codec_ok sc cc" and "enc_request cc r = Some b"
  shows "decodes_request sc b r" and "dec_Envelope sc b = Some \<lparr>env_op = req_op r, env_seq = req_seq r\<rparr>"
  using assms by (auto simp: codec_ok_def)

lemma codec_ok_response:
  "codec_ok sc cc \<Longrightarrow> enc_response sc r = Some b \<Longrightarrow> decodes_response cc b r"
  by (simp add: codec_ok_def)

end
