(* ===== verification/Frame_IO.thy ===== *)
theory Frame_IO
  imports Frames
begin

text \<open>
  Length-prefixed frames (\<open>common/src/io.rs\<close>). \<open>write_frame\<close> and \<open>read_frame\<close> are generic over
  the writer and the reader, as in the source: the parameter \<open>wr\<close> is \<open>write_all\<close> of the writer and
  \<open>rd\<close> is \<open>read_exact\<close> of the reader. \<open>appends\<close> and \<open>consumes\<close> state what those calls promise.
\<close>

fun show_nat :: "nat \<Rightarrow> string" where
  "show_nat n =
     (if n < 10 then [char_of (48 + n)] else show_nat (n div 10) @ [char_of (48 + n mod 10)])"

declare show_nat.simps [simp del]

text \<open>\<open>write_u32\<close> and \<open>read_u32\<close> of tokio: four bytes, most significant first.\<close>

definition be32 :: "u32 \<Rightarrow> bytes" where
  "be32 w =
     [word_of_nat (unat w div 2 ^ 24), word_of_nat (unat w div 2 ^ 16),
      word_of_nat (unat w div 2 ^ 8), word_of_nat (unat w)]"

definition from_be32 :: "bytes \<Rightarrow> u32" where
  "from_be32 bs = word_of_nat (foldl (\<lambda>n b. n * 256 + unat b) 0 bs)"

definition write_frame ::
  "(bytes \<Rightarrow> 'w \<Rightarrow> ('e + unit) \<times> 'w) \<Rightarrow> bytes \<Rightarrow> 'w \<Rightarrow> (anyhow + unit) \<times> 'w" where
  "write_frame wr data w =
     (if length data > MAX_FRAME_SIZE
      then (Inl (''frame too large: '' @ show_nat (length data) @ '' bytes''), w)
      else case wr (be32 (word_of_nat (length data))) w of
             (Inl _, w1) \<Rightarrow> (Inl ''write length prefix'', w1)
           | (Inr _, w1) \<Rightarrow>
               (case wr data w1 of
                  (Inl _, w2) \<Rightarrow> (Inl ''write frame body'', w2)
                | (Inr _, w2) \<Rightarrow> (Inr (), w2)))"

definition read_frame ::
  "(nat \<Rightarrow> 'r \<Rightarrow> ('e + bytes) \<times> 'r) \<Rightarrow> 'r \<Rightarrow> (anyhow + bytes) \<times> 'r" where
  "read_frame rd r =
     (case rd 4 r of
        (Inl _, r1) \<Rightarrow> (Inl ''read length prefix'', r1)
      | (Inr hdr, r1) \<Rightarrow>
          (let len = unat (from_be32 hdr)
           in if len > MAX_FRAME_SIZE
              then (Inl (''frame too large: '' @ show_nat len @ '' bytes''), r1)
              else case rd len r1 of
                     (Inl _, r2) \<Rightarrow> (Inl ''read frame body'', r2)
                   | (Inr buf, r2) \<Rightarrow> (Inr buf, r2)))"

text \<open>The bytes of one frame on the wire.\<close>

definition frame_bytes :: "bytes \<Rightarrow> bytes" where
  "frame_bytes data = be32 (word_of_nat (length data)) @ data"

text \<open>What the generic parameters promise: a write that succeeds appends its bytes to what the
  writer has sent; \<open>read_exact\<close> takes exactly the bytes asked for from what is still to be read
  and fails if there are fewer.\<close>

definition appends :: "(bytes \<Rightarrow> 'w \<Rightarrow> ('e + unit) \<times> 'w) \<Rightarrow> ('w \<Rightarrow> bytes) \<Rightarrow> bool" where
  "appends wr sent = (\<forall>d w w'. wr d w = (Inr (), w') \<longrightarrow> sent w' = sent w @ d)"

definition consumes :: "(nat \<Rightarrow> 'r \<Rightarrow> ('e + bytes) \<times> 'r) \<Rightarrow> ('r \<Rightarrow> bytes) \<Rightarrow> bool" where
  "consumes rd avail =
     (\<forall>n r. if n \<le> length (avail r)
            then \<exists>r'. rd n r = (Inr (take n (avail r)), r') \<and> avail r' = drop n (avail r)
            else \<exists>e r'. rd n r = (Inl e, r'))"

text \<open>In-memory instances: a growing buffer and a byte slice, as tokio implements both traits for
  \<open>Vec<u8>\<close> and \<open>&[u8]\<close>.\<close>

definition buf_write :: "bytes \<Rightarrow> bytes \<Rightarrow> (io_error + unit) \<times> bytes" where
  "buf_write d w = (Inr (), w @ d)"

definition buf_read :: "nat \<Rightarrow> bytes \<Rightarrow> (io_error + bytes) \<times> bytes" where
  "buf_read n r = (if n \<le> length r then (Inr (take n r), drop n r) else (Inl (KindError Other_k), []))"

section \<open>Lemmas\<close>

lemma appends_buf_write: "appends buf_write id"
  by (simp add: appends_def buf_write_def)

lemma consumes_buf_read: "consumes buf_read id"
  by (simp add: consumes_def buf_read_def)

lemma length_be32 [simp]: "length (be32 w) = 4"
  by (simp add: be32_def)

lemma base256_digits:
  fixes n :: nat
  assumes "n < 2 ^ 32"
  shows "((n div 2 ^ 24 mod 256 * 256 + n div 2 ^ 16 mod 256) * 256 + n div 2 ^ 8 mod 256) * 256
           + n mod 256 = n"
proof -
  have "n div 2 ^ 24 mod 256 = n div 2 ^ 24"
    using assms by (intro mod_less) (simp add: less_mult_imp_div_less)
  moreover have "n div 2 ^ 24 * 256 + n div 2 ^ 16 mod 256 = n div 2 ^ 16"
    using div_mult2_eq [of n "2 ^ 16" 256] by simp
  moreover have "n div 2 ^ 16 * 256 + n div 2 ^ 8 mod 256 = n div 2 ^ 8"
    using div_mult2_eq [of n "2 ^ 8" 256] by simp
  moreover have "n div 2 ^ 8 * 256 + n mod 256 = n"
    by simp
  ultimately show ?thesis by simp
qed

lemma unat_byte_of_nat: "unat (word_of_nat k :: u8) = k mod 256"
  by (simp add: unat_of_nat take_bit_eq_mod)

lemma from_be32_be32 [simp]: "from_be32 (be32 w) = w"
proof -
  have "unat w < 2 ^ 32" using unsigned_less [of w] by simp
  from base256_digits [OF this]
  have "foldl (\<lambda>n b. n * 256 + unat b) 0 (be32 w) = unat w"
    unfolding be32_def by (simp only: foldl.simps unat_byte_of_nat mult_0 add_0)
  then show ?thesis by (simp add: from_be32_def)
qed

lemma frame_length_word:
  "length d \<le> MAX_FRAME_SIZE \<Longrightarrow> unat (word_of_nat (length d) :: u32) = length d"
  by (rule unat_of_nat_less) (simp add: MAX_FRAME_SIZE_def)

lemma write_frame_sent:
  assumes "appends wr sent" and "write_frame wr d w = (Inr (), w')"
  shows "sent w' = sent w @ frame_bytes d" and "length d \<le> MAX_FRAME_SIZE"
  using assms
  by (auto simp: write_frame_def appends_def frame_bytes_def split: if_splits prod.splits sum.splits)

lemma consumes_Ok:
  "consumes rd avail \<Longrightarrow> n \<le> length (avail r) \<Longrightarrow>
   \<exists>r'. rd n r = (Inr (take n (avail r)), r') \<and> avail r' = drop n (avail r)"
  unfolding consumes_def by presburger

lemma consumes_Err:
  "consumes rd avail \<Longrightarrow> length (avail r) < n \<Longrightarrow> \<exists>e r'. rd n r = (Inl e, r')"
  unfolding consumes_def by (metis linorder_not_le)

lemma read_frame_of_frame:
  assumes rd: "consumes rd avail" and r: "avail r = frame_bytes d @ rest"
    and len: "length d \<le> MAX_FRAME_SIZE"
  shows "\<exists>r'. read_frame rd r = (Inr d, r') \<and> avail r' = rest"
proof -
  obtain r1 where r1: "rd 4 r = (Inr (be32 (word_of_nat (length d))), r1)" "avail r1 = d @ rest"
    using consumes_Ok [OF rd, of 4 r] r by (auto simp: frame_bytes_def)
  obtain r2 where "rd (length d) r1 = (Inr d, r2)" "avail r2 = rest"
    using consumes_Ok [OF rd, of "length d" r1] r1(2) by auto
  with r1(1) len show ?thesis
    by (simp add: read_frame_def frame_length_word)
qed

lemma be32_from_be32:
  assumes "length bs = 4"
  shows "be32 (from_be32 bs) = bs"
proof -
  obtain a b c d where bs: "bs = [a, b, c, d]"
    using assms by (auto simp: length_Suc_conv numeral_eq_Suc)
  have lt: "unat x < 256" for x :: u8 using unsigned_less [of x] by simp
  define n where "n = ((unat a * 256 + unat b) * 256 + unat c) * 256 + unat d"
  have n: "n < 2 ^ 32" using lt [of a] lt [of b] lt [of c] lt [of d] by (simp add: n_def)
  have "from_be32 bs = word_of_nat n" by (simp add: bs from_be32_def n_def)
  moreover have "unat (word_of_nat n :: u32) = n" using n by (simp add: unat_of_nat_less)
  moreover have "n div 2 ^ 24 = unat a" "n div 2 ^ 16 = unat a * 256 + unat b"
    "n div 2 ^ 8 = (unat a * 256 + unat b) * 256 + unat c"
    using lt [of b] lt [of c] lt [of d] by (simp_all add: n_def)
  ultimately have "be32 (from_be32 bs) =
      [word_of_nat (unat a), word_of_nat (unat a * 256 + unat b),
       word_of_nat ((unat a * 256 + unat b) * 256 + unat c), word_of_nat n]"
    by (simp add: be32_def)
  moreover have "(word_of_nat (x * 256 + unat y) :: u8) = y" for x y
  proof -
    have "(256 :: u8) = 0" by simp
    then show ?thesis by (simp only: of_nat_add of_nat_mult of_nat_numeral mult_zero_right add_0 of_nat_unat ucast_id)
  qed
  moreover have "(word_of_nat (unat a) :: u8) = a" by simp
  ultimately show ?thesis by (simp only: bs n_def)
qed

lemma read_frame_Inr:
  assumes rd: "consumes rd avail" and ok: "read_frame rd r = (Inr d, r')"
  shows "length d \<le> MAX_FRAME_SIZE \<and> avail r = frame_bytes d @ avail r'"
proof (cases "4 \<le> length (avail r)")
  case False
  then show ?thesis using consumes_Err [OF rd, of r 4] ok by (auto simp: read_frame_def)
next
  case True
  define hdr where "hdr = take 4 (avail r)"
  obtain r1 where r1: "rd 4 r = (Inr hdr, r1)" "avail r1 = drop 4 (avail r)"
    using consumes_Ok [OF rd True] by (auto simp: hdr_def)
  define n where "n = unat (from_be32 hdr)"
  have n: "n \<le> MAX_FRAME_SIZE" and r2: "rd n r1 = (Inr d, r')"
    using ok r1 by (auto simp: read_frame_def n_def Let_def split: if_splits prod.splits sum.splits)
  have le: "n \<le> length (avail r1)"
    using consumes_Err [OF rd, of r1 n] r2 by (cases "n \<le> length (avail r1)") auto
  have d: "d = take n (avail r1)" and r': "avail r' = drop n (avail r1)"
    using consumes_Ok [OF rd le] r2 by auto
  have "be32 (word_of_nat n) = hdr"
    using be32_from_be32 [of hdr] True by (simp add: n_def hdr_def)
  moreover have "avail r = take 4 (avail r) @ take n (avail r1) @ drop n (avail r1)"
    by (simp only: r1(2) append_take_drop_id)
  ultimately show ?thesis
    using n le by (simp add: frame_bytes_def d r' hdr_def)
qed

section \<open>Properties\<close>

text \<open>C24: The reader of frames is exact. On a stream that holds at least the bytes of a frame the
  reader returns its body and stops behind it; conversely a body is returned only if it is at most
  \<open>MAX_FRAME_SIZE\<close> bytes and its frame is what the stream starts with. So truncated and oversized
  frames are errors, and what \<open>write_frame\<close> has sent is what \<open>read_frame\<close> gives back.\<close>

theorem frame_roundtrip:
  assumes "appends wr sent" and "consumes rd avail" and "sent w = []"
  shows "(\<forall>d w' r rest. write_frame wr d w = (Inr (), w') \<and> avail r = sent w' @ rest \<longrightarrow>
            (\<exists>r'. read_frame rd r = (Inr d, r') \<and> avail r' = rest)) \<and>
         (\<forall>d r r'. read_frame rd r = (Inr d, r') \<longrightarrow>
            length d \<le> MAX_FRAME_SIZE \<and> avail r = frame_bytes d @ avail r')"
  using write_frame_sent [OF assms(1), of _ w] read_frame_of_frame [OF assms(2)]
    read_frame_Inr [OF assms(2)] assms(3) by auto

theorem frame_roundtrip_witness:
  "\<exists>r'. read_frame buf_read (snd (write_frame buf_write [1, 2, 3] []) @ [9]) = (Inr [1, 2, 3], r') \<and> id r' = [9]"
proof -
  have "write_frame buf_write [1, 2, 3] [] = (Inr (), frame_bytes [1, 2, 3])"
    by (simp add: write_frame_def buf_write_def frame_bytes_def MAX_FRAME_SIZE_def)
  then show ?thesis
    using frame_roundtrip [OF appends_buf_write consumes_buf_read, of "[]"] by simp
qed

text \<open>C25: A peer cannot make the reader allocate more than \<open>MAX_FRAME_SIZE\<close> bytes: whatever the
  stream says, the buffers asked for have at most that size, so a reader that misbehaves on larger
  requests cannot be told from the one given.\<close>

theorem read_frame_bounded:
  "read_frame (\<lambda>n. if n \<le> MAX_FRAME_SIZE then rd n else rd' n) r = read_frame rd r"
  by (simp add: read_frame_def MAX_FRAME_SIZE_def Let_def split: prod.splits sum.splits)

end
