(* ===== verification/Rust_Path.thy ===== *)
theory Rust_Path
  imports Rust_Str "HOL-Library.Sublist"
begin

text \<open>
  \<open>std::path\<close> on Unix, as far as the sources use it. A \<open>Path\<close> is its raw byte string; two paths
  are equal, and one starts with another, when their \<open>components\<close> agree. \<open>path_push\<close> works on
  the raw string as \<open>PathBuf::push\<close> does, and \<open>path_parent\<close> and \<open>path_strip_prefix\<close> return the
  raw slice that \<open>Components::as_path\<close> returns.
\<close>

datatype component = RootDir | CurDir | ParentDir | Normal string

definition is_absolute :: "string \<Rightarrow> bool" where
  "is_absolute s = (case s of [] \<Rightarrow> False | c # _ \<Rightarrow> c = CHR ''/'')"

text \<open>The pieces that \<open>Components\<close> skips inside a path.\<close>

definition skipped :: "string \<Rightarrow> bool" where
  "skipped p = (p = [] \<or> p = ''.'')"

definition to_component :: "string \<Rightarrow> component" where
  "to_component p = (if p = ''..'' then ParentDir else Normal p)"

text \<open>What comes before the body of a path (the root of an absolute path, a leading dot of a
  relative one) and the pieces of the body.\<close>

definition path_lead :: "string \<Rightarrow> component list" where
  "path_lead s =
     (if is_absolute s then [RootDir] else if hd (split_char (CHR ''/'') s) = ''.'' then [CurDir] else [])"

definition path_parts :: "string \<Rightarrow> string list" where
  "path_parts s =
     (if path_lead s = [] then split_char (CHR ''/'') s else tl (split_char (CHR ''/'') s))"

definition components :: "string \<Rightarrow> component list" where
  "components s =
     path_lead s @ map to_component (filter (\<lambda>p. \<not> skipped p) (split_char (CHR ''/'') s))"

definition path_eq :: "string \<Rightarrow> string \<Rightarrow> bool" where
  "path_eq a b = (components a = components b)"

text \<open>\<open>Path::starts_with\<close> compares whole components.\<close>

definition path_starts_with :: "string \<Rightarrow> string \<Rightarrow> bool" where
  "path_starts_with p b = prefix (components b) (components p)"

definition path_push :: "string \<Rightarrow> string \<Rightarrow> string" where
  "path_push b p =
     (if is_absolute p then p
      else if b \<noteq> [] \<and> last b \<noteq> CHR ''/'' then b @ CHR ''/'' # p
      else b @ p)"

definition trim_right_parts :: "string list \<Rightarrow> string list" where
  "trim_right_parts ps = rev (dropWhile skipped (rev ps))"

text \<open>The raw text of a lead and body pieces.\<close>

definition path_text :: "component list \<Rightarrow> string list \<Rightarrow> string" where
  "path_text lead ps =
     (if lead = [RootDir] then CHR ''/'' # join_char (CHR ''/'') ps
      else if lead = [CurDir] then join_char (CHR ''/'') (''.'' # ps)
      else join_char (CHR ''/'') ps)"

definition path_parent :: "string \<Rightarrow> string option" where
  "path_parent s =
     (let ps = trim_right_parts (path_parts s)
      in if ps \<noteq> [] then Some (path_text (path_lead s) (trim_right_parts (butlast ps)))
         else if path_lead s = [CurDir] then Some []
         else None)"

definition path_file_name :: "string \<Rightarrow> string option" where
  "path_file_name s =
     (case rev (components s) of Normal n # _ \<Rightarrow> Some n | _ \<Rightarrow> None)"

text \<open>Drop pieces until a number of body components has been passed.\<close>

fun drop_parts :: "nat \<Rightarrow> string list \<Rightarrow> string list" where
  "drop_parts 0 ps = ps"
| "drop_parts (Suc n) [] = []"
| "drop_parts (Suc n) (p # ps) = (if skipped p then drop_parts (Suc n) ps else drop_parts n ps)"

definition body_count :: "string \<Rightarrow> nat" where
  "body_count s = length (filter (\<lambda>p. \<not> skipped p) (path_parts s))"

definition path_strip_prefix :: "string \<Rightarrow> string \<Rightarrow> string option" where
  "path_strip_prefix p b =
     (if \<not> path_starts_with p b then None
      else if components b = [] then Some (path_text (path_lead p) (trim_right_parts (path_parts p)))
      else Some (join_char (CHR ''/'')
             (dropWhile skipped (trim_right_parts (drop_parts (body_count b) (path_parts p))))))"

text \<open>A string that is one ordinary path component: the pieces that \<open>resolve\<close> keeps.\<close>

definition plain_component :: "string \<Rightarrow> bool" where
  "plain_component c = (c \<noteq> [] \<and> c \<noteq> ''.'' \<and> c \<noteq> ''..'' \<and> CHR ''/'' \<notin> set c)"

section \<open>Lemmas\<close>

lemma to_component_plain [simp]: "plain_component c \<Longrightarrow> to_component c = Normal c"
  by (simp add: to_component_def plain_component_def)

lemma not_skipped_plain [simp]: "plain_component c \<Longrightarrow> \<not> skipped c"
  by (simp add: skipped_def plain_component_def)

lemma skipped_Nil [simp]: "skipped []"
  by (simp add: skipped_def)

lemma not_absolute_plain [simp]: "plain_component c \<Longrightarrow> \<not> is_absolute c"
  by (auto simp: is_absolute_def plain_component_def split: list.splits)

lemma split_plain [simp]: "plain_component c \<Longrightarrow> split_char (CHR ''/'') c = [c]"
  by (simp add: plain_component_def split_char_free)

lemma is_absolute_append [simp]: "b \<noteq> [] \<Longrightarrow> is_absolute (b @ s) = is_absolute b"
  by (cases b) (auto simp: is_absolute_def)

lemma split_push_cases:
  assumes "b \<noteq> []" and "plain_component c"
  shows "\<exists>ps. split_char (CHR ''/'') (path_push b c) = ps @ [c] \<and> ps \<noteq> [] \<and>
           (split_char (CHR ''/'') b = ps \<or> split_char (CHR ''/'') b = ps @ [[]])"
proof (cases "last b = CHR ''/''")
  case True
  then obtain b' where b: "b = b' @ [CHR ''/'']"
    using assms(1) by (metis append_butlast_last_id)
  have "split_char (CHR ''/'') (path_push b c) = split_char (CHR ''/'') b' @ [c]"
    using assms b split_char_append_sep [of "CHR ''/''" b' c] by (simp add: path_push_def)
  moreover have "split_char (CHR ''/'') b = split_char (CHR ''/'') b' @ [[]]"
    using b split_char_append_sep [of "CHR ''/''" b' "[]"] by simp
  ultimately show ?thesis by auto
next
  case False
  then have "split_char (CHR ''/'') (path_push b c) = split_char (CHR ''/'') b @ [c]"
    using assms split_char_append_sep [of "CHR ''/''" b c] by (simp add: path_push_def)
  then show ?thesis by auto
qed

lemma path_push_not_Nil [simp]: "b \<noteq> [] \<Longrightarrow> path_push b c \<noteq> []"
  by (auto simp: path_push_def is_absolute_def split: list.splits)

lemma is_absolute_push [simp]:
  "b \<noteq> [] \<Longrightarrow> plain_component c \<Longrightarrow> is_absolute (path_push b c) = is_absolute b"
  by (simp add: path_push_def)

text \<open>Pushing an ordinary component appends it to the components: the step of every \<open>resolve\<close> walk.\<close>

lemma components_push:
  assumes "b \<noteq> []" and "plain_component c"
  shows "components (path_push b c) = components b @ [Normal c]"
proof -
  from split_push_cases [OF assms] obtain ps where
    ps: "split_char (CHR ''/'') (path_push b c) = ps @ [c]" "ps \<noteq> []"
    and b: "split_char (CHR ''/'') b = ps \<or> split_char (CHR ''/'') b = ps @ [[]]" by blast
  have hd: "hd (split_char (CHR ''/'') (path_push b c)) = hd (split_char (CHR ''/'') b)"
    using ps b by auto
  have "path_lead (path_push b c) = path_lead b"
    unfolding path_lead_def hd using assms by simp
  then show ?thesis
    unfolding components_def using ps b assms(2) by auto
qed

lemma components_fold_push:
  "b \<noteq> [] \<Longrightarrow> (\<forall>c\<in>set cs. plain_component c) \<Longrightarrow>
   components (foldl path_push b cs) = components b @ map Normal cs"
  by (induction cs arbitrary: b) (auto simp: components_push)

lemma foldl_push_not_Nil: "b \<noteq> [] \<Longrightarrow> foldl path_push b cs \<noteq> []"
  by (induction cs arbitrary: b) auto

lemma path_starts_with_refl [simp]: "path_starts_with p p"
  by (simp add: path_starts_with_def)

lemma path_starts_with_fold_push:
  "b \<noteq> [] \<Longrightarrow> (\<forall>c\<in>set cs. plain_component c) \<Longrightarrow> path_starts_with (foldl path_push b cs) b"
  by (simp add: path_starts_with_def components_fold_push)

lemma trim_right_parts_plain [simp]:
  "plain_component c \<Longrightarrow> trim_right_parts (ps @ [c]) = ps @ [c]"
  by (simp add: trim_right_parts_def)

lemma filter_trim_right_parts [simp]:
  "filter (\<lambda>p. \<not> skipped p) (trim_right_parts ps) = filter (\<lambda>p. \<not> skipped p) ps"
proof -
  have "filter (\<lambda>p. \<not> skipped p) (dropWhile skipped xs) = filter (\<lambda>p. \<not> skipped p) xs" for xs
    by (induction xs) auto
  then show ?thesis
    by (simp add: trim_right_parts_def rev_filter [symmetric])
qed

text \<open>The components of a raw text put together from a lead and body pieces.\<close>

lemma path_lead_cases: "path_lead s = [] \<or> path_lead s = [RootDir] \<or> path_lead s = [CurDir]"
  by (simp add: path_lead_def)

lemma components_path_text_root:
  "(\<forall>p\<in>set ps. CHR ''/'' \<notin> set p) \<Longrightarrow>
   components (path_text [RootDir] ps) = RootDir # map to_component (filter (\<lambda>p. \<not> skipped p) ps)"
  by (cases "ps = []")
    (simp_all add: path_text_def components_def path_lead_def is_absolute_def split_join_char)

lemma components_path_text_cur:
  "(\<forall>p\<in>set ps. CHR ''/'' \<notin> set p) \<Longrightarrow>
   components (path_text [CurDir] ps) = CurDir # map to_component (filter (\<lambda>p. \<not> skipped p) ps)"
proof -
  assume ps: "\<forall>p\<in>set ps. CHR ''/'' \<notin> set p"
  have sp: "split_char (CHR ''/'') (join_char (CHR ''/'') (''.'' # ps)) = ''.'' # ps"
    using ps by (intro split_join_char) auto
  have "\<not> is_absolute (join_char (CHR ''/'') (''.'' # ps))"
    by (cases ps) (simp_all add: is_absolute_def)
  then show ?thesis
    by (simp add: path_text_def components_def path_lead_def sp skipped_def)
qed

lemma components_path_text_rel:
  assumes ps: "\<forall>p\<in>set ps. CHR ''/'' \<notin> set p" and hd: "ps \<noteq> [] \<Longrightarrow> \<not> skipped (hd ps)"
  shows "components (path_text [] ps) = map to_component (filter (\<lambda>p. \<not> skipped p) ps)"
proof (cases "ps = []")
  case True
  then show ?thesis
    by (simp add: path_text_def components_def path_lead_def is_absolute_def)
next
  case False
  have sp: "split_char (CHR ''/'') (join_char (CHR ''/'') ps) = ps"
    using ps False by (intro split_join_char) auto
  have h: "hd ps \<noteq> []" "hd ps \<noteq> ''.''" using hd [OF False] by (auto simp: skipped_def)
  obtain x xs where hdps: "hd ps = x # xs" using h(1) by (cases "hd ps") auto
  have "x \<noteq> CHR ''/''" using ps False hdps by (metis list.set_intros(1) list.set_sel(1))
  moreover have "\<exists>t. join_char (CHR ''/'') ps = hd ps @ t"
    using False by (cases "(CHR ''/'', ps)" rule: join_char.cases) auto
  ultimately have "\<not> is_absolute (join_char (CHR ''/'') ps)"
    using hdps by (auto simp: is_absolute_def)
  then show ?thesis
    using h by (simp add: path_text_def components_def path_lead_def sp)
qed

lemmas components_path_text = components_path_text_root components_path_text_cur components_path_text_rel

lemma set_trim_right_parts: "set (trim_right_parts ps) \<subseteq> set ps"
  unfolding trim_right_parts_def by (metis set_dropWhileD set_rev subsetI)

lemma hd_trim_right_parts: "trim_right_parts ps \<noteq> [] \<Longrightarrow> hd (trim_right_parts ps) = hd ps"
proof -
  assume ne: "trim_right_parts ps \<noteq> []"
  have "ps = trim_right_parts ps @ rev (takeWhile skipped (rev ps))"
    unfolding trim_right_parts_def by (metis rev_append rev_rev_ident takeWhile_dropWhile_id)
  then show ?thesis using ne by (metis hd_append2)
qed

lemma relative_hd_not_skipped:
  assumes "b \<noteq> []" and "path_lead b = []"
  shows "\<not> skipped (hd (split_char (CHR ''/'') b))"
proof -
  obtain x xs where b: "b = x # xs" using assms(1) by (cases b) auto
  have "x \<noteq> CHR ''/''" using assms(2) b by (auto simp: path_lead_def is_absolute_def split: if_splits)
  then have "hd (split_char (CHR ''/'') b) \<noteq> []" using b by simp
  moreover have "hd (split_char (CHR ''/'') b) \<noteq> ''.''"
    using assms(2) by (auto simp: path_lead_def split: if_splits)
  ultimately show ?thesis by (simp add: skipped_def)
qed

text \<open>The parent of a pushed component is the path it was pushed to.\<close>

lemma parent_push:
  assumes "b \<noteq> []" and "plain_component c"
  obtains q where "path_parent (path_push b c) = Some q" and "components q = components b"
proof -
  from split_push_cases [OF assms] obtain ps where
    ps: "split_char (CHR ''/'') (path_push b c) = ps @ [c]" "ps \<noteq> []"
    and b: "split_char (CHR ''/'') b = ps \<or> split_char (CHR ''/'') b = ps @ [[]]" by blast
  have hd: "hd (split_char (CHR ''/'') (path_push b c)) = hd (split_char (CHR ''/'') b)"
    using ps b by auto
  have lead: "path_lead (path_push b c) = path_lead b"
    unfolding path_lead_def hd using assms by simp
  define qs where "qs = (if path_lead b = [] then ps else tl ps)"
  have parts: "path_parts (path_push b c) = qs @ [c]"
    using ps lead by (simp add: path_parts_def qs_def)
  define q where "q = path_text (path_lead b) (trim_right_parts qs)"
  have parent: "path_parent (path_push b c) = Some q"
    using assms(2) by (simp add: path_parent_def parts lead q_def)
  have nosep: "\<forall>p\<in>set ps. CHR ''/'' \<notin> set p"
    using split_char_no_sep [of _ "CHR ''/''" "path_push b c"] ps by auto
  have nosep': "\<forall>p\<in>set (trim_right_parts qs). CHR ''/'' \<notin> set p"
    using nosep set_trim_right_parts [of qs] ps(2)
    by (auto simp: qs_def split: if_splits dest: list.set_sel(2))
  have body: "filter (\<lambda>p. \<not> skipped p) (split_char (CHR ''/'') b) = filter (\<lambda>p. \<not> skipped p) ps"
    using b by auto
  have "hd ps = hd (split_char (CHR ''/'') b)"
    using b ps(2) by auto
  then have leadpiece: "path_lead b \<noteq> [] \<Longrightarrow> skipped (hd ps)"
    by (cases b) (auto simp: path_lead_def is_absolute_def skipped_def split: if_splits)
  have filt: "filter (\<lambda>p. \<not> skipped p) qs = filter (\<lambda>p. \<not> skipped p) ps"
    using leadpiece ps(2) by (cases ps) (auto simp: qs_def)
  have "components q = components b"
    using path_lead_cases [of b]
  proof (elim disjE)
    assume l: "path_lead b = []"
    have hdqs: "trim_right_parts qs \<noteq> [] \<Longrightarrow> \<not> skipped (hd (trim_right_parts qs))"
      using relative_hd_not_skipped [OF assms(1) l] hd_trim_right_parts [of qs] b ps(2) l
      by (auto simp: qs_def)
    show ?thesis
      unfolding q_def l
      by (subst components_path_text_rel [OF nosep' hdqs])
        (simp_all add: components_def l body filt)
  next
    assume l: "path_lead b = [RootDir]"
    show ?thesis
      unfolding q_def l 
      by (subst components_path_text_root [OF nosep']) (simp add: components_def l body filt)
  next
    assume l: "path_lead b = [CurDir]"
    show ?thesis
      unfolding q_def l 
      by (subst components_path_text_cur [OF nosep']) (simp add: components_def l body filt)
  qed
  with parent show thesis by (rule that)
qed

lemma file_name_push:
  "b \<noteq> [] \<Longrightarrow> plain_component c \<Longrightarrow> path_file_name (path_push b c) = Some c"
  by (simp add: path_file_name_def components_push)

text \<open>Only the empty string has no components.\<close>

lemma components_Nil_iff: "components p = [] \<longleftrightarrow> p = []"
proof
  assume c: "components p = []"
  show "p = []"
  proof (rule ccontr)
    assume ne: "p \<noteq> []"
    have l: "path_lead p = []" using c by (simp add: components_def)
    have "hd (split_char (CHR ''/'') p) \<in> set (split_char (CHR ''/'') p)" by simp
    with relative_hd_not_skipped [OF ne l] c show False
      by (auto simp: components_def filter_empty_conv)
  qed
qed (simp add: components_def path_lead_def is_absolute_def)

lemma components_split:
  "components p = path_lead p @ map to_component (filter (\<lambda>x. \<not> skipped x) (path_parts p))"
proof (cases "path_lead p = []")
  case False
  then have "skipped (hd (split_char (CHR ''/'') p))"
    by (cases p) (auto simp: path_lead_def is_absolute_def skipped_def split: if_splits)
  then have "filter (\<lambda>x. \<not> skipped x) (split_char (CHR ''/'') p) =
      filter (\<lambda>x. \<not> skipped x) (tl (split_char (CHR ''/'') p))"
    by (cases "split_char (CHR ''/'') p") auto
  with False show ?thesis by (simp add: components_def path_parts_def)
qed (simp add: components_def path_parts_def)

lemma path_parts_no_sep: "x \<in> set (path_parts p) \<Longrightarrow> CHR ''/'' \<notin> set x"
  by (auto simp: path_parts_def split_char_no_sep dest: list.set_sel(2) [rotated] split: if_splits)

lemma filter_drop_parts:
  "filter (\<lambda>x. \<not> skipped x) (drop_parts n ps) = drop n (filter (\<lambda>x. \<not> skipped x) ps)"
  by (induction n ps rule: drop_parts.induct) auto

lemma set_drop_parts: "set (drop_parts n ps) \<subseteq> set ps"
  by (induction n ps rule: drop_parts.induct) auto

lemma filter_dropWhile_skipped [simp]:
  "filter (\<lambda>x. \<not> skipped x) (dropWhile skipped xs) = filter (\<lambda>x. \<not> skipped x) xs"
  by (induction xs) auto

text \<open>The lead is read off the components.\<close>

lemma path_lead_components:
  "path_lead p = (case components p of RootDir # _ \<Rightarrow> [RootDir] | CurDir # _ \<Rightarrow> [CurDir] | _ \<Rightarrow> [])"
  using path_lead_cases [of p]
  by (auto simp: components_def to_component_def split: list.splits component.splits if_splits)

text \<open>Stripping the root from a path below it leaves a relative path of the remaining components.\<close>

lemma strip_prefix_components:
  assumes b: "b \<noteq> []" and p: "components p = components b @ cs"
  obtains rel where "path_strip_prefix p b = Some rel" and "components rel = cs"
proof -
  define ps where "ps = dropWhile skipped (trim_right_parts (drop_parts (body_count b) (path_parts p)))"
  have ne: "components b \<noteq> []" using b by (simp add: components_Nil_iff)
  then have lead: "path_lead p = path_lead b"
    using p by (cases "components b") (simp_all add: path_lead_components)
  have sw: "path_starts_with p b" using p by (simp add: path_starts_with_def)
  have strip: "path_strip_prefix p b = Some (path_text [] ps)"
    using ne sw by (simp add: path_strip_prefix_def ps_def path_text_def)
  have nosep: "\<forall>x\<in>set ps. CHR ''/'' \<notin> set x"
    unfolding ps_def using set_trim_right_parts set_drop_parts path_parts_no_sep
    by (meson set_dropWhileD subsetD)
  have hd: "ps \<noteq> [] \<Longrightarrow> \<not> skipped (hd ps)"
    unfolding ps_def by (rule hd_dropWhile)
  have body: "map to_component (filter (\<lambda>x. \<not> skipped x) (path_parts p)) =
      map to_component (filter (\<lambda>x. \<not> skipped x) (path_parts b)) @ cs"
    using p lead by (simp add: components_split)
  have "components (path_text [] ps) = map to_component (filter (\<lambda>x. \<not> skipped x) ps)"
    using nosep hd by (rule components_path_text_rel)
  also have "\<dots> = drop (body_count b) (map to_component (filter (\<lambda>x. \<not> skipped x) (path_parts p)))"
    by (simp add: ps_def filter_drop_parts drop_map)
  also have "\<dots> = cs" by (simp add: body body_count_def)
  finally show thesis using strip that by blast
qed

text \<open>The parent drops exactly the last component.\<close>

lemma parent_components:
  assumes "path_parent p = Some q"
  obtains x where "components p = components q @ [x]"
proof (cases "trim_right_parts (path_parts p) = []")
  case True
  then have l: "path_lead p = [CurDir]" and q: "q = []"
    using assms by (auto simp: path_parent_def split: if_splits)
  have "filter (\<lambda>x. \<not> skipped x) (path_parts p) = []"
    using True filter_trim_right_parts [of "path_parts p"] by simp
  then have "components p = components q @ [CurDir]"
    using l q by (simp add: components_split [of p] components_Nil_iff [THEN iffD2])
  then show thesis by (rule that)
next
  case False
  define ps where "ps = butlast (trim_right_parts (path_parts p))"
  define x where "x = last (trim_right_parts (path_parts p))"
  have px: "trim_right_parts (path_parts p) = ps @ [x]"
    using False by (simp add: ps_def x_def)
  have q: "q = path_text (path_lead p) (trim_right_parts ps)"
    using assms False by (simp add: path_parent_def ps_def)
  have x: "\<not> skipped x"
  proof -
    have "dropWhile skipped (rev (path_parts p)) = x # rev ps"
      using px by (simp add: trim_right_parts_def rev_swap)
    then show ?thesis using hd_dropWhile [of skipped "rev (path_parts p)"] by simp
  qed
  have ne: "p \<noteq> []"
  proof
    assume "p = []"
    then have "path_parts p = [[]]" by (simp add: path_parts_def path_lead_def is_absolute_def)
    then show False using False by (simp add: trim_right_parts_def)
  qed
  have nosep: "\<forall>y\<in>set (trim_right_parts ps). CHR ''/'' \<notin> set y"
    using set_trim_right_parts [of ps] set_trim_right_parts [of "path_parts p"] px
      path_parts_no_sep [of _ p] by fastforce
  have hd: "path_lead p = [] \<Longrightarrow> trim_right_parts ps \<noteq> [] \<Longrightarrow> \<not> skipped (hd (trim_right_parts ps))"
  proof -
    assume l: "path_lead p = []" and t: "trim_right_parts ps \<noteq> []"
    have "ps \<noteq> []" using t by (auto simp: trim_right_parts_def)
    then have "hd (trim_right_parts ps) = hd (trim_right_parts (path_parts p))"
      using hd_trim_right_parts [OF t] px by simp
    also have "\<dots> = hd (path_parts p)" using hd_trim_right_parts [OF False] .
    finally show ?thesis
      using relative_hd_not_skipped [OF ne l] l by (simp add: path_parts_def)
  qed
  have "components q = path_lead p @ map to_component (filter (\<lambda>y. \<not> skipped y) ps)"
    unfolding q using path_lead_cases [of p] components_path_text_root [OF nosep]
      components_path_text_cur [OF nosep] components_path_text_rel [OF nosep hd]
    by auto
  moreover have "filter (\<lambda>y. \<not> skipped y) (path_parts p) = filter (\<lambda>y. \<not> skipped y) ps @ [x]"
    using filter_trim_right_parts [of "path_parts p"] px x by simp
  ultimately have "components p = components q @ [to_component x]"
    by (simp add: components_split [of p])
  then show thesis by (rule that)
qed

lemma Normal_component_plain: "Normal c \<in> set (components p) \<Longrightarrow> plain_component c"
  using path_lead_cases [of p]
  by (auto simp: components_def to_component_def plain_component_def skipped_def
      split_char_no_sep split: if_splits)

end
