(* ===== verification/Os.thy ===== *)
theory Os
  imports Frame_IO Rust_Path
begin

text \<open>
  The operating system as a parameter. The server reaches its file system only through
  \<open>std::fs\<close> and \<open>libc\<close>; none of that is code of the repository, so every server definition takes a
  record \<open>os\<close> of the calls it makes, over an unspecified state \<open>'fs\<close>. Calls that only look
  are functions of the state, the others return the new state. A file descriptor is a number.
  The server is modelled as it is compiled for Linux.
\<close>

type_synonym fd = nat

text \<open>\<open>std::fs::Metadata\<close>: the fields the server reads. Times are nanoseconds since the epoch, and
  asking for one may fail.\<close>

record metadata =
  md_dev :: u64
  md_ino :: u64
  md_mode :: u32
  md_nlink :: u64
  md_uid :: u32
  md_gid :: u32
  md_len :: u64
  md_accessed :: "io_error + int"
  md_modified :: "io_error + int"

definition is_symlink :: "metadata \<Rightarrow> bool" where
  "is_symlink m = (md_mode m AND 0xF000 = 0xA000)"

text \<open>\<open>struct open_how\<close> of \<open>openat2\<close>.\<close>

record open_how =
  how_flags :: u64
  how_mode :: u64
  how_resolve :: u64

text \<open>\<open>struct timespec\<close> of \<open>utimensat\<close>.\<close>

record timespec =
  tv_sec :: i64
  tv_nsec :: i64

record statvfs =
  f_blocks :: u64
  f_bfree :: u64
  f_bavail :: u64
  f_files :: u64
  f_ffree :: u64
  f_bsize :: u64
  f_namemax :: u64
  f_frsize :: u64

record 'fs os =
  os_lstat :: "'fs \<Rightarrow> string \<Rightarrow> io_error + metadata"
  os_stat :: "'fs \<Rightarrow> string \<Rightarrow> io_error + metadata"
  os_canonicalize :: "'fs \<Rightarrow> string \<Rightarrow> io_error + string"
  os_read_dir :: "'fs \<Rightarrow> string \<Rightarrow> io_error + (io_error + string \<times> (io_error + metadata)) list"
  os_statvfs :: "'fs \<Rightarrow> string \<Rightarrow> io_error + statvfs"
  os_open :: "string \<Rightarrow> u32 \<Rightarrow> u32 \<Rightarrow> 'fs \<Rightarrow> (io_error + fd) \<times> 'fs"
  os_openat2 :: "fd \<Rightarrow> string \<Rightarrow> open_how \<Rightarrow> 'fs \<Rightarrow> (io_error + fd) \<times> 'fs"
  os_close :: "fd \<Rightarrow> 'fs \<Rightarrow> 'fs"
  os_mkdirat :: "fd \<Rightarrow> string \<Rightarrow> u32 \<Rightarrow> 'fs \<Rightarrow> (io_error + unit) \<times> 'fs"
  os_fchmodat :: "fd \<Rightarrow> string \<Rightarrow> u32 \<Rightarrow> 'fs \<Rightarrow> (io_error + unit) \<times> 'fs"
  os_unlinkat :: "fd \<Rightarrow> string \<Rightarrow> u32 \<Rightarrow> 'fs \<Rightarrow> (io_error + unit) \<times> 'fs"
  os_symlinkat :: "string \<Rightarrow> fd \<Rightarrow> string \<Rightarrow> 'fs \<Rightarrow> (io_error + unit) \<times> 'fs"
  os_linkat :: "fd \<Rightarrow> string \<Rightarrow> fd \<Rightarrow> string \<Rightarrow> 'fs \<Rightarrow> (io_error + unit) \<times> 'fs"
  os_renameat :: "fd \<Rightarrow> string \<Rightarrow> fd \<Rightarrow> string \<Rightarrow> 'fs \<Rightarrow> (io_error + unit) \<times> 'fs"
  os_readlinkat :: "'fs \<Rightarrow> fd \<Rightarrow> string \<Rightarrow> nat \<Rightarrow> io_error + string"
  os_fstat :: "'fs \<Rightarrow> fd \<Rightarrow> io_error + metadata"
  os_fchmod :: "fd \<Rightarrow> u32 \<Rightarrow> 'fs \<Rightarrow> (io_error + unit) \<times> 'fs"
  os_proc_chmod :: "fd \<Rightarrow> u32 \<Rightarrow> 'fs \<Rightarrow> (io_error + unit) \<times> 'fs"
  os_proc_utimens :: "fd \<Rightarrow> timespec \<Rightarrow> timespec \<Rightarrow> 'fs \<Rightarrow> (io_error + unit) \<times> 'fs"
  os_set_len :: "fd \<Rightarrow> u64 \<Rightarrow> 'fs \<Rightarrow> (io_error + unit) \<times> 'fs"
  os_sync_all :: "fd \<Rightarrow> 'fs \<Rightarrow> (io_error + unit) \<times> 'fs"
  os_sync_data :: "fd \<Rightarrow> 'fs \<Rightarrow> (io_error + unit) \<times> 'fs"
  os_seek :: "fd \<Rightarrow> u64 \<Rightarrow> 'fs \<Rightarrow> (io_error + unit) \<times> 'fs"
  os_read :: "fd \<Rightarrow> nat \<Rightarrow> 'fs \<Rightarrow> (io_error + bytes) \<times> 'fs"
  os_write_all :: "fd \<Rightarrow> bytes \<Rightarrow> 'fs \<Rightarrow> (io_error + unit) \<times> 'fs"

text \<open>\<open>Path::exists\<close>: whether following the path succeeds.\<close>

definition path_exists :: "'fs os \<Rightarrow> 'fs \<Rightarrow> string \<Rightarrow> bool" where
  "path_exists os fs p = is_ok (os_stat os fs p)"

text \<open>A \<open>File\<close> that goes out of scope is closed, whatever the block using it returned.\<close>

definition closing ::
  "'fs os \<Rightarrow> fd \<Rightarrow> ('fs \<Rightarrow> ('e + 'a) \<times> 'fs) \<Rightarrow> 'fs \<Rightarrow> ('e + 'a) \<times> 'fs" where
  "closing os f m fs = (case m fs of (r, fs1) \<Rightarrow> (r, os_close os f fs1))"

text \<open>\<open>CString::new\<close>: a string with a null byte has no C string.\<close>

definition cstring_ok :: "string \<Rightarrow> bool" where
  "cstring_ok s = (CHR 0x00 \<notin> set s)"

text \<open>Open flags of \<open>libc\<close> on Linux.\<close>

definition O_RDONLY :: u32 where "O_RDONLY = 0"

definition O_WRONLY :: u32 where "O_WRONLY = 1"

definition O_RDWR :: u32 where "O_RDWR = 2"

definition O_CREAT :: u32 where "O_CREAT = 0x40"

definition O_EXCL :: u32 where "O_EXCL = 0x80"

definition O_TRUNC :: u32 where "O_TRUNC = 0x200"

definition O_APPEND :: u32 where "O_APPEND = 0x400"

definition O_DIRECTORY :: u32 where "O_DIRECTORY = 0x10000"

definition O_NOFOLLOW :: u32 where "O_NOFOLLOW = 0x20000"

definition O_CLOEXEC :: u32 where "O_CLOEXEC = 0x80000"

definition O_PATH :: u32 where "O_PATH = 0x200000"

definition AT_REMOVEDIR :: u32 where "AT_REMOVEDIR = 0x200"

definition RESOLVE_NO_MAGICLINKS :: u64 where "RESOLVE_NO_MAGICLINKS = 2"

definition RESOLVE_BENEATH :: u64 where "RESOLVE_BENEATH = 8"

lemmas flag_defs = O_RDONLY_def O_WRONLY_def O_RDWR_def O_CREAT_def O_EXCL_def O_TRUNC_def
  O_APPEND_def O_DIRECTORY_def O_NOFOLLOW_def O_CLOEXEC_def O_PATH_def AT_REMOVEDIR_def
  RESOLVE_NO_MAGICLINKS_def RESOLVE_BENEATH_def

text \<open>An operating system with no files, for the witnesses: every call fails.\<close>

definition null_os :: "unit os" where
  "null_os =
     (let no = Inl (OsError ENOENT)
      in \<lparr>os_lstat = (\<lambda>_ _. no), os_stat = (\<lambda>_ _. no), os_canonicalize = (\<lambda>_ _. Inl (OsError ENOENT)),
          os_read_dir = (\<lambda>_ _. Inl (OsError ENOENT)), os_statvfs = (\<lambda>_ _. Inl (OsError ENOENT)),
          os_open = (\<lambda>_ _ _ u. (Inl (OsError ENOENT), u)), os_openat2 = (\<lambda>_ _ _ u. (Inl (OsError ENOENT), u)),
          os_close = (\<lambda>_ u. u), os_mkdirat = (\<lambda>_ _ _ u. (Inl (OsError ENOENT), u)),
          os_fchmodat = (\<lambda>_ _ _ u. (Inl (OsError ENOENT), u)), os_unlinkat = (\<lambda>_ _ _ u. (Inl (OsError ENOENT), u)),
          os_symlinkat = (\<lambda>_ _ _ u. (Inl (OsError ENOENT), u)), os_linkat = (\<lambda>_ _ _ _ u. (Inl (OsError ENOENT), u)),
          os_renameat = (\<lambda>_ _ _ _ u. (Inl (OsError ENOENT), u)), os_readlinkat = (\<lambda>_ _ _ _. Inl (OsError ENOENT)),
          os_fstat = (\<lambda>_ _. no), os_fchmod = (\<lambda>_ _ u. (Inl (OsError ENOENT), u)),
          os_proc_chmod = (\<lambda>_ _ u. (Inl (OsError ENOENT), u)), os_proc_utimens = (\<lambda>_ _ _ u. (Inl (OsError ENOENT), u)),
          os_set_len = (\<lambda>_ _ u. (Inl (OsError ENOENT), u)), os_sync_all = (\<lambda>_ u. (Inl (OsError ENOENT), u)),
          os_sync_data = (\<lambda>_ u. (Inl (OsError ENOENT), u)), os_seek = (\<lambda>_ _ u. (Inl (OsError ENOENT), u)),
          os_read = (\<lambda>_ _ u. (Inl (OsError ENOENT), u)), os_write_all = (\<lambda>_ _ u. (Inl (OsError ENOENT), u))\<rparr>)"

lemma null_os_simps [simp]:
  "os_lstat null_os u p = Inl (OsError ENOENT)" "os_stat null_os u p = Inl (OsError ENOENT)"
  by (simp_all add: null_os_def Let_def)

end
