(* ===== verification/Sanitize.thy ===== *)
theory Sanitize
  imports Os
begin

text \<open>
  The export-root jail (\<open>server/src/sanitize.rs\<close>): \<open>resolve\<close> maps a client path to a path under
  the export root or refuses it, \<open>open_confined\<close> opens a resolved path with
  \<open>openat2(RESOLVE_BENEATH)\<close>, and the confined namespace operations act through the parent
  directory's descriptor on one trailing name.
\<close>

definition MAX_PATH_LEN :: nat where "MAX_PATH_LEN = 4096"

definition MAX_PATH_DEPTH :: nat where "MAX_PATH_DEPTH = 128"

section \<open>resolve\<close>

text \<open>The loop over \<open>rel.split('/')\<close>, with the components pushed so far.\<close>

fun norm_parts :: "string list \<Rightarrow> string list \<Rightarrow> anyhow + string list" where
  "norm_parts acc [] = Inr acc"
| "norm_parts acc (part # ps) =
     (if part = [] \<or> part = ''.'' then norm_parts acc ps
      else if part = ''..'' then Inl ''path traversal rejected''
      else if length part > 255 then Inl ''path component too long''
      else norm_parts (acc @ [part]) ps)"

text \<open>The walk over the components: every one but the last is refused if it is a symbolic link.\<close>

fun walk_components :: "'fs os \<Rightarrow> 'fs \<Rightarrow> string \<Rightarrow> string list \<Rightarrow> anyhow + string" where
  "walk_components os fs walking [] = Inr walking"
| "walk_components os fs walking [c] = Inr (path_push walking c)"
| "walk_components os fs walking (c # d # cs) =
     (let w = path_push walking c
      in case os_lstat os fs w of
           Inr m \<Rightarrow> if is_symlink m then Inl ''path escapes export root''
                    else walk_components os fs w (d # cs)
         | Inl _ \<Rightarrow> walk_components os fs w (d # cs))"

text \<open>The check on an existing path: its canonical form stays under the canonical root.\<close>

definition canonical_escape :: "'fs os \<Rightarrow> 'fs \<Rightarrow> string \<Rightarrow> string \<Rightarrow> bool" where
  "canonical_escape os fs root joined =
     (path_exists os fs joined \<and>
      (let canonical = (case os_canonicalize os fs joined of Inr c \<Rightarrow> c | Inl _ \<Rightarrow> joined);
           root_canonical = (case os_canonicalize os fs root of Inr c \<Rightarrow> c | Inl _ \<Rightarrow> root)
       in \<not> path_starts_with canonical root_canonical))"

definition resolve :: "'fs os \<Rightarrow> 'fs \<Rightarrow> string \<Rightarrow> string \<Rightarrow> anyhow + string" where
  "resolve os fs root client_path =
     (if length client_path > MAX_PATH_LEN then Inl ''path too long''
      else if CHR 0x00 \<in> set client_path then Inl ''path contains null byte''
      else case norm_parts [] (split_char (CHR ''/'') (trim_start_matches (CHR ''/'') client_path)) of
             Inl e \<Rightarrow> Inl e
           | Inr comps \<Rightarrow>
               if length comps > MAX_PATH_DEPTH then Inl ''path too deep''
               else (case walk_components os fs root comps of
                       Inl e \<Rightarrow> Inl e
                     | Inr joined \<Rightarrow>
                         if canonical_escape os fs root joined then Inl ''path escapes export root''
                         else Inr joined))"

section \<open>Confined opening\<close>

definition open_plain ::
  "'fs os \<Rightarrow> string \<Rightarrow> u32 \<Rightarrow> u32 \<Rightarrow> 'fs \<Rightarrow> (io_error + fd) \<times> 'fs" where
  "open_plain os resolved flags mode fs =
     (if \<not> cstring_ok resolved then (Inl (KindError InvalidInput_k), fs)
      else os_open os resolved (flags OR O_CLOEXEC) mode fs)"

definition openat2_beneath ::
  "'fs os \<Rightarrow> string \<Rightarrow> string \<Rightarrow> u32 \<Rightarrow> u32 \<Rightarrow> 'fs \<Rightarrow> (io_error + fd) \<times> 'fs" where
  "openat2_beneath os root resolved flags mode fs =
     (case path_strip_prefix resolved root of
        None \<Rightarrow> (Inl (KindError PermissionDenied_k), fs)
      | Some rel \<Rightarrow>
          (let rel_os = (if rel = [] then ''.'' else rel)
           in if \<not> cstring_ok rel_os \<or> \<not> cstring_ok root then (Inl (KindError InvalidInput_k), fs)
              else case os_open os root (O_PATH OR O_DIRECTORY OR O_CLOEXEC) 0 fs of
                     (Inl e, fs1) \<Rightarrow> (Inl e, fs1)
                   | (Inr dirfd, fs1) \<Rightarrow>
                       (let how = \<lparr>how_flags = scast (flags OR O_CLOEXEC),
                                   how_mode = (if flags AND O_CREAT \<noteq> 0 then ucast mode else 0),
                                   how_resolve = RESOLVE_BENEATH OR RESOLVE_NO_MAGICLINKS\<rparr>
                        in case os_openat2 os dirfd rel_os how fs1 of
                             (ret, fs2) \<Rightarrow> (ret, os_close os dirfd fs2))))"

definition open_confined ::
  "'fs os \<Rightarrow> string \<Rightarrow> string \<Rightarrow> u32 \<Rightarrow> u32 \<Rightarrow> 'fs \<Rightarrow> (io_error + fd) \<times> 'fs" where
  "open_confined os root resolved flags mode fs =
     (case openat2_beneath os root resolved flags mode fs of
        (Inl e, fs1) \<Rightarrow>
          (if raw_os_error e = Some ENOSYS then open_plain os resolved flags mode fs1
           else (Inl e, fs1))
      | other \<Rightarrow> other)"

definition fsync_dir_confined :: "'fs os \<Rightarrow> string \<Rightarrow> string \<Rightarrow> 'fs \<Rightarrow> (io_error + unit) \<times> 'fs" where
  "fsync_dir_confined os root dir =
     andthen (open_confined os root dir (O_RDONLY OR O_DIRECTORY OR O_NOFOLLOW) 0)
       (\<lambda>f. closing os f (os_sync_all os f))"

section \<open>Confined namespace operations\<close>

definition confined_parent ::
  "'fs os \<Rightarrow> string \<Rightarrow> string \<Rightarrow> 'fs \<Rightarrow> (io_error + fd \<times> string) \<times> 'fs" where
  "confined_parent os root resolved fs =
     (case path_parent resolved of
        None \<Rightarrow> (Inl (KindError InvalidInput_k), fs)
      | Some parent \<Rightarrow>
          (case path_file_name resolved of
             None \<Rightarrow> (Inl (KindError InvalidInput_k), fs)
           | Some name \<Rightarrow>
               if \<not> cstring_ok name then (Inl (KindError InvalidInput_k), fs)
               else (case open_confined os root parent (O_PATH OR O_DIRECTORY) 0 fs of
                       (Inl e, fs1) \<Rightarrow> (Inl e, fs1)
                     | (Inr dir, fs1) \<Rightarrow> (Inr (dir, name), fs1))))"

definition mkdir_confined :: "'fs os \<Rightarrow> string \<Rightarrow> string \<Rightarrow> u32 \<Rightarrow> 'fs \<Rightarrow> (io_error + unit) \<times> 'fs" where
  "mkdir_confined os root resolved mode =
     andthen (confined_parent os root resolved)
       (\<lambda>(dir, name). let m = mode AND 0x1FF in
          closing os dir
            (andthen (os_mkdirat os dir name m) (\<lambda>_. os_fchmodat os dir name m)))"

definition remove_confined :: "'fs os \<Rightarrow> string \<Rightarrow> string \<Rightarrow> bool \<Rightarrow> 'fs \<Rightarrow> (io_error + unit) \<times> 'fs" where
  "remove_confined os root resolved is_dir =
     andthen (confined_parent os root resolved)
       (\<lambda>(dir, name). closing os dir
          (os_unlinkat os dir name (if is_dir then AT_REMOVEDIR else 0)))"

definition symlink_confined :: "'fs os \<Rightarrow> string \<Rightarrow> string \<Rightarrow> string \<Rightarrow> 'fs \<Rightarrow> (io_error + unit) \<times> 'fs" where
  "symlink_confined os root link target =
     andthen (confined_parent os root link)
       (\<lambda>(dir, name). closing os dir
          (\<lambda>fs. if \<not> cstring_ok target then (Inl (KindError InvalidInput_k), fs)
                else os_symlinkat os target dir name fs))"

definition link_confined :: "'fs os \<Rightarrow> string \<Rightarrow> string \<Rightarrow> string \<Rightarrow> 'fs \<Rightarrow> (io_error + unit) \<times> 'fs" where
  "link_confined os root src dst =
     andthen (confined_parent os root src)
       (\<lambda>(sdir, sname). closing os sdir
          (andthen (confined_parent os root dst)
             (\<lambda>(ddir, dname). closing os ddir (os_linkat os sdir sname ddir dname))))"

definition rename_confined :: "'fs os \<Rightarrow> string \<Rightarrow> string \<Rightarrow> string \<Rightarrow> 'fs \<Rightarrow> (io_error + unit) \<times> 'fs" where
  "rename_confined os root old new =
     andthen (confined_parent os root old)
       (\<lambda>(odir, oname). closing os odir
          (andthen (confined_parent os root new)
             (\<lambda>(ndir, nname). closing os ndir (os_renameat os odir oname ndir nname))))"

definition readlink_confined :: "'fs os \<Rightarrow> string \<Rightarrow> string \<Rightarrow> 'fs \<Rightarrow> (io_error + string) \<times> 'fs" where
  "readlink_confined os root resolved =
     andthen (confined_parent os root resolved)
       (\<lambda>(dir, name). closing os dir
          (\<lambda>fs. (map_sum id (take MAX_PATH_LEN) (os_readlinkat os fs dir name MAX_PATH_LEN), fs)))"

text \<open>\<open>sync_parent_dir\<close> of \<open>server/src/ops/mod.rs\<close>: best effort, the result is only logged.\<close>

definition sync_parent_dir :: "'fs os \<Rightarrow> string \<Rightarrow> string \<Rightarrow> 'fs \<Rightarrow> 'fs" where
  "sync_parent_dir os root resolved fs =
     (if path_eq resolved root then fs
      else case path_parent resolved of
             None \<Rightarrow> fs
           | Some parent \<Rightarrow> snd (fsync_dir_confined os root parent fs))"

lemmas [op_defs] = mkdir_confined_def remove_confined_def symlink_confined_def link_confined_def
  rename_confined_def readlink_confined_def

section \<open>What resolve accepts\<close>

text \<open>The components of a client path, as a specification: the pieces between slashes, with the
  empty ones and the single dots dropped.\<close>

definition client_components :: "string \<Rightarrow> string list" where
  "client_components p = filter (\<lambda>x. \<not> skipped x) (split_char (CHR ''/'') p)"

definition symlink_at :: "'fs os \<Rightarrow> 'fs \<Rightarrow> string \<Rightarrow> bool" where
  "symlink_at os fs p = (case os_lstat os fs p of Inr m \<Rightarrow> is_symlink m | Inl _ \<Rightarrow> False)"

lemma client_components_trim:
  "filter (\<lambda>x. \<not> skipped x) (split_char (CHR ''/'') (trim_start_matches (CHR ''/'') p)) =
   client_components p"
  by (induction p) (simp_all add: client_components_def trim_start_matches_def)

lemma norm_parts_iff:
  "norm_parts acc ps = Inr cs \<longleftrightarrow>
   (\<forall>c\<in>set (filter (\<lambda>x. \<not> skipped x) ps). c \<noteq> ''..'' \<and> length c \<le> 255) \<and>
   cs = acc @ filter (\<lambda>x. \<not> skipped x) ps"
  by (induction acc ps rule: norm_parts.induct) (auto simp: skipped_def)

lemma walk_components_iff:
  "walk_components os fs w cs = Inr j \<longleftrightarrow>
   (\<forall>k. 0 < k \<and> k < length cs \<longrightarrow> \<not> symlink_at os fs (foldl path_push w (take k cs))) \<and>
   j = foldl path_push w cs"
proof (induction os fs w cs rule: walk_components.induct)
  case (3 os fs w c d cs)
  have shift: "(\<forall>k. 0 < k \<and> k < length (c # d # cs) \<longrightarrow>
        \<not> symlink_at os fs (foldl path_push w (take k (c # d # cs)))) \<longleftrightarrow>
      \<not> symlink_at os fs (path_push w c) \<and>
      (\<forall>k. 0 < k \<and> k < length (d # cs) \<longrightarrow>
        \<not> symlink_at os fs (foldl path_push (path_push w c) (take k (d # cs))))"
    (is "(\<forall>k. ?P k) \<longleftrightarrow> ?A \<and> (\<forall>k. ?Q k)")
  proof -
    have "?P (Suc k) \<longleftrightarrow> (if k = 0 then ?A else ?Q k)" for k
      by simp
    then have "(\<forall>k. ?P (Suc k)) \<longleftrightarrow> ?A \<and> (\<forall>k. ?Q k)"
      by (metis less_irrefl)
    moreover have "(\<forall>k. ?P k) \<longleftrightarrow> (\<forall>k. ?P (Suc k))"
      by (metis gr0_implies_Suc)
    ultimately show ?thesis by blast
  qed
  show ?case
    unfolding shift using 3
    by (auto simp: symlink_at_def Let_def split: sum.splits)
qed auto

lemma client_components_plain:
  "c \<in> set (client_components p) \<Longrightarrow> c \<noteq> ''..'' \<Longrightarrow> plain_component c"
  by (auto simp: client_components_def plain_component_def skipped_def split_char_no_sep)

lemma client_components_chars:
  "c \<in> set (client_components p) \<Longrightarrow> set c \<subseteq> set p"
  unfolding client_components_def using set_split_char by fastforce

lemma resolve_eq_Inr:
  "resolve os fs root p = Inr q \<longleftrightarrow>
   (length p \<le> MAX_PATH_LEN \<and> CHR 0x00 \<notin> set p \<and>
    (\<forall>c\<in>set (client_components p). c \<noteq> ''..'' \<and> length c \<le> 255) \<and>
    length (client_components p) \<le> MAX_PATH_DEPTH \<and>
    (\<forall>k. 0 < k \<and> k < length (client_components p) \<longrightarrow>
       \<not> symlink_at os fs (foldl path_push root (take k (client_components p)))) \<and>
    q = foldl path_push root (client_components p) \<and> \<not> canonical_escape os fs root q)"
proof -
  have n: "norm_parts [] (split_char (CHR ''/'') (trim_start_matches (CHR ''/'') p)) = Inr cs \<longleftrightarrow>
      (\<forall>c\<in>set (client_components p). c \<noteq> ''..'' \<and> length c \<le> 255) \<and> cs = client_components p" for cs
    unfolding norm_parts_iff client_components_trim by simp
  show ?thesis
    unfolding resolve_def if_err_eq_Inr case_result_eq_Inr n walk_components_iff not_less
    by auto
qed

text \<open>C7: \<open>resolve\<close> is a jail. A path it accepts is the export root followed by the pieces of the
  client's path, each an ordinary name (not empty, no dot, no dot dot, no slash, no null byte) of at
  most 255 bytes, at most 128 of them, whatever the client sent and whatever is on the disk; no
  directory on the way is a symbolic link at the time of the check.\<close>

theorem resolve_jail:
  assumes "root \<noteq> []" and "resolve os fs root p = Inr q"
  shows "components q = components root @ map Normal (client_components p) \<and>
    path_starts_with q root \<and>
    list_all (\<lambda>c. plain_component c \<and> CHR 0x00 \<notin> set c \<and> length c \<le> 255) (client_components p) \<and>
    length (client_components p) \<le> 128 \<and> length p \<le> 4096 \<and>
    list_all (\<lambda>k. \<not> symlink_at os fs (foldl path_push root (take k (client_components p))))
      [1..<length (client_components p)]"
proof -
  note r = assms(2) [unfolded resolve_eq_Inr]
  have plain: "\<forall>c\<in>set (client_components p). plain_component c"
    using r client_components_plain by blast
  have "components q = components root @ map Normal (client_components p)"
    using r plain assms(1) by (simp add: components_fold_push)
  moreover from this have "path_starts_with q root" by (simp add: path_starts_with_def)
  moreover have "list_all (\<lambda>c. plain_component c \<and> CHR 0x00 \<notin> set c \<and> length c \<le> 255) (client_components p)"
    using r plain client_components_chars [of _ p] by (auto simp: list_all_iff)
  moreover have "list_all (\<lambda>k. \<not> symlink_at os fs (foldl path_push root (take k (client_components p))))
      [1..<length (client_components p)]"
    using r by (auto simp: list_all_iff)
  ultimately show ?thesis
    using r by (simp add: MAX_PATH_DEPTH_def MAX_PATH_LEN_def)
qed

lemma resolve_null_os: "resolve null_os () ''/srv'' ''//a/./b'' = Inr ''/srv/a/b''"
  by (simp add: resolve_def MAX_PATH_LEN_def MAX_PATH_DEPTH_def trim_start_matches_def path_push_def
      is_absolute_def canonical_escape_def path_exists_def)

theorem resolve_jail_witness:
  "components ''/srv/a/b'' = components ''/srv'' @ map Normal (client_components ''//a/./b'') \<and>
   path_starts_with ''/srv/a/b'' ''/srv''"
  using resolve_jail [OF _ resolve_null_os] by simp



end
