(* ===== verification/Confine.thy ===== *)
theory Confine
  imports Sanitize
begin

text \<open>
  Confinement of the server's system calls. \<open>agree_confined root os os'\<close> says that two
  operating systems answer alike on every call that stays inside the jail: a path below the
  export root without a parent component, \<open>openat2\<close> of such a relative path under
  \<open>RESOLVE_BENEATH\<close>, an \<open>*at\<close> call on one ordinary name, permission bits up to 0777, and calls
  on descriptors already open. A definition that cannot tell two such systems apart makes no
  other call, whatever the client sends.
\<close>

definition is_normal :: "component \<Rightarrow> bool" where
  "is_normal c = (case c of Normal _ \<Rightarrow> True | _ \<Rightarrow> False)"

definition beneath :: "string \<Rightarrow> string \<Rightarrow> bool" where
  "beneath root p =
     (path_starts_with p root \<and> list_all is_normal (drop (length (components root)) (components p)))"

definition relative_plain :: "string \<Rightarrow> bool" where
  "relative_plain rel = (rel = ''.'' \<or> rel \<noteq> [] \<and> list_all is_normal (components rel))"

definition agree_confined :: "string \<Rightarrow> 'fs os \<Rightarrow> 'fs os \<Rightarrow> bool" where
  "agree_confined root os os' =
     ((\<forall>p fs. beneath root p \<longrightarrow>
         os_lstat os fs p = os_lstat os' fs p \<and> os_stat os fs p = os_stat os' fs p \<and>
         os_canonicalize os fs p = os_canonicalize os' fs p \<and>
         os_read_dir os fs p = os_read_dir os' fs p \<and> os_statvfs os fs p = os_statvfs os' fs p) \<and>
      (\<forall>p flags mode. beneath root p \<and> mode \<le> 0x1FF \<longrightarrow> os_open os p flags mode = os_open os' p flags mode) \<and>
      (\<forall>d rel how. relative_plain rel \<and> how_resolve how AND RESOLVE_BENEATH = RESOLVE_BENEATH \<and>
         how_mode how \<le> 0x1FF \<longrightarrow> os_openat2 os d rel how = os_openat2 os' d rel how) \<and>
      (\<forall>d name mode. plain_component name \<and> mode \<le> 0x1FF \<longrightarrow>
         os_mkdirat os d name mode = os_mkdirat os' d name mode \<and>
         os_fchmodat os d name mode = os_fchmodat os' d name mode) \<and>
      (\<forall>d name. plain_component name \<longrightarrow>
         os_unlinkat os d name = os_unlinkat os' d name \<and>
         (\<forall>target. os_symlinkat os target d name = os_symlinkat os' target d name) \<and>
         (\<forall>fs n. os_readlinkat os fs d name n = os_readlinkat os' fs d name n)) \<and>
      (\<forall>d name d' name'. plain_component name \<and> plain_component name' \<longrightarrow>
         os_linkat os d name d' name' = os_linkat os' d name d' name' \<and>
         os_renameat os d name d' name' = os_renameat os' d name d' name') \<and>
      (\<forall>d mode. mode \<le> 0x1FF \<longrightarrow>
         os_fchmod os d mode = os_fchmod os' d mode \<and> os_proc_chmod os d mode = os_proc_chmod os' d mode) \<and>
      os_close os = os_close os' \<and> os_fstat os = os_fstat os' \<and>
      os_proc_utimens os = os_proc_utimens os' \<and> os_set_len os = os_set_len os' \<and>
      os_sync_all os = os_sync_all os' \<and> os_sync_data os = os_sync_data os' \<and>
      os_seek os = os_seek os' \<and> os_read os = os_read os' \<and> os_write_all os = os_write_all os')"

lemma beneath_iff:
  "beneath root p \<longleftrightarrow> (\<exists>cs. components p = components root @ map Normal cs)"
proof
  assume b: "beneath root p"
  then obtain ds where ds: "components p = components root @ ds" "list_all is_normal ds"
    by (auto simp: beneath_def path_starts_with_def prefix_def)
  have "ds = map Normal (map (\<lambda>c. case c of Normal n \<Rightarrow> n | _ \<Rightarrow> []) ds)"
    using ds(2) by (induction ds) (auto simp: is_normal_def split: component.splits)
  with ds(1) show "\<exists>cs. components p = components root @ map Normal cs" by metis
qed (auto simp: beneath_def path_starts_with_def list_all_iff is_normal_def)

lemma beneath_root [simp]: "beneath root root"
  by (auto simp: beneath_iff intro: exI [of _ "[]"])

lemma beneath_fold_push:
  "root \<noteq> [] \<Longrightarrow> (\<forall>c\<in>set cs. plain_component c) \<Longrightarrow> beneath root (foldl path_push root cs)"
  by (auto simp: beneath_iff components_fold_push)

lemma resolve_beneath: "root \<noteq> [] \<Longrightarrow> resolve os fs root p = Inr q \<Longrightarrow> beneath root q"
  by (auto simp: resolve_eq_Inr intro!: beneath_fold_push client_components_plain)

lemma relative_plainI: "components rel = map Normal cs \<Longrightarrow> rel \<noteq> [] \<Longrightarrow> relative_plain rel"
  by (auto simp: relative_plain_def list_all_iff is_normal_def)

section \<open>The operations of sanitize.rs\<close>

lemma mode_mask: "(m :: u32) AND 0x1FF \<le> 0x1FF"
  by (rule word_and_le1)

lemma walk_components_agree:
  assumes "agree_confined root os os'" and "root \<noteq> []" and "\<forall>c\<in>set (ds @ cs). plain_component c"
  shows "walk_components os fs (foldl path_push root ds) cs =
         walk_components os' fs (foldl path_push root ds) cs"
  using assms(3)
proof (induction cs arbitrary: ds)
  case (Cons c cs)
  show ?case
  proof (cases cs)
    case (Cons d cs')
    have "beneath root (foldl path_push root (ds @ [c]))"
      using Cons.prems assms(2) by (intro beneath_fold_push) auto
    then have "os_lstat os fs (path_push (foldl path_push root ds) c) =
        os_lstat os' fs (path_push (foldl path_push root ds) c)"
      using assms(1) by (simp add: agree_confined_def)
    moreover have "walk_components os fs (foldl path_push root (ds @ [c])) cs =
        walk_components os' fs (foldl path_push root (ds @ [c])) cs"
      using Cons.prems by (intro Cons.IH) auto
    ultimately show ?thesis using Cons by (simp add: Let_def split: sum.split)
  qed simp
qed simp

lemma canonical_escape_agree:
  "agree_confined root os os' \<Longrightarrow> beneath root p \<Longrightarrow>
   canonical_escape os fs root p = canonical_escape os' fs root p"
  by (simp add: canonical_escape_def path_exists_def agree_confined_def)

lemma resolve_agree:
  assumes "agree_confined root os os'" and "root \<noteq> []"
  shows "resolve os fs root p = resolve os' fs root p"
proof (cases "norm_parts [] (split_char (CHR ''/'') (trim_start_matches (CHR ''/'') p))")
  case (Inr cs)
  then have cs: "\<forall>c\<in>set cs. plain_component c"
    unfolding norm_parts_iff client_components_trim by (auto intro: client_components_plain)
  have walk: "walk_components os fs root cs = walk_components os' fs root cs"
    using walk_components_agree [of root os os' "[]" cs] assms cs by simp
  have "beneath root j" if "walk_components os' fs root cs = Inr j" for j
    using that cs assms(2) by (auto simp: walk_components_iff intro: beneath_fold_push)
  then show ?thesis
    using Inr walk canonical_escape_agree [OF assms(1)]
    by (simp add: resolve_def split: sum.split)
qed (simp add: resolve_def)

text \<open>Opening a path that is beneath the root, or not under it at all (then it is refused).\<close>

lemma open_confined_agree:
  assumes ag: "agree_confined root os os'" and root: "root \<noteq> []" and mode: "mode \<le> 0x1FF"
    and p: "beneath root p \<or> \<not> path_starts_with p root"
  shows "open_confined os root p flags mode fs = open_confined os' root p flags mode fs"
proof (cases "beneath root p")
  case True
  then obtain cs where "components p = components root @ map Normal cs"
    by (auto simp: beneath_iff)
  with root obtain rel where rel: "path_strip_prefix p root = Some rel" "components rel = map Normal cs"
    by (rule strip_prefix_components)
  have rp: "relative_plain (if rel = [] then ''.'' else rel)"
    using rel(2) relative_plainI by (auto simp: relative_plain_def)
  have "unat mode < 2 ^ 32"
    using unsigned_less [of mode] by simp
  then have "unat (ucast mode :: u64) = unat mode"
    by (simp add: unsigned_ucast_eq take_bit_eq_mod)
  then have mode64: "(ucast mode :: u64) \<le> 0x1FF"
    using mode by (simp add: word_le_nat_alt)
  have flag: "(RESOLVE_BENEATH OR RESOLVE_NO_MAGICLINKS) AND RESOLVE_BENEATH = RESOLVE_BENEATH"
    by (simp add: flag_defs)
  have "openat2_beneath os root p flags mode = openat2_beneath os' root p flags mode"
    using ag rp mode64 flag unfolding openat2_beneath_def rel(1)
    by (auto simp: agree_confined_def Let_def fun_eq_iff split: prod.split sum.split)
  moreover have "open_plain os p flags mode = open_plain os' p flags mode"
    using ag True mode by (auto simp: open_plain_def agree_confined_def)
  ultimately show ?thesis by (simp add: open_confined_def split: prod.split sum.split)
next
  case False
  with p have "path_strip_prefix p root = None"
    by (simp add: path_strip_prefix_def)
  then show ?thesis
    by (simp add: open_confined_def openat2_beneath_def raw_os_error_def)
qed

lemma parent_beneath_or_outside:
  assumes "beneath root p" and "path_parent p = Some q"
  shows "beneath root q \<or> \<not> path_starts_with q root"
proof -
  from assms(1) obtain cs where cs: "components p = components root @ map Normal cs"
    by (auto simp: beneath_iff)
  from assms(2) obtain x where x: "components p = components q @ [x]"
    by (rule parent_components)
  show ?thesis
  proof (cases cs rule: rev_cases)
    case Nil
    then have "components root = components q @ [x]" using cs x by simp
    then show ?thesis by (auto simp: path_starts_with_def prefix_def)
  next
    case (snoc ds c)
    then have "components q = components root @ map Normal ds" using cs x by simp
    then show ?thesis by (auto simp: beneath_iff)
  qed
qed

lemma confined_parent_agree:
  assumes "agree_confined root os os'" and "root \<noteq> []" and "beneath root p"
  shows "confined_parent os root p = confined_parent os' root p"
  using parent_beneath_or_outside [OF assms(3)] open_confined_agree [OF assms(1,2)]
  by (auto simp: confined_parent_def fun_eq_iff split: option.split)

lemma confined_parent_name:
  assumes "confined_parent os root p fs = (Inr (d, name), fs')"
  shows "plain_component name"
proof -
  have "path_file_name p = Some name"
    using assms by (auto simp: confined_parent_def split: option.splits if_splits prod.splits sum.splits)
  then have "Normal name \<in> set (rev (components p))"
    by (auto simp: path_file_name_def split: list.splits component.splits)
  then show ?thesis by (auto intro: Normal_component_plain)
qed

lemma andthen_parent_agree:
  assumes "agree_confined root os os'" and "root \<noteq> []" and "beneath root p"
    and "\<And>d name. plain_component name \<Longrightarrow> k (d, name) = k' (d, name)"
  shows "andthen (confined_parent os root p) k = andthen (confined_parent os' root p) k'"
  unfolding confined_parent_agree [OF assms(1-3)]
  using assms(4) confined_parent_name
  by (fastforce simp: andthen_def fun_eq_iff split: prod.split sum.split)

lemma closing_agree: "agree_confined root os os' \<Longrightarrow> closing os d m = closing os' d m"
  by (simp add: closing_def agree_confined_def fun_eq_iff)

lemma mkdir_confined_agree:
  "agree_confined root os os' \<Longrightarrow> root \<noteq> [] \<Longrightarrow> beneath root p \<Longrightarrow>
   mkdir_confined os root p mode = mkdir_confined os' root p mode"
  unfolding mkdir_confined_def
  by (intro andthen_parent_agree) (auto simp: Let_def closing_agree agree_confined_def mode_mask)

lemma remove_confined_agree:
  "agree_confined root os os' \<Longrightarrow> root \<noteq> [] \<Longrightarrow> beneath root p \<Longrightarrow>
   remove_confined os root p is_dir = remove_confined os' root p is_dir"
  unfolding remove_confined_def
  by (intro andthen_parent_agree) (auto simp: closing_agree agree_confined_def)

lemma symlink_confined_agree:
  "agree_confined root os os' \<Longrightarrow> root \<noteq> [] \<Longrightarrow> beneath root p \<Longrightarrow>
   symlink_confined os root p target = symlink_confined os' root p target"
  unfolding symlink_confined_def
  by (intro andthen_parent_agree) (auto simp: closing_agree agree_confined_def cong: if_cong)

lemma readlink_confined_agree:
  "agree_confined root os os' \<Longrightarrow> root \<noteq> [] \<Longrightarrow> beneath root p \<Longrightarrow>
   readlink_confined os root p = readlink_confined os' root p"
  unfolding readlink_confined_def
  by (intro andthen_parent_agree) (auto simp: closing_agree agree_confined_def)

lemma link_confined_agree:
  assumes ag: "agree_confined root os os'" and "root \<noteq> []" and "beneath root p" "beneath root q"
  shows "link_confined os root p q = link_confined os' root p q"
  unfolding link_confined_def
proof (rule andthen_parent_agree [OF ag assms(2,3)], simp only: prod.case closing_agree [OF ag],
    rule arg_cong [of _ _ "closing os' _"], rule andthen_parent_agree [OF ag assms(2,4)])
  fix d name d' name' assume "plain_component name" "plain_component name'"
  then show "(case (d', name') of (ddir, dname) \<Rightarrow> closing os' ddir (os_linkat os d name ddir dname)) =
      (case (d', name') of (ddir, dname) \<Rightarrow> closing os' ddir (os_linkat os' d name ddir dname))"
    using ag by (simp add: agree_confined_def)
qed

lemma rename_confined_agree:
  assumes ag: "agree_confined root os os'" and "root \<noteq> []" and "beneath root p" "beneath root q"
  shows "rename_confined os root p q = rename_confined os' root p q"
  unfolding rename_confined_def
proof (rule andthen_parent_agree [OF ag assms(2,3)], simp only: prod.case closing_agree [OF ag],
    rule arg_cong [of _ _ "closing os' _"], rule andthen_parent_agree [OF ag assms(2,4)])
  fix d name d' name' assume "plain_component name" "plain_component name'"
  then show "(case (d', name') of (ddir, dname) \<Rightarrow> closing os' ddir (os_renameat os d name ddir dname)) =
      (case (d', name') of (ddir, dname) \<Rightarrow> closing os' ddir (os_renameat os' d name ddir dname))"
    using ag by (simp add: agree_confined_def)
qed

lemma sync_parent_dir_agree:
  assumes ag: "agree_confined root os os'" and "root \<noteq> []" and "beneath root p"
  shows "sync_parent_dir os root p = sync_parent_dir os' root p"
proof -
  have "fsync_dir_confined os root q fs = fsync_dir_confined os' root q fs"
    if "path_parent p = Some q" for q fs
    using parent_beneath_or_outside [OF assms(3) that] ag
    by (simp add: fsync_dir_confined_def andthen_def open_confined_agree [OF ag assms(2)]
        closing_agree [OF ag] agree_confined_def)
  then show ?thesis
    by (auto simp: sync_parent_dir_def fun_eq_iff split: option.split)
qed

text \<open>The export root itself is never the object of a namespace operation: its parent is outside.\<close>

lemma confined_parent_root:
  assumes "components p = components root"
  obtains e where "confined_parent os root p fs = (Inl e, fs)" and "io_kind e \<in> {PermissionDenied_k, InvalidInput_k}"
proof (cases "path_parent p")
  case None
  then show thesis
    by (intro that [of "KindError InvalidInput_k"]) (simp_all add: confined_parent_def io_kind_def)
next
  case (Some q)
  then obtain x where "components p = components q @ [x]" by (rule parent_components)
  then have "path_strip_prefix q root = None"
    using assms by (auto simp: path_strip_prefix_def path_starts_with_def prefix_def)
  then have "open_confined os root q flags mode fs = (Inl (KindError PermissionDenied_k), fs)" for flags mode
    by (simp add: open_confined_def openat2_beneath_def raw_os_error_def)
  then have "confined_parent os root p fs \<in>
      {(Inl (KindError InvalidInput_k), fs), (Inl (KindError PermissionDenied_k), fs)}"
    by (auto simp: confined_parent_def Some split: option.split)
  then show thesis by (auto simp: io_kind_def intro: that)
qed

text \<open>C23: The export root cannot be made, removed, replaced, linked or renamed through the protocol: a
  client path with no component (the root itself, however it is spelled) is refused by every
  namespace operation before any system call, and it is refused as the target of a link or a
  rename.\<close>

theorem root_protected:
  assumes "root \<noteq> []" and "resolve os fs root path = Inr p" and "client_components path = []"
  shows "\<exists>e. io_kind e \<in> {PermissionDenied_k, InvalidInput_k} \<and>
    mkdir_confined os root p mode fs = (Inl e, fs) \<and> remove_confined os root p is_dir fs = (Inl e, fs) \<and>
    symlink_confined os root p target fs = (Inl e, fs) \<and> link_confined os root p other fs = (Inl e, fs) \<and>
    rename_confined os root p other fs = (Inl e, fs) \<and>
    \<not> is_ok (fst (link_confined os root other p fs1)) \<and> \<not> is_ok (fst (rename_confined os root other p fs1))"
proof -
  have p: "components p = components root"
    using assms(2,3) unfolding resolve_eq_Inr by simp
  obtain e where e: "confined_parent os root p fs = (Inl e, fs)" "io_kind e \<in> {PermissionDenied_k, InvalidInput_k}"
    using p by (rule confined_parent_root)
  have target: "\<not> is_ok (fst (andthen (confined_parent os root other) (\<lambda>(d, n).
      closing os d (andthen (confined_parent os root p) (k d n))) fs1))" for k :: "fd \<Rightarrow> string \<Rightarrow> fd \<times> string \<Rightarrow> _"
  proof (cases "confined_parent os root other fs1")
    case (Pair r fs2)
    obtain e2 where "confined_parent os root p fs2 = (Inl e2, fs2)"
      using p by (rule confined_parent_root)
    with Pair show ?thesis by (cases r) (auto simp: andthen_def closing_def)
  qed
  from e target [of "\<lambda>d n (d', n'). closing os d' (os_linkat os d n d' n')"]
    target [of "\<lambda>d n (d', n'). closing os d' (os_renameat os d n d' n')"]
  show ?thesis
    by (intro exI [of _ e])
      (simp add: mkdir_confined_def remove_confined_def symlink_confined_def link_confined_def rename_confined_def)
qed

theorem root_protected_witness:
  "\<exists>e. io_kind e \<in> {PermissionDenied_k, InvalidInput_k} \<and> remove_confined null_os ''/srv'' ''/srv'' True () = (Inl e, ())"
proof -
  have "resolve null_os () ''/srv'' ''//./'' = Inr ''/srv''" and "client_components ''//./'' = []"
    by code_simp+
  from root_protected [OF _ this, of 0 True "[]" "[]"] show ?thesis by auto
qed

end
