(* ===== verification/Handles.thy ===== *)
theory Handles
  imports Os "HOL-Library.AList"
begin

text \<open>
  The per-session table of open handles (\<open>server/src/handles.rs\<close>) and the lock stripes of the
  write path (\<open>server/src/writelock.rs\<close>). The hash map is an association list with distinct keys;
  the mutex around it makes each operation one step. The random epoch of a table is the argument
  \<open>uuid\<close> (\<open>Uuid::new_v4\<close>), and the standard library's unspecified path hash is the argument \<open>ph\<close>.
\<close>

record open_handle =
  oh_path :: string
  oh_flags :: u32
  oh_file :: fd
  oh_ino_key :: u128

record handle_table =
  ht_counter :: u64
  ht_max_handles :: u32
  ht_inner :: "(u64 \<times> open_handle) list"

definition with_limit :: "u128 \<Rightarrow> u32 \<Rightarrow> handle_table" where
  "with_limit uuid max_handles =
     (let epoch = (ucast uuid :: u64) AND 0xFFFFFFFF
      in \<lparr>ht_counter = push_bit 32 epoch OR 1, ht_max_handles = max_handles, ht_inner = []\<rparr>)"

definition path_hash_key :: "(component list \<Rightarrow> u64) \<Rightarrow> string \<Rightarrow> u128" where
  "path_hash_key ph path = push_bit 127 1 OR ucast (ph (components path))"

definition ino_key_of ::
  "'fs os \<Rightarrow> (component list \<Rightarrow> u64) \<Rightarrow> 'fs \<Rightarrow> fd \<Rightarrow> string \<Rightarrow> u128" where
  "ino_key_of os ph fs file path =
     (case os_fstat os fs file of
        Inr m \<Rightarrow> push_bit 64 (ucast (md_dev m)) OR ucast (md_ino m)
      | Inl _ \<Rightarrow> path_hash_key ph path)"

text \<open>The critical section of \<open>try_insert\<close>: the capacity check, the next identifier, the insertion.\<close>

definition insert_handle :: "open_handle \<Rightarrow> handle_table \<Rightarrow> (anyhow + u64) \<times> handle_table" where
  "insert_handle h t =
     (if length (ht_inner t) \<ge> unat (ht_max_handles t)
      then (Inl (''too many open handles (limit: '' @ show_nat (unat (ht_max_handles t)) @ '')''), t)
      else let hid = ht_counter t
           in (Inr hid, t\<lparr>ht_counter := hid + 1, ht_inner := AList.update hid h (ht_inner t)\<rparr>))"

text \<open>\<open>try_insert\<close> takes the file: when the table is full the file is dropped, that is closed.\<close>

definition try_insert ::
  "'fs os \<Rightarrow> (component list \<Rightarrow> u64) \<Rightarrow> string \<Rightarrow> u32 \<Rightarrow> fd \<Rightarrow> handle_table \<Rightarrow> 'fs \<Rightarrow>
   (anyhow + u64) \<times> handle_table \<times> 'fs" where
  "try_insert os ph path flags file t fs =
     (case insert_handle \<lparr>oh_path = path, oh_flags = flags, oh_file = file,
                          oh_ino_key = ino_key_of os ph fs file path\<rparr> t of
        (Inl e, t1) \<Rightarrow> (Inl e, t1, os_close os file fs)
      | (Inr hid, t1) \<Rightarrow> (Inr hid, t1, fs))"

definition remove_handle :: "u64 \<Rightarrow> handle_table \<Rightarrow> open_handle option \<times> handle_table" where
  "remove_handle hid t =
     (map_of (ht_inner t) hid, t\<lparr>ht_inner := AList.delete hid (ht_inner t)\<rparr>)"

definition get_file :: "handle_table \<Rightarrow> u64 \<Rightarrow> fd option" where
  "get_file t hid = map_option oh_file (map_of (ht_inner t) hid)"

definition get_write_ctx :: "handle_table \<Rightarrow> u64 \<Rightarrow> (fd \<times> u32 \<times> u128) option" where
  "get_write_ctx t hid =
     map_option (\<lambda>h. (oh_file h, oh_flags h, oh_ino_key h)) (map_of (ht_inner t) hid)"

definition get_path :: "handle_table \<Rightarrow> u64 \<Rightarrow> string option" where
  "get_path t hid = map_option oh_path (map_of (ht_inner t) hid)"

definition ht_len :: "handle_table \<Rightarrow> nat" where
  "ht_len t = length (ht_inner t)"

definition ht_is_empty :: "handle_table \<Rightarrow> bool" where
  "ht_is_empty t = (ht_len t = 0)"

section \<open>The interface of a bounded table of identifiers\<close>

text \<open>What the request handlers rely on: an insertion fails exactly when the table is full and
  otherwise gives an identifier that was not in use; a removal returns what was there. \<open>fresh\<close> says
  that the identifiers have not run out.\<close>

locale bounded_table =
  fixes look :: "'t \<Rightarrow> 'k \<Rightarrow> 'v option"
    and alloc :: "'v \<Rightarrow> 't \<Rightarrow> ('e + 'k) \<times> 't"
    and free :: "'k \<Rightarrow> 't \<Rightarrow> 'v option \<times> 't"
    and count :: "'t \<Rightarrow> nat"
    and limit :: "'t \<Rightarrow> nat"
    and ok :: "'t \<Rightarrow> bool"
    and fresh :: "'t \<Rightarrow> bool"
  assumes alloc_full: "limit t \<le> count t \<Longrightarrow> \<exists>e. alloc v t = (Inl e, t)"
    and alloc_room: "ok t \<Longrightarrow> fresh t \<Longrightarrow> count t < limit t \<Longrightarrow>
      \<exists>k t'. alloc v t = (Inr k, t') \<and> look t k = None \<and> look t' = (look t)(k \<mapsto> v) \<and>
        count t' = Suc (count t) \<and> limit t' = limit t \<and> ok t'"
    and free_result: "ok t \<Longrightarrow> fst (free k t) = look t k"
    and free_look: "ok t \<Longrightarrow> look (snd (free k t)) = (look t)(k := None)"
    and free_count: "ok t \<Longrightarrow> count (snd (free k t)) + (if look t k = None then 0 else 1) = count t"
    and free_ok: "ok t \<Longrightarrow> ok (snd (free k t)) \<and> limit (snd (free k t)) = limit t"
begin

lemma alloc_Inr:
  assumes "ok t" and "fresh t" and "alloc v t = (Inr k, t')"
  shows "count t < limit t" and "look t k = None" and "look t' = (look t)(k \<mapsto> v)"
    and "count t' = Suc (count t)" and "limit t' = limit t" and "ok t'"
proof -
  show room: "count t < limit t"
    using alloc_full [of t v] assms(3) by (cases "limit t \<le> count t") auto
  from alloc_room [OF assms(1,2) room, of v] assms(3)
  show "look t k = None" and "look t' = (look t)(k \<mapsto> v)"
    and "count t' = Suc (count t)" and "limit t' = limit t" and "ok t'" by auto
qed

lemma alloc_Inl:
  assumes "ok t" and "fresh t" and "alloc v t = (Inl e, t')"
  shows "limit t \<le> count t" and "t' = t"
proof -
  show full: "limit t \<le> count t"
    using alloc_room [OF assms(1,2), of v] assms(3) by (cases "count t < limit t") auto
  then show "t' = t" using alloc_full [OF full, of v] assms(3) by auto
qed

lemma alloc_bounded:
  assumes "ok t" and "fresh t" and "count t \<le> limit t"
  shows "count (snd (alloc v t)) \<le> limit (snd (alloc v t))"
proof (cases "count t < limit t")
  case True
  with alloc_room [OF assms(1,2) True, of v] show ?thesis by auto
next
  case False
  with alloc_full [of t v] assms(3) show ?thesis by auto
qed

text \<open>An open identifier keeps its entry when another is allocated, and is not handed out again.\<close>

lemma alloc_keeps:
  assumes "ok t" and "fresh t" and "alloc v t = (Inr k, t')" and "look t j = Some w"
  shows "j \<noteq> k" and "look t' j = Some w"
  using alloc_Inr [OF assms(1-3)] assms(4) by auto

lemma alloc_free:
  assumes "ok t" and "fresh t" and "alloc v t = (Inr k, t')"
  shows "fst (free k t') = Some v" and "look (snd (free k t')) = look t"
    and "count (snd (free k t')) = count t"
proof -
  note t' = alloc_Inr [OF assms]
  show "fst (free k t') = Some v" and "look (snd (free k t')) = look t"
    using free_result [OF t'(6)] free_look [OF t'(6)] t' by auto
  show "count (snd (free k t')) = count t"
    using free_count [OF t'(6), of k] t' by simp
qed

end

section \<open>The handle table provides it\<close>

definition ht_ok :: "handle_table \<Rightarrow> bool" where
  "ht_ok t = (distinct (map fst (ht_inner t)) \<and> list_all (\<lambda>(k, _). k < ht_counter t) (ht_inner t))"

definition ht_fresh :: "handle_table \<Rightarrow> bool" where
  "ht_fresh t = (unat (ht_counter t) < 2 ^ 64 - 1)"

lemma length_update_fresh: "k \<notin> set (map fst xs) \<Longrightarrow> length (AList.update k v xs) = Suc (length xs)"
  by (induction xs) auto

lemma set_keys_update: "set (map fst (AList.update k v xs)) = insert k (set (map fst xs))"
  using AList.dom_update [of k v xs] by (auto simp: dom_map_of_conv_image_fst image_image)

lemma length_delete_distinct:
  "distinct (map fst xs) \<Longrightarrow>
   length (AList.delete k xs) + (if map_of xs k = None then 0 else 1) = length xs"
proof (induction xs)
  case (Cons x xs)
  have "AList.delete (fst x) xs = xs" if "fst x \<notin> fst ` set xs"
    using that by (simp add: delete_id)
  with Cons show ?case by (cases x) (auto split: if_splits)
qed simp

lemma ht_ok_fresh_key: "ht_ok t \<Longrightarrow> ht_counter t \<notin> set (map fst (ht_inner t))"
  by (auto simp: ht_ok_def list_all_iff)

lemma counter_next: "ht_fresh t \<Longrightarrow> ht_counter t < ht_counter t + 1"
  unfolding ht_fresh_def word_less_nat_alt
  by (subst unat_add_no_overflow) auto

lemma ht_ok_insert:
  assumes "ht_ok t" and "ht_fresh t"
  shows "ht_ok (t\<lparr>ht_counter := ht_counter t + 1, ht_inner := AList.update (ht_counter t) h (ht_inner t)\<rparr>)"
proof -
  have "k < ht_counter t + 1" if "k \<in> set (map fst (AList.update (ht_counter t) h (ht_inner t)))" for k
    using that assms(1) counter_next [OF assms(2)] unfolding set_keys_update
    by (auto simp: ht_ok_def list_all_iff)
  then show ?thesis
    using assms(1) by (force simp: ht_ok_def list_all_iff distinct_update)
qed

interpretation ht: bounded_table "\<lambda>t. map_of (ht_inner t)" insert_handle remove_handle ht_len
  "\<lambda>t. unat (ht_max_handles t)" ht_ok ht_fresh
proof (unfold_locales, goal_cases)
  case (2 t v)
  then show ?case
    using ht_ok_insert [of t v] ht_ok_fresh_key [of t]
    by (auto simp: insert_handle_def ht_len_def Let_def length_update_fresh update_conv'
        map_of_eq_None_iff)
next
  case (6 t k)
  then show ?case
    by (auto simp: remove_handle_def ht_ok_def distinct_map_filter list_all_iff AList.delete_eq)
qed (auto simp: insert_handle_def remove_handle_def ht_len_def ht_ok_def delete_conv'
      length_delete_distinct)

section \<open>Identifiers of a session\<close>

text \<open>What the requests of a session do to its table, in any order.\<close>

datatype table_op = Insert open_handle | Remove u64

fun run_ops :: "table_op list \<Rightarrow> handle_table \<Rightarrow> u64 list \<times> handle_table" where
  "run_ops [] t = ([], t)"
| "run_ops (Insert h # ops) t =
     (case insert_handle h t of
        (Inl _, t1) \<Rightarrow> run_ops ops t1
      | (Inr hid, t1) \<Rightarrow> (case run_ops ops t1 of (ids, t2) \<Rightarrow> (hid # ids, t2)))"
| "run_ops (Remove k # ops) t = run_ops ops (snd (remove_handle k t))"

definition epoch_of :: "u64 \<Rightarrow> u64" where
  "epoch_of hid = drop_bit 32 hid"

text \<open>The identifiers issued are consecutive values of the counter, whatever else happens.\<close>

lemma run_ops_counter:
  "run_ops ops t = (ids, t') \<Longrightarrow>
   ids = map (\<lambda>i. ht_counter t + word_of_nat i) [0..<length ids] \<and>
   ht_counter t' = ht_counter t + word_of_nat (length ids) \<and>
   fst ` set (ht_inner t') \<subseteq> fst ` set (ht_inner t) \<union> set ids"
proof (induction ops t arbitrary: ids t' rule: run_ops.induct)
  case (2 h ops t)
  show ?case
  proof (cases "length (ht_inner t) \<ge> unat (ht_max_handles t)")
    case True
    then have "run_ops ops t = (ids, t')" using 2(3) by (simp add: insert_handle_def)
    with 2(1) True show ?thesis by (simp add: insert_handle_def)
  next
    case False
    define t1 where "t1 = t\<lparr>ht_counter := ht_counter t + 1,
        ht_inner := AList.update (ht_counter t) h (ht_inner t)\<rparr>"
    have ins: "insert_handle h t = (Inr (ht_counter t), t1)"
      using False by (simp add: insert_handle_def t1_def Let_def)
    obtain js where js: "run_ops ops t1 = (js, t')" "ids = ht_counter t # js"
      using 2(3) by (auto simp: ins split: prod.splits)
    note ih = 2(2) [OF ins [symmetric] refl js(1)]
    have "js = map (\<lambda>i. ht_counter t + word_of_nat (Suc i)) [0..<length js]"
      using ih by (simp add: t1_def add.assoc add.commute [of 1])
    moreover have "map (\<lambda>i. ht_counter t + word_of_nat i) [0..<Suc (length js)] =
        ht_counter t # map (\<lambda>i. ht_counter t + word_of_nat (Suc i)) [0..<length js]"
      by (simp add: upt_conv_Cons map_Suc_upt [symmetric] del: upt_Suc)
    moreover have "fst ` set (ht_inner t1) = insert (ht_counter t) (fst ` set (ht_inner t))"
      using set_keys_update [of "ht_counter t" h "ht_inner t"] by (simp add: t1_def)
    ultimately show ?thesis
      using ih js(2) by (auto simp: t1_def add.assoc)
  qed
next
  case (3 k ops t)
  then show ?case
    using dom_delete_subset [of k "ht_inner t"] by (force simp: remove_handle_def)
qed simp

text \<open>The first identifier carries the epoch in its high half and 1 in the low half.\<close>

definition session_epoch :: "u128 \<Rightarrow> u64" where
  "session_epoch uuid = (ucast uuid :: u64) AND 0xFFFFFFFF"

lemma session_epoch_bound: "unat (session_epoch uuid) < 2 ^ 32"
proof -
  have "session_epoch uuid \<le> 0xFFFFFFFF" unfolding session_epoch_def by (rule word_and_le1)
  then show ?thesis by (simp add: word_le_nat_alt)
qed

lemma with_limit_counter:
  "unat (ht_counter (with_limit uuid m)) = unat (session_epoch uuid) * 2 ^ 32 + 1"
proof -
  define e where "e = session_epoch uuid"
  have e: "unat e < 2 ^ 32" unfolding e_def by (rule session_epoch_bound)
  have p: "unat (push_bit 32 e) = unat e * 2 ^ 32"
    using e by (simp add: push_bit_eq_mult unat_word_ariths)
  have "push_bit 32 e OR 1 = push_bit 32 e + 1"
    by (simp add: or_one_eq)
  then have "unat (push_bit 32 e OR 1) = unat e * 2 ^ 32 + 1"
    using p e by (simp add: unat_add_no_overflow)
  then show ?thesis
    by (simp add: with_limit_def Let_def e_def session_epoch_def)
qed

lemma issued_unat:
  assumes "i < 2 ^ 32 - 1"
  shows "unat (ht_counter (with_limit uuid m) + word_of_nat i) =
         unat (session_epoch uuid) * 2 ^ 32 + 1 + i"
proof -
  have i: "unat (word_of_nat i :: u64) = i"
    using assms by (intro unat_of_nat_less) simp
  have "unat (session_epoch uuid) * 2 ^ 32 + 1 + i < 2 ^ 64"
  proof -
    have "unat (session_epoch uuid) * 2 ^ 32 \<le> (2 ^ 32 - 1) * 2 ^ 32"
      using session_epoch_bound [of uuid] by (intro mult_right_mono) auto
    with assms show ?thesis by simp
  qed
  then show ?thesis
    by (subst unat_add_no_overflow) (simp_all add: with_limit_counter i)
qed

lemma issued_epoch:
  assumes "i < 2 ^ 32 - 1"
  shows "epoch_of (ht_counter (with_limit uuid m) + word_of_nat i) = session_epoch uuid"
proof -
  have "unat (epoch_of (ht_counter (with_limit uuid m) + word_of_nat i)) =
      (unat (session_epoch uuid) * 2 ^ 32 + 1 + i) div 2 ^ 32"
    unfolding epoch_of_def unat_drop_bit_eq issued_unat [OF assms] by (simp add: drop_bit_eq_div)
  also have "\<dots> = unat (session_epoch uuid)"
    using assms by (intro div_nat_eqI) auto
  finally show ?thesis by (simp add: word_unat_eq_iff)
qed

lemma issued_in_epoch:
  assumes "run_ops ops (with_limit uuid m) = (ids, t)" and "length ids < 2 ^ 32 - 1"
  shows "\<forall>k\<in>set ids. epoch_of k = session_epoch uuid"
proof -
  have "ids = map (\<lambda>i. ht_counter (with_limit uuid m) + word_of_nat i) [0..<length ids]"
    using run_ops_counter [OF assms(1)] by simp
  then have "k \<in> (\<lambda>i. ht_counter (with_limit uuid m) + word_of_nat i) ` {0..<length ids}" if "k \<in> set ids" for k
    using that by (metis list.set_map set_upt)
  then show ?thesis using issued_epoch assms(2) by fastforce
qed

section \<open>Properties\<close>

lemma run_ops_bounded:
  assumes "run_ops ops t = (ids, t')" and "ht_ok t" and "ht_len t \<le> unat (ht_max_handles t)"
    and "unat (ht_counter t) + length ids < 2 ^ 64"
  shows "ht_ok t' \<and> ht_len t' \<le> unat (ht_max_handles t) \<and> ht_max_handles t' = ht_max_handles t"
  using assms
proof (induction ops t arbitrary: ids t' rule: run_ops.induct)
  case (2 h ops t)
  show ?case
  proof (cases "insert_handle h t")
    case (Pair r t1)
    show ?thesis
    proof (cases r)
      case (Inl e)
      then have "t1 = t" using Pair by (auto simp: insert_handle_def Let_def split: if_splits)
      with 2(1) [OF Pair [symmetric] Inl] 2(3-) Pair Inl show ?thesis by simp
    next
      case (Inr k)
      obtain js where js: "run_ops ops t1 = (js, t')" "ids = k # js"
        using 2(3) Pair Inr by (auto split: prod.splits)
      have fresh: "ht_fresh t" using 2(6) js(2) by (simp add: ht_fresh_def)
      have ins: "insert_handle h t = (Inr k, t1)" using Pair Inr by simp
      note t1 = ht.alloc_Inr [OF 2(4) fresh ins]
      have "unat (ht_counter t1) = Suc (unat (ht_counter t))"
        using ins fresh by (auto simp: insert_handle_def Let_def ht_fresh_def unat_add_no_overflow split: if_splits)
      then have "unat (ht_counter t1) + length js < 2 ^ 64" using 2(6) js(2) by simp
      moreover have m: "ht_max_handles t1 = ht_max_handles t"
        using ins by (auto simp: insert_handle_def Let_def split: if_splits)
      ultimately show ?thesis
        using 2(2) [OF Pair [symmetric] Inr js(1) t1(6)] t1 m by simp
    qed
  qed
next
  case (3 k ops t)
  have "ht_len (snd (remove_handle k t)) \<le> ht_len t"
    using ht.free_count [OF 3(3), of k] by simp
  with 3(1) [of ids t'] 3(2-) ht.free_ok [OF 3(3), of k] show ?case
    by (simp add: remove_handle_def)
qed simp






text \<open>The limit of that separation. The comment on the counter says that the low half never
  carries into the epoch, because the limit on simultaneous handles is far below \<open>2 ^ 32\<close>; but the
  counter counts insertions, and the identifier after \<open>2 ^ 32 - 1\<close> of them is one of the next epoch.\<close>

lemma epoch_carry:
  "ht_counter (with_limit uuid m) + word_of_nat (2 ^ 32 - 1) = push_bit 32 (session_epoch uuid + 1)"
proof -
  have "push_bit 32 (session_epoch uuid) OR 1 = push_bit 32 (session_epoch uuid) + 1"
    by (simp add: or_one_eq)
  then show ?thesis
    by (simp add: with_limit_def Let_def session_epoch_def push_bit_eq_mult algebra_simps)
qed

end
