(* ===== verification/Writelock.thy ===== *)
theory Writelock
  imports Handles
begin

text \<open>
  The lock stripe of a file (\<open>server/src/writelock.rs\<close>): an index into a fixed array of mutexes,
  computed from the inode key that a handle carries.
\<close>

definition STRIPES :: nat where "STRIPES = 1024"

definition stripe_for :: "u128 \<Rightarrow> nat" where
  "stripe_for key =
     (let lo = (ucast key :: u64) * 0x9E3779B97F4A7C15;
          hi = (ucast (drop_bit 64 key) :: u64) * 0xD1B54A32D192ED03;
          mixed = lo XOR word_rotl 32 hi
      in unat mixed mod STRIPES)"

text \<open>The key of a file with a device and an inode number.\<close>

definition dev_ino_key :: "u64 \<Rightarrow> u64 \<Rightarrow> u128" where
  "dev_ino_key dev ino = push_bit 64 (ucast dev) OR ucast ino"

lemma ucast_dev_ino_key: "(ucast (dev_ino_key dev ino) :: u64) = ino"
  by (rule bit_eqI) (auto simp: dev_ino_key_def bit_ucast_iff bit_or_iff bit_push_bit_iff
      dest: bit_imp_le_length)

lemma drop_dev_ino_key: "(ucast (drop_bit 64 (dev_ino_key dev ino)) :: u64) = dev"
  by (rule bit_eqI) (auto simp: dev_ino_key_def bit_ucast_iff bit_or_iff bit_push_bit_iff
      bit_drop_bit_eq dest: bit_imp_le_length)

lemma ino_key_of_fstat:
  "os_fstat os fs file = Inr m \<Longrightarrow> ino_key_of os ph fs file path = dev_ino_key (md_dev m) (md_ino m)"
  by (simp add: ino_key_of_def dev_ino_key_def)

text \<open>The multiplier is odd, so it permutes the residues modulo the number of stripes: its inverse
  is 829.\<close>

lemma multiplier_injective:
  fixes a b :: nat
  shows "a * 0x9E3779B97F4A7C15 mod 1024 = b * 0x9E3779B97F4A7C15 mod 1024 \<longleftrightarrow> a mod 1024 = b mod 1024"
proof
  have inv: "x * 0x9E3779B97F4A7C15 mod 1024 * 829 mod 1024 = x mod 1024" for x :: nat
  proof -
    have "x * 0x9E3779B97F4A7C15 mod 1024 * 829 mod 1024 = x * (0x9E3779B97F4A7C15 * 829) mod 1024"
      by (simp only: mod_mult_left_eq mult.assoc)
    also have "\<dots> = x * (0x9E3779B97F4A7C15 * 829 mod 1024) mod 1024"
      by (simp only: mod_mult_right_eq)
    also have "\<dots> = x mod 1024" by simp
    finally show ?thesis .
  qed
  assume "a * 0x9E3779B97F4A7C15 mod 1024 = b * 0x9E3779B97F4A7C15 mod 1024"
  then show "a mod 1024 = b mod 1024" using inv [of a] inv [of b] by simp
next
  assume "a mod 1024 = b mod 1024"
  then show "a * 0x9E3779B97F4A7C15 mod 1024 = b * 0x9E3779B97F4A7C15 mod 1024"
    by (intro mod_mult_cong) simp_all
qed

lemma stripe_for_dev_ino:
  "stripe_for (dev_ino_key dev ino) =
   unat (take_bit 10 (ino * 0x9E3779B97F4A7C15) XOR take_bit 10 (word_rotl 32 (dev * 0xD1B54A32D192ED03)))"
proof -
  have "unat w mod STRIPES = unat (take_bit 10 w)" for w :: u64
    by (simp add: STRIPES_def take_bit_eq_mod unat_mod_distrib)
  then show ?thesis
    by (simp only: stripe_for_def Let_def ucast_dev_ino_key drop_dev_ino_key take_bit_xor)
qed

lemma take_bit_mult_eq:
  "take_bit 10 (x * 0x9E3779B97F4A7C15 :: u64) = take_bit 10 (y * 0x9E3779B97F4A7C15) \<longleftrightarrow>
   unat x mod 1024 = unat y mod 1024"
proof -
  have tb: "unat (take_bit 10 (z * 0x9E3779B97F4A7C15 :: u64)) = unat z * 0x9E3779B97F4A7C15 mod 1024"
    for z :: u64
    unfolding unsigned_take_bit_eq take_bit_eq_mod unat_word_ariths
    by (simp add: mod_mod_cancel)
  show ?thesis
    unfolding word_unat_eq_iff tb by (rule multiplier_injective)
qed

lemma stripe_for_same_device:
  "stripe_for (dev_ino_key dev i) = stripe_for (dev_ino_key dev j) \<longleftrightarrow> unat i mod 1024 = unat j mod 1024"
proof -
  have "a XOR c = b XOR c \<longleftrightarrow> a = b" for a b c :: u64
  proof
    assume "a XOR c = b XOR c"
    then have "(a XOR c) XOR c = (b XOR c) XOR c" by simp
    then show "a = b" by (simp add: xor.assoc)
  qed simp
  then show ?thesis
    by (simp only: stripe_for_dev_ino word_unat_eq_iff [symmetric] take_bit_mult_eq)
qed

lemma stripe_for_bound: "stripe_for key < STRIPES"
  by (simp add: stripe_for_def STRIPES_def Let_def)


section \<open>Properties\<close>

text \<open>C36: The stripe of a file. Every key has a stripe inside the array; a handle on an open file
  locks the stripe of the device and inode behind it, whatever path it was opened by; two files of
  one device share a stripe exactly if their inode numbers agree modulo the number of stripes, so
  the multiplier spreads any 1024 consecutive inodes over all stripes.\<close>

theorem stripe_spread:
  "stripe_for key < STRIPES \<and>
   (case os_fstat os fs file of
      Inr md \<Rightarrow> ino_key_of os ph fs file path = dev_ino_key (md_dev md) (md_ino md)
    | Inl _ \<Rightarrow> ino_key_of os ph fs file path = path_hash_key ph path) \<and>
   (stripe_for (dev_ino_key dev i) = stripe_for (dev_ino_key dev j) \<longleftrightarrow>
      unat i mod STRIPES = unat j mod STRIPES)"
  using stripe_for_bound [of key] stripe_for_same_device [of dev i j]
  by (simp add: ino_key_of_def dev_ino_key_def STRIPES_def split: sum.split)

end
