(* ===== verification/Rust_Utf8.thy ===== *)
theory Rust_Utf8
  imports Prelude
begin

text \<open>
  UTF-8 in the standard library: \<open>str::from_utf8\<close> (and \<open>OsStr::to_str\<close>) accept a byte string
  exactly when it is well formed, \<open>to_string_lossy\<close> replaces every maximal ill-formed piece by
  U+FFFD.
\<close>

definition cont_byte :: "nat \<Rightarrow> bool" where
  "cont_byte b = (0x80 \<le> b \<and> b < 0xC0)"

text \<open>The bytes allowed after a first byte of a three or four byte sequence.\<close>

definition second_ok3 :: "nat \<Rightarrow> nat \<Rightarrow> bool" where
  "second_ok3 a b =
     (if a = 0xE0 then 0xA0 \<le> b \<and> b < 0xC0 else if a = 0xED then 0x80 \<le> b \<and> b < 0xA0 else cont_byte b)"

definition second_ok4 :: "nat \<Rightarrow> nat \<Rightarrow> bool" where
  "second_ok4 a b =
     (if a = 0xF0 then 0x90 \<le> b \<and> b < 0xC0 else if a = 0xF4 then 0x80 \<le> b \<and> b < 0x90 else cont_byte b)"

text \<open>The byte at a position, 0 past the end, as the library's scanner reads it.\<close>

definition byte_at :: "string \<Rightarrow> nat \<Rightarrow> nat" where
  "byte_at s i = (if i < length s then of_char (s ! i) else 0)"

text \<open>The next piece: whether it is a well-formed character, and its length in bytes.\<close>

definition utf8_step :: "string \<Rightarrow> bool \<times> nat" where
  "utf8_step s =
     (let a = byte_at s 0; b = byte_at s 1; c = byte_at s 2; d = byte_at s 3
      in if a < 0x80 then (True, 1)
         else if 0xC2 \<le> a \<and> a < 0xE0 then (if cont_byte b then (True, 2) else (False, 1))
         else if 0xE0 \<le> a \<and> a < 0xF0 then
           (if \<not> second_ok3 a b then (False, 1) else if cont_byte c then (True, 3) else (False, 2))
         else if 0xF0 \<le> a \<and> a < 0xF5 then
           (if \<not> second_ok4 a b then (False, 1) else if \<not> cont_byte c then (False, 2)
            else if cont_byte d then (True, 4) else (False, 3))
         else (False, 1))"

lemma utf8_step_pos [simp]: "0 < snd (utf8_step s)"
  by (simp add: utf8_step_def Let_def)

lemma utf8_step_drop: "(ok, n) = utf8_step s \<Longrightarrow> s \<noteq> [] \<Longrightarrow> length (drop n s) < length s"
  using utf8_step_pos [of s] by (metis diff_less length_drop length_greater_0_conv snd_conv)

function utf8_valid :: "string \<Rightarrow> bool" where
  "utf8_valid s =
     (if s = [] then True
      else case utf8_step s of (ok, n) \<Rightarrow> ok \<and> utf8_valid (drop n s))"
  by pat_completeness auto
termination
  by (relation "measure length") (auto dest: utf8_step_drop simp del: length_drop)

declare utf8_valid.simps [simp del]

definition replacement :: string where
  "replacement = [CHR 0xEF, CHR 0xBF, CHR 0xBD]"

function to_string_lossy :: "string \<Rightarrow> string" where
  "to_string_lossy s =
     (if s = [] then []
      else case utf8_step s of
             (ok, n) \<Rightarrow> (if ok then take n s else replacement) @ to_string_lossy (drop n s))"
  by pat_completeness auto
termination
  by (relation "measure length") (auto dest: utf8_step_drop simp del: length_drop)

declare to_string_lossy.simps [simp del]

definition to_str :: "string \<Rightarrow> string option" where
  "to_str s = (if utf8_valid s then Some s else None)"

lemma to_string_lossy_valid: "utf8_valid s \<Longrightarrow> to_string_lossy s = s"
proof (induction s rule: utf8_valid.induct)
  case (1 s)
  show ?case
  proof (cases "s = []")
    case False
    obtain ok n where st: "utf8_step s = (ok, n)" by fastforce
    have "ok" "utf8_valid (drop n s)"
      using 1(2) False st by (simp_all add: utf8_valid.simps [of s])
    with 1(1) [OF False st [symmetric]] False st show ?thesis
      by (simp add: to_string_lossy.simps [of s])
  qed (simp add: to_string_lossy.simps)
qed

text \<open>ASCII text is well formed.\<close>

lemma utf8_valid_Nil [simp]: "utf8_valid []"
  by (simp add: utf8_valid.simps)

lemma utf8_valid_ascii:
  "(\<forall>c\<in>set s. of_char c < (0x80 :: nat)) \<Longrightarrow> utf8_valid s"
proof (induction s)
  case (Cons c s)
  then have "utf8_step (c # s) = (True, 1)"
    by (simp add: utf8_step_def byte_at_def)
  with Cons show ?case by (simp add: utf8_valid.simps [of "c # s"])
qed simp

end
