(* ===== verification/Session.thy ===== *)
theory Session
  imports Confine Writelock Rust_Utf8
begin

text \<open>
  What every request handler of the server shares: the session (\<open>server/src/session.rs\<close>), the
  environment of a stream, and sending. The state \<open>srv\<close> is the file system, both halves of the
  QUIC stream and the session; \<open>env\<close> holds the code outside the repository that a handler
  calls on the streams (\<open>write_all\<close>, \<open>finish\<close>, \<open>read_exact\<close> of quinn), the codec and the
  standard library's path hasher. A handler runs to its end without interleaving here; the
  interleaving of write requests is the subject of the theory \<open>Write_Serial\<close>. Arithmetic on
  machine integers wraps, as in a release build.
\<close>

record ClientIdentity =
  ci_subject :: string

definition from_mtls_fingerprint :: "string \<Rightarrow> ClientIdentity" where
  "from_mtls_fingerprint fingerprint = \<lparr>ci_subject = fingerprint\<rparr>"

text \<open>\<open>ClientSession\<close>, without the connection object and the time it was made at.\<close>

record session =
  ss_id :: u128
  ss_identity :: ClientIdentity
  ss_handles :: handle_table
  ss_rx_bytes :: u64
  ss_tx_bytes :: u64
  ss_features :: "string list"
  ss_sync_on_close :: bool
  ss_sync_metadata :: bool

text \<open>\<open>ClientSession::new\<close>; the two identifiers are the results of \<open>Uuid::new_v4\<close>.\<close>

definition session_new ::
  "u128 \<Rightarrow> u128 \<Rightarrow> ClientIdentity \<Rightarrow> string list \<Rightarrow> u32 \<Rightarrow> bool \<Rightarrow> bool \<Rightarrow> session" where
  "session_new uuid epoch_uuid identity features max_handles sync_on_close sync_metadata =
     \<lparr>ss_id = uuid, ss_identity = identity, ss_handles = with_limit epoch_uuid max_handles,
      ss_rx_bytes = 0, ss_tx_bytes = 0, ss_features = features,
      ss_sync_on_close = sync_on_close, ss_sync_metadata = sync_metadata\<rparr>"

record ('w, 'r) env =
  e_codec :: server_codec
  e_write_all :: "bytes \<Rightarrow> 'w \<Rightarrow> (io_error + unit) \<times> 'w"
  e_finish :: "'w \<Rightarrow> (anyhow + unit) \<times> 'w"
  e_read_exact :: "nat \<Rightarrow> 'r \<Rightarrow> (io_error + bytes) \<times> 'r"
  e_path_hash :: "component list \<Rightarrow> u64"

record ('fs, 'w, 'r) srv =
  x_fs :: 'fs
  x_send :: 'w
  x_recv :: 'r
  x_session :: session

definition record_rx :: "nat \<Rightarrow> ('fs, 'w, 'r) srv \<Rightarrow> ('fs, 'w, 'r) srv" where
  "record_rx n x = x\<lparr>x_session := (x_session x)\<lparr>ss_rx_bytes := ss_rx_bytes (x_session x) + word_of_nat n\<rparr>\<rparr>"

definition record_tx :: "nat \<Rightarrow> ('fs, 'w, 'r) srv \<Rightarrow> ('fs, 'w, 'r) srv" where
  "record_tx n x = x\<lparr>x_session := (x_session x)\<lparr>ss_tx_bytes := ss_tx_bytes (x_session x) + word_of_nat n\<rparr>\<rparr>"

text \<open>Run a file system action in the state of the handler.\<close>

definition on_fs :: "('fs \<Rightarrow> 'a \<times> 'fs) \<Rightarrow> ('fs, 'w, 'r) srv \<Rightarrow> 'a \<times> ('fs, 'w, 'r) srv" where
  "on_fs m x = (case m (x_fs x) of (a, fs) \<Rightarrow> (a, x\<lparr>x_fs := fs\<rparr>))"

text \<open>\<open>encode\<close> and \<open>decode\<close> of \<open>common/src/io.rs\<close>, over the codec.\<close>

definition encode :: "server_codec \<Rightarrow> response \<Rightarrow> anyhow + bytes" where
  "encode sc r = ok_or (enc_response sc r) ''msgpack encode''"

definition decode :: "(bytes \<Rightarrow> 'a option) \<Rightarrow> bytes \<Rightarrow> anyhow + 'a" where
  "decode dec raw = ok_or (dec raw) ''msgpack decode''"

text \<open>Encode a response and write its frame; the result is the encoded length.\<close>

definition send_frame ::
  "('w, 'r) env \<Rightarrow> response \<Rightarrow> ('fs, 'w, 'r) srv \<Rightarrow> (anyhow + nat) \<times> ('fs, 'w, 'r) srv" where
  "send_frame env resp x =
     (case encode (e_codec env) resp of
        Inl e \<Rightarrow> (Inl e, x)
      | Inr encoded \<Rightarrow>
          (case write_frame (e_write_all env) encoded (x_send x) of
             (Inl e, w) \<Rightarrow> (Inl e, x\<lparr>x_send := w\<rparr>)
           | (Inr _, w) \<Rightarrow> (Inr (length encoded), x\<lparr>x_send := w\<rparr>)))"

definition finish :: "('w, 'r) env \<Rightarrow> ('fs, 'w, 'r) srv \<Rightarrow> (anyhow + unit) \<times> ('fs, 'w, 'r) srv" where
  "finish env x = (case e_finish env (x_send x) of (r, w) \<Rightarrow> (r, x\<lparr>x_send := w\<rparr>))"

text \<open>The end of nearly every handler: one frame, then the stream is finished. \<open>reply_rec\<close> adds the
  encoded length to the session's counter and \<open>reply_0\<close> adds nothing to it.\<close>

definition reply ::
  "('w, 'r) env \<Rightarrow> response \<Rightarrow> ('fs, 'w, 'r) srv \<Rightarrow> (anyhow + unit) \<times> ('fs, 'w, 'r) srv" where
  "reply env resp = andthen (send_frame env resp) (\<lambda>_. finish env)"

definition reply_rec ::
  "('w, 'r) env \<Rightarrow> response \<Rightarrow> ('fs, 'w, 'r) srv \<Rightarrow> (anyhow + unit) \<times> ('fs, 'w, 'r) srv" where
  "reply_rec env resp =
     andthen (send_frame env resp) (\<lambda>n. andthen (finish env) (\<lambda>_ x. (Inr (), record_tx n x)))"

definition reply_0 ::
  "('w, 'r) env \<Rightarrow> response \<Rightarrow> ('fs, 'w, 'r) srv \<Rightarrow> (anyhow + unit) \<times> ('fs, 'w, 'r) srv" where
  "reply_0 env resp = andthen (reply env resp) (\<lambda>_ x. (Inr (), record_tx 0 x))"

text \<open>\<open>let req = decode(raw)?\<close>.\<close>

definition with_decoded ::
  "(bytes \<Rightarrow> 'q option) \<Rightarrow> bytes \<Rightarrow> ('q \<Rightarrow> 's \<Rightarrow> (anyhow + 'a) \<times> 's) \<Rightarrow> 's \<Rightarrow> (anyhow + 'a) \<times> 's" where
  "with_decoded dec raw k x = (case decode dec raw of Inl e \<Rightarrow> (Inl e, x) | Inr q \<Rightarrow> k q x)"

text \<open>\<open>result.map(|_| Status::Ok).unwrap_or_else(Status::from)\<close>.\<close>

definition status_of :: "io_error + 'a \<Rightarrow> Status" where
  "status_of r = (case r of Inr _ \<Rightarrow> St_Ok | Inl e \<Rightarrow> status_from_io e)"

text \<open>\<open>if status == Status::Ok && session.sync_metadata { sync_parent_dir(..) }\<close>.\<close>

definition sync_if_ok ::
  "'fs os \<Rightarrow> string \<Rightarrow> Status \<Rightarrow> string \<Rightarrow> ('fs, 'w, 'r) srv \<Rightarrow> ('fs, 'w, 'r) srv" where
  "sync_if_ok os root status resolved x =
     (if status = St_Ok \<and> ss_sync_metadata (x_session x)
      then x\<lparr>x_fs := sync_parent_dir os root resolved (x_fs x)\<rparr> else x)"

section \<open>Lemmas\<close>

lemma status_of_Ok_iff [simp]: "status_of r = St_Ok \<longleftrightarrow> is_ok r"
  by (cases r) (simp_all add: status_of_def)

lemma on_fs_simps [simp]:
  "m (x_fs x) = (a, fs) \<Longrightarrow> on_fs m x = (a, x\<lparr>x_fs := fs\<rparr>)"
  by (simp add: on_fs_def)

text \<open>What a reply leaves on the stream when it succeeds: the frame of the encoded response.\<close>

lemma send_frame_Ok:
  assumes "appends (e_write_all env) sent" and "send_frame env resp x = (Inr n, x')"
  obtains b w where "enc_response (e_codec env) resp = Some b" and "length b \<le> MAX_FRAME_SIZE"
    and "x' = x\<lparr>x_send := w\<rparr>" and "sent w = sent (x_send x) @ frame_bytes b" and "n = length b"
proof -
  from assms(2) obtain b w where b: "enc_response (e_codec env) resp = Some b"
      "write_frame (e_write_all env) b (x_send x) = (Inr (), w)" "x' = x\<lparr>x_send := w\<rparr>" "n = length b"
    by (auto simp: send_frame_def encode_def ok_or_def split: option.splits prod.splits sum.splits)
  from write_frame_sent [OF assms(1) b(2)] b show thesis by (intro that)
qed

text \<open>A reply touches neither the file system nor the handles.\<close>

lemma send_frame_keeps [simp]:
  "x_fs (snd (send_frame env resp x)) = x_fs x"
  "x_session (snd (send_frame env resp x)) = x_session x"
  "x_recv (snd (send_frame env resp x)) = x_recv x"
  by (simp_all add: send_frame_def split: sum.split prod.split)

lemma finish_keeps [simp]:
  "x_fs (snd (finish env x)) = x_fs x"
  "x_session (snd (finish env x)) = x_session x"
  "x_recv (snd (finish env x)) = x_recv x"
  by (simp_all add: finish_def split: prod.split)

lemma reply_keeps [simp]:
  "x_fs (snd (reply env resp x)) = x_fs x"
  "x_session (snd (reply env resp x)) = x_session x"
  "x_recv (snd (reply env resp x)) = x_recv x"
  by (simp_all add: reply_def snd_andthen)

lemma record_tx_keeps [simp]:
  "x_fs (record_tx n x) = x_fs x" "x_send (record_tx n x) = x_send x" "x_recv (record_tx n x) = x_recv x"
  "ss_handles (x_session (record_tx n x)) = ss_handles (x_session x)"
  by (simp_all add: record_tx_def)

lemma record_rx_keeps [simp]:
  "x_fs (record_rx n x) = x_fs x" "x_send (record_rx n x) = x_send x" "x_recv (record_rx n x) = x_recv x"
  "ss_handles (x_session (record_rx n x)) = ss_handles (x_session x)"
  by (simp_all add: record_rx_def)

lemma record_tx_0 [simp]: "record_tx 0 x = x"
  by (simp add: record_tx_def)

lemma reply_0_eq: "reply_0 env resp = reply env resp"
  by (auto simp: reply_0_def andthen_def fun_eq_iff split: prod.split sum.split)

text \<open>Case analysis on a resolved path, over two systems that agree inside the jail.\<close>

lemma case_resolve_agree:
  assumes "agree_confined root os os'" and "root \<noteq> []"
    and "\<And>p. beneath root p \<Longrightarrow> f p = g p"
  shows "(case resolve os fs root cp of Inl e \<Rightarrow> a e | Inr p \<Rightarrow> f p) =
         (case resolve os' fs root cp of Inl e \<Rightarrow> a e | Inr p \<Rightarrow> g p)"
  unfolding resolve_agree [OF assms(1,2), of fs cp]
  by (cases "resolve os' fs root cp") (auto intro: assms(3) resolve_beneath [OF assms(2)])

lemma sync_if_ok_agree:
  "agree_confined root os os' \<Longrightarrow> root \<noteq> [] \<Longrightarrow> beneath root p \<Longrightarrow>
   sync_if_ok os root s p = sync_if_ok os' root s p"
  by (simp add: sync_if_ok_def fun_eq_iff sync_parent_dir_agree)

end
