(* ===== verification/Ops_Meta.thy ===== *)
theory Ops_Meta
  imports Session "HOL-Library.Signed_Division"
begin

text \<open>
  The metadata requests (\<open>server/src/ops/meta.rs\<close>), one definition per handler: decode, resolve,
  act through the confined operations, answer. A handler refuses a path that does not resolve with
  the status \<open>Permission\<close>.
\<close>

section \<open>Metadata to wire form\<close>

definition time_ns :: "io_error + int \<Rightarrow> i64" where
  "time_ns t = (case t of Inr ns \<Rightarrow> if 0 \<le> ns then word_of_int ns else 0 | Inl _ \<Rightarrow> 0)"

definition nlink_of :: "metadata \<Rightarrow> u32" where
  "nlink_of m = ucast (min (md_nlink m) 0xFFFFFFFF)"

definition metadata_to_stat :: "metadata \<Rightarrow> Stat" where
  "metadata_to_stat m =
     \<lparr>st_ino = md_ino m, st_mode = md_mode m, st_nlink = nlink_of m, st_uid = md_uid m,
      st_gid = md_gid m, st_size = md_len m, st_atime = time_ns (md_accessed m),
      st_mtime = time_ns (md_modified m), st_ctime = time_ns (md_modified m),
      st_blksz = 4096, st_blocks = (md_len m + 511) div 512\<rparr>"

definition stat_of :: "io_error + metadata \<Rightarrow> Stat option" where
  "stat_of r = map_option metadata_to_stat (result_ok r)"

section \<open>Sending helpers\<close>

definition send_stat_resp ::
  "('w, 'r) env \<Rightarrow> u8 \<Rightarrow> u64 \<Rightarrow> Status \<Rightarrow> Stat option \<Rightarrow> ('fs, 'w, 'r) srv \<Rightarrow>
   (anyhow + unit) \<times> ('fs, 'w, 'r) srv" where
  "send_stat_resp env op sq status stat =
     reply env (R_GetAttr \<lparr>gar_op = op, gar_seq = sq, gar_status = status_u8 status, gar_stat = stat\<rparr>)"

definition send_status ::
  "('w, 'r) env \<Rightarrow> u8 \<Rightarrow> u64 \<Rightarrow> Status \<Rightarrow> ('fs, 'w, 'r) srv \<Rightarrow> (anyhow + unit) \<times> ('fs, 'w, 'r) srv" where
  "send_status env op sq status =
     reply env (R_Status \<lparr>sr_op = op, sr_seq = sq, sr_status = status_u8 status\<rparr>)"

definition send_statfs_resp ::
  "('w, 'r) env \<Rightarrow> u64 \<Rightarrow> Status \<Rightarrow> StatFs option \<Rightarrow> ('fs, 'w, 'r) srv \<Rightarrow>
   (anyhow + unit) \<times> ('fs, 'w, 'r) srv" where
  "send_statfs_resp env sq status fs =
     reply env (R_StatFs \<lparr>sfr_op = OP_STAT_FS, sfr_seq = sq, sfr_status = status_u8 status, sfr_statfs = fs\<rparr>)"

text \<open>\<open>session.record_tx(0)\<close> after a reply.\<close>

definition then_record_0 ::
  "('s \<Rightarrow> (anyhow + unit) \<times> 's) \<Rightarrow> ('s \<Rightarrow> 's) \<Rightarrow> 's \<Rightarrow> (anyhow + unit) \<times> 's" where
  "then_record_0 m rec = andthen m (\<lambda>_ x. (Inr (), rec x))"

section \<open>Attributes\<close>

definition handle_getattr ::
  "'fs os \<Rightarrow> ('w, 'r) env \<Rightarrow> string \<Rightarrow> bytes \<Rightarrow> ('fs, 'w, 'r) srv \<Rightarrow>
   (anyhow + unit) \<times> ('fs, 'w, 'r) srv" where
  "handle_getattr os env root raw =
     with_decoded (dec_GetAttrRequest (e_codec env)) raw (\<lambda>req x.
       case resolve os (x_fs x) root (gaq_path req) of
         Inl _ \<Rightarrow> send_stat_resp env OP_GET_ATTR (gaq_seq req) St_Permission None x
       | Inr resolved \<Rightarrow>
           (let r = os_stat os (x_fs x) resolved
            in then_record_0 (send_stat_resp env OP_GET_ATTR (gaq_seq req) (status_of r) (stat_of r))
                 (record_tx 0) x))"

text \<open>\<open>ns / 1_000_000_000\<close> and \<open>%\<close> on \<open>i64\<close> truncate towards zero: the library's signed division.\<close>

definition ns_to_timespec :: "i64 \<Rightarrow> timespec" where
  "ns_to_timespec ns =
     \<lparr>tv_sec = word_of_int (sint ns sdiv 1000000000),
      tv_nsec = word_of_int (sint ns smod 1000000000)\<rparr>"

text \<open>A time before 1970 that is not a whole second gets a negative number of nanoseconds, which
  \<open>utimensat\<close> refuses.\<close>

lemma negative_nanoseconds: "tv_nsec (ns_to_timespec (- 1)) = - 1"
  by (simp add: ns_to_timespec_def signed_modulo_int_def)

text \<open>\<open>UTIME_OMIT\<close> leaves a time alone.\<close>

definition utime_omit :: timespec where
  "utime_omit = \<lparr>tv_sec = 0, tv_nsec = 0x3FFFFFFE\<rparr>"

text \<open>Mode and times through one \<open>O_PATH\<close> descriptor.\<close>

definition set_mode_times :: "'fs os \<Rightarrow> SetAttrRequest \<Rightarrow> fd \<Rightarrow> 'fs \<Rightarrow> (io_error + unit) \<times> 'fs" where
  "set_mode_times os req fd =
     andthen (\<lambda>fs. if saq_valid req AND 0x1 \<noteq> 0 then os_proc_chmod os fd (saq_mode req AND 0x1FF) fs
                   else (Inr (), fs))
       (\<lambda>_ fs. if saq_valid req AND 0x10 \<noteq> 0 \<or> saq_valid req AND 0x20 \<noteq> 0
               then os_proc_utimens os fd
                      (if saq_valid req AND 0x10 \<noteq> 0 then ns_to_timespec (saq_atime req) else utime_omit)
                      (if saq_valid req AND 0x20 \<noteq> 0 then ns_to_timespec (saq_mtime req) else utime_omit) fs
               else (Inr (), fs))"

text \<open>The sinks of a \<open>SetAttr\<close> in order; the first error decides the status.\<close>

definition apply_setattr ::
  "'fs os \<Rightarrow> string \<Rightarrow> string \<Rightarrow> SetAttrRequest \<Rightarrow> 'fs \<Rightarrow> (io_error + unit) \<times> 'fs" where
  "apply_setattr os root resolved req =
     andthen (\<lambda>fs. if saq_valid req AND 0x8 \<noteq> 0
                   then andthen (open_confined os root resolved (O_WRONLY OR O_NOFOLLOW) 0)
                          (\<lambda>f. closing os f (os_set_len os f (saq_size req))) fs
                   else (Inr (), fs))
       (\<lambda>_ fs. if saq_valid req AND (0x1 OR 0x10 OR 0x20) \<noteq> 0
               then andthen (open_confined os root resolved O_PATH 0)
                      (\<lambda>f. closing os f (set_mode_times os req f)) fs
               else (Inr (), fs))"

definition handle_setattr ::
  "'fs os \<Rightarrow> ('w, 'r) env \<Rightarrow> string \<Rightarrow> bytes \<Rightarrow> ('fs, 'w, 'r) srv \<Rightarrow>
   (anyhow + unit) \<times> ('fs, 'w, 'r) srv" where
  "handle_setattr os env root raw =
     with_decoded (dec_SetAttrRequest (e_codec env)) raw (\<lambda>req x.
       case resolve os (x_fs x) root (saq_path req) of
         Inl _ \<Rightarrow> reply env (R_SetAttr \<lparr>sar_op = OP_SET_ATTR, sar_seq = saq_seq req,
                     sar_status = status_u8 St_Permission, sar_stat = None\<rparr>) x
       | Inr resolved \<Rightarrow>
           (case on_fs (apply_setattr os root resolved req) x of
              (r, x1) \<Rightarrow>
                (let final = (case r of Inl e \<Rightarrow> Inl e | Inr _ \<Rightarrow> os_stat os (x_fs x1) resolved)
                 in reply_0 env (R_SetAttr \<lparr>sar_op = OP_SET_ATTR, sar_seq = saq_seq req,
                      sar_status = status_u8 (status_of final), sar_stat = stat_of final\<rparr>) x1)))"

section \<open>Directories\<close>

definition READDIR_PAGE :: nat where "READDIR_PAGE = 256"

definition dir_entry :: "string \<times> (io_error + metadata) \<Rightarrow> DirEntry" where
  "dir_entry e =
     (case e of (name, md) \<Rightarrow>
        \<lparr>de_name = to_string_lossy name,
         de_ino = (case md of Inr m \<Rightarrow> md_ino m | Inl _ \<Rightarrow> 0),
         de_mode = (case md of Inr m \<Rightarrow> md_mode m | Inl _ \<Rightarrow> 0)\<rparr>)"

text \<open>\<open>for entry in dir.flatten()\<close>: entries that failed are passed over, \<open>skip\<close> of the others are
  skipped, and the loop stops at a full page.\<close>

fun readdir_loop ::
  "nat \<Rightarrow> DirEntry list \<Rightarrow> (io_error + string \<times> (io_error + metadata)) list \<Rightarrow> DirEntry list" where
  "readdir_loop skip out [] = out"
| "readdir_loop skip out (Inl _ # es) = readdir_loop skip out es"
| "readdir_loop (Suc skip) out (Inr e # es) = readdir_loop skip out es"
| "readdir_loop 0 out (Inr e # es) =
     (let out' = out @ [dir_entry e]
      in if length out' \<ge> READDIR_PAGE then out' else readdir_loop 0 out' es)"

definition handle_readdir ::
  "'fs os \<Rightarrow> ('w, 'r) env \<Rightarrow> string \<Rightarrow> bytes \<Rightarrow> ('fs, 'w, 'r) srv \<Rightarrow>
   (anyhow + unit) \<times> ('fs, 'w, 'r) srv" where
  "handle_readdir os env root raw =
     with_decoded (dec_ReadDirRequest (e_codec env)) raw (\<lambda>req x.
       case resolve os (x_fs x) root (rdq_path req) of
         Inl _ \<Rightarrow> reply env (R_ReadDir \<lparr>rdr_op = OP_READ_DIR, rdr_seq = rdq_seq req,
                     rdr_status = status_u8 St_Permission, rdr_entries = [], rdr_cursor = 0, rdr_eof = True\<rparr>) x
       | Inr resolved \<Rightarrow>
           (let r = os_read_dir os (x_fs x) resolved;
                entries = (case r of Inl _ \<Rightarrow> [] | Inr dir \<Rightarrow> readdir_loop (unat (rdq_cursor req)) [] dir)
            in reply_0 env (R_ReadDir \<lparr>rdr_op = OP_READ_DIR, rdr_seq = rdq_seq req,
                 rdr_status = status_u8 (status_of r), rdr_entries = entries,
                 rdr_cursor = rdq_cursor req + word_of_nat (length entries),
                 rdr_eof = (length entries < READDIR_PAGE \<or> status_of r \<noteq> St_Ok)\<rparr>) x))"

definition handle_mkdir ::
  "'fs os \<Rightarrow> ('w, 'r) env \<Rightarrow> string \<Rightarrow> bytes \<Rightarrow> ('fs, 'w, 'r) srv \<Rightarrow>
   (anyhow + unit) \<times> ('fs, 'w, 'r) srv" where
  "handle_mkdir os env root raw =
     with_decoded (dec_MkDirRequest (e_codec env)) raw (\<lambda>req x.
       case resolve os (x_fs x) root (mkq_path req) of
         Inl _ \<Rightarrow> send_stat_resp env OP_MKDIR (mkq_seq req) St_Permission None x
       | Inr resolved \<Rightarrow>
           (case on_fs (mkdir_confined os root resolved (mkq_mode req)) x of
              (r, x1) \<Rightarrow>
                (let status = status_of r;
                     x2 = sync_if_ok os root status resolved x1;
                     stat = (if status = St_Ok then stat_of (os_stat os (x_fs x2) resolved) else None)
                 in then_record_0 (send_stat_resp env OP_MKDIR (mkq_seq req) status stat) (record_tx 0) x2)))"

definition handle_rmdir ::
  "'fs os \<Rightarrow> ('w, 'r) env \<Rightarrow> string \<Rightarrow> bytes \<Rightarrow> ('fs, 'w, 'r) srv \<Rightarrow>
   (anyhow + unit) \<times> ('fs, 'w, 'r) srv" where
  "handle_rmdir os env root raw =
     with_decoded (dec_PathRequest (e_codec env)) raw (\<lambda>req x.
       case resolve os (x_fs x) root (pq_path req) of
         Inl _ \<Rightarrow> send_status env OP_RMDIR (pq_seq req) St_Permission x
       | Inr resolved \<Rightarrow>
           (case on_fs (remove_confined os root resolved True) x of
              (r, x1) \<Rightarrow>
                (let status = status_of r;
                     x2 = sync_if_ok os root status resolved x1
                 in then_record_0 (send_status env OP_RMDIR (pq_seq req) status) (record_tx 0) x2)))"

definition handle_unlink ::
  "'fs os \<Rightarrow> ('w, 'r) env \<Rightarrow> string \<Rightarrow> bytes \<Rightarrow> ('fs, 'w, 'r) srv \<Rightarrow>
   (anyhow + unit) \<times> ('fs, 'w, 'r) srv" where
  "handle_unlink os env root raw =
     with_decoded (dec_PathRequest (e_codec env)) raw (\<lambda>req x.
       case resolve os (x_fs x) root (pq_path req) of
         Inl _ \<Rightarrow> send_status env OP_UNLINK (pq_seq req) St_Permission x
       | Inr resolved \<Rightarrow>
           (case on_fs (remove_confined os root resolved False) x of
              (r, x1) \<Rightarrow>
                (let status = status_of r;
                     x2 = sync_if_ok os root status resolved x1
                 in then_record_0 (send_status env OP_UNLINK (pq_seq req) status) (record_tx 0) x2)))"

definition handle_rename ::
  "'fs os \<Rightarrow> ('w, 'r) env \<Rightarrow> string \<Rightarrow> bytes \<Rightarrow> ('fs, 'w, 'r) srv \<Rightarrow>
   (anyhow + unit) \<times> ('fs, 'w, 'r) srv" where
  "handle_rename os env root raw =
     with_decoded (dec_RenameRequest (e_codec env)) raw (\<lambda>req x.
       case resolve os (x_fs x) root (rnq_old req) of
         Inl _ \<Rightarrow> send_status env OP_RENAME (rnq_seq req) St_Permission x
       | Inr old \<Rightarrow>
           (case resolve os (x_fs x) root (rnq_new req) of
              Inl _ \<Rightarrow> send_status env OP_RENAME (rnq_seq req) St_Permission x
            | Inr new \<Rightarrow>
                (case on_fs (rename_confined os root old new) x of
                   (r, x1) \<Rightarrow>
                     (let status = status_of r;
                          x2 = sync_if_ok os root status old x1;
                          x3 = (if map_option components (path_parent old) \<noteq>
                                   map_option components (path_parent new)
                                then sync_if_ok os root status new x2 else x2)
                      in then_record_0 (send_status env OP_RENAME (rnq_seq req) status) (record_tx 0) x3))))"

section \<open>Links\<close>

definition MAX_SYMLINK_TARGET_LEN :: nat where "MAX_SYMLINK_TARGET_LEN = 4096"

definition handle_symlink ::
  "'fs os \<Rightarrow> ('w, 'r) env \<Rightarrow> string \<Rightarrow> bytes \<Rightarrow> ('fs, 'w, 'r) srv \<Rightarrow>
   (anyhow + unit) \<times> ('fs, 'w, 'r) srv" where
  "handle_symlink os env root raw =
     with_decoded (dec_SymlinkRequest (e_codec env)) raw (\<lambda>req x.
       if length (syq_target req) > MAX_SYMLINK_TARGET_LEN
       then send_stat_resp env OP_SYMLINK (syq_seq req) St_InvalidArg None x
       else case resolve os (x_fs x) root (syq_link req) of
         Inl _ \<Rightarrow> send_stat_resp env OP_SYMLINK (syq_seq req) St_Permission None x
       | Inr link_path \<Rightarrow>
           (case on_fs (symlink_confined os root link_path (syq_target req)) x of
              (r, x1) \<Rightarrow>
                (let status = status_of r;
                     x2 = sync_if_ok os root status link_path x1;
                     stat = (if status = St_Ok then stat_of (os_lstat os (x_fs x2) link_path) else None)
                 in then_record_0 (send_stat_resp env OP_SYMLINK (syq_seq req) status stat) (record_tx 0) x2)))"

definition handle_readlink ::
  "'fs os \<Rightarrow> ('w, 'r) env \<Rightarrow> string \<Rightarrow> bytes \<Rightarrow> ('fs, 'w, 'r) srv \<Rightarrow>
   (anyhow + unit) \<times> ('fs, 'w, 'r) srv" where
  "handle_readlink os env root raw =
     with_decoded (dec_PathRequest (e_codec env)) raw (\<lambda>req x.
       case resolve os (x_fs x) root (pq_path req) of
         Inl _ \<Rightarrow> reply env (R_ReadLink \<lparr>lkr_op = OP_READLINK, lkr_seq = pq_seq req,
                     lkr_status = status_u8 St_Permission, lkr_target = []\<rparr>) x
       | Inr resolved \<Rightarrow>
           (case on_fs (readlink_confined os root resolved) x of
              (r, x1) \<Rightarrow>
                reply_0 env (R_ReadLink \<lparr>lkr_op = OP_READLINK, lkr_seq = pq_seq req,
                  lkr_status = status_u8 (status_of r),
                  lkr_target = (case r of Inr t \<Rightarrow> to_string_lossy t | Inl _ \<Rightarrow> [])\<rparr>) x1))"

definition handle_link ::
  "'fs os \<Rightarrow> ('w, 'r) env \<Rightarrow> string \<Rightarrow> bytes \<Rightarrow> ('fs, 'w, 'r) srv \<Rightarrow>
   (anyhow + unit) \<times> ('fs, 'w, 'r) srv" where
  "handle_link os env root raw =
     with_decoded (dec_LinkRequest (e_codec env)) raw (\<lambda>req x.
       case resolve os (x_fs x) root (lnq_path req) of
         Inl _ \<Rightarrow> send_stat_resp env OP_LINK (lnq_seq req) St_Permission None x
       | Inr src \<Rightarrow>
           (case resolve os (x_fs x) root (lnq_link req) of
              Inl _ \<Rightarrow> send_stat_resp env OP_LINK (lnq_seq req) St_Permission None x
            | Inr dst \<Rightarrow>
                (case on_fs (link_confined os root src dst) x of
                   (r, x1) \<Rightarrow>
                     (let status = status_of r;
                          x2 = sync_if_ok os root status dst x1;
                          stat = (if status = St_Ok then stat_of (os_stat os (x_fs x2) dst) else None)
                      in then_record_0 (send_stat_resp env OP_LINK (lnq_seq req) status stat) (record_tx 0) x2))))"

section \<open>Handles\<close>

definition open_response :: "u8 \<Rightarrow> u64 \<Rightarrow> Status \<Rightarrow> u64 \<Rightarrow> Stat option \<Rightarrow> response" where
  "open_response op sq status handle stat =
     R_Open \<lparr>opr_op = op, opr_seq = sq, opr_status = status_u8 status, opr_handle = handle, opr_stat = stat\<rparr>"

text \<open>\<open>session.handles.try_insert(..)\<close> in the state of the handler.\<close>

definition insert_session ::
  "'fs os \<Rightarrow> ('w, 'r) env \<Rightarrow> string \<Rightarrow> u32 \<Rightarrow> fd \<Rightarrow> ('fs, 'w, 'r) srv \<Rightarrow>
   (anyhow + u64) \<times> ('fs, 'w, 'r) srv" where
  "insert_session os env path flags file x =
     (case try_insert os (e_path_hash env) path flags file (ss_handles (x_session x)) (x_fs x) of
        (r, t, fs) \<Rightarrow> (r, x\<lparr>x_fs := fs, x_session := (x_session x)\<lparr>ss_handles := t\<rparr>\<rparr>))"

definition open_flags :: "u32 \<Rightarrow> u32" where
  "open_flags flags =
     (let access = (if flags AND 3 = 1 then O_WRONLY else if flags AND 3 = 2 then O_RDWR else O_RDONLY)
      in if flags AND 0x400 \<noteq> 0 then access OR O_APPEND else access)"

definition handle_open ::
  "'fs os \<Rightarrow> ('w, 'r) env \<Rightarrow> string \<Rightarrow> bytes \<Rightarrow> ('fs, 'w, 'r) srv \<Rightarrow>
   (anyhow + unit) \<times> ('fs, 'w, 'r) srv" where
  "handle_open os env root raw =
     with_decoded (dec_OpenRequest (e_codec env)) raw (\<lambda>req x.
       case resolve os (x_fs x) root (opq_path req) of
         Inl _ \<Rightarrow> reply env (open_response OP_OPEN (opq_seq req) St_Permission 0 None) x
       | Inr resolved \<Rightarrow>
           (case on_fs (open_confined os root resolved (open_flags (opq_flags req)) 0) x of
              (Inl e, x1) \<Rightarrow> reply env (open_response OP_OPEN (opq_seq req) (status_from_io e) 0 None) x1
            | (Inr file, x1) \<Rightarrow>
                (let stat = stat_of (os_fstat os (x_fs x1) file)
                 in case insert_session os env resolved (opq_flags req) file x1 of
                      (Inl _, x2) \<Rightarrow> reply env (open_response OP_OPEN (opq_seq req) St_NoSpace 0 None) x2
                    | (Inr handle, x2) \<Rightarrow>
                        reply_0 env (open_response OP_OPEN (opq_seq req) St_Ok handle stat) x2)))"

text \<open>The removed handle lives to the end of the handler; its file is closed then.\<close>

definition handle_release ::
  "'fs os \<Rightarrow> ('w, 'r) env \<Rightarrow> bytes \<Rightarrow> ('fs, 'w, 'r) srv \<Rightarrow> (anyhow + unit) \<times> ('fs, 'w, 'r) srv" where
  "handle_release os env raw =
     with_decoded (dec_ReleaseRequest (e_codec env)) raw (\<lambda>req x.
       case remove_handle (rlq_handle req) (ss_handles (x_session x)) of
         (removed, t) \<Rightarrow>
           (let x1 = x\<lparr>x_session := (x_session x)\<lparr>ss_handles := t\<rparr>\<rparr>
            in case (if ss_sync_on_close (x_session x1)
                     then case removed of
                            Some h \<Rightarrow> (case on_fs (os_sync_all os (oh_file h)) x1 of (r, x2) \<Rightarrow> (status_of r, x2))
                          | None \<Rightarrow> (St_Ok, x1)
                     else (St_Ok, x1)) of
                 (status, x2) \<Rightarrow>
                   (case reply env (R_Release \<lparr>rlr_op = OP_RELEASE, rlr_seq = rlq_seq req,
                           rlr_status = status_u8 status\<rparr>) x2 of
                      (r, x3) \<Rightarrow>
                        (r, case removed of
                              Some h \<Rightarrow> x3\<lparr>x_fs := os_close os (oh_file h) (x_fs x3)\<rparr>
                            | None \<Rightarrow> x3))))"

section \<open>File system statistics\<close>

definition statfs_default :: StatFs where
  "statfs_default = \<lparr>sf_blocks = 0, sf_bfree = 0, sf_bavail = 0, sf_files = 0, sf_ffree = 0,
     sf_bsize = 0, sf_namelen = 0, sf_frsize = 0\<rparr>"

definition query_statfs :: "'fs os \<Rightarrow> 'fs \<Rightarrow> string \<Rightarrow> StatFs" where
  "query_statfs os fs path =
     (if \<not> cstring_ok path then statfs_default
      else case os_statvfs os fs path of
             Inr s \<Rightarrow> \<lparr>sf_blocks = f_blocks s, sf_bfree = f_bfree s, sf_bavail = f_bavail s,
                      sf_files = f_files s, sf_ffree = f_ffree s, sf_bsize = ucast (f_bsize s),
                      sf_namelen = ucast (f_namemax s), sf_frsize = ucast (f_frsize s)\<rparr>
           | Inl _ \<Rightarrow> statfs_default)"

definition handle_statfs ::
  "'fs os \<Rightarrow> ('w, 'r) env \<Rightarrow> string \<Rightarrow> bytes \<Rightarrow> ('fs, 'w, 'r) srv \<Rightarrow>
   (anyhow + unit) \<times> ('fs, 'w, 'r) srv" where
  "handle_statfs os env root raw =
     with_decoded (dec_PathRequest (e_codec env)) raw (\<lambda>req x.
       case resolve os (x_fs x) root (pq_path req) of
         Inl _ \<Rightarrow> send_statfs_resp env (pq_seq req) St_Permission None x
       | Inr resolved \<Rightarrow>
           then_record_0 (send_statfs_resp env (pq_seq req) St_Ok (Some (query_statfs os (x_fs x) resolved)))
             (record_tx 0) x)"

end
