(* ===== verification/Ops_Data.thy ===== *)
theory Ops_Data
  imports Ops_Meta
begin

text \<open>
  The data requests (\<open>server/src/ops/data.rs\<close>): \<open>read\<close>, \<open>write\<close>, \<open>create\<close> and \<open>fsync\<close>, on the
  descriptors retained in the handle table.
\<close>

definition CHUNK :: nat where "CHUNK = 256 * 1024"

definition MAX_READ_REQUEST :: u32 where "MAX_READ_REQUEST = 16 * 1024 * 1024"

section \<open>Read\<close>

definition read_response :: "u64 \<Rightarrow> Status \<Rightarrow> u64 \<Rightarrow> bytes \<Rightarrow> bool \<Rightarrow> response" where
  "read_response sq status offset data eof =
     R_Read \<lparr>rr_op = OP_READ, rr_seq = sq, rr_status = status_u8 status, rr_offset = offset,
             rr_data = data, rr_eof = eof\<rparr>"

definition send_read_err ::
  "('w, 'r) env \<Rightarrow> u64 \<Rightarrow> u64 \<Rightarrow> Status \<Rightarrow> ('fs, 'w, 'r) srv \<Rightarrow> (anyhow + unit) \<times> ('fs, 'w, 'r) srv" where
  "send_read_err env sq offset status = reply env (read_response sq status offset [] True)"

text \<open>\<open>f.seek(..).and_then(|_| f.read(&mut buf))\<close>, with the buffer truncated to what was read.\<close>

definition seek_read :: "'fs os \<Rightarrow> fd \<Rightarrow> u64 \<Rightarrow> nat \<Rightarrow> 'fs \<Rightarrow> (io_error + bytes) \<times> 'fs" where
  "seek_read os file offset n =
     andthen (os_seek os file offset)
       (\<lambda>_. andthen (os_read os file n) (\<lambda>buf fs. (Inr (take n buf), fs)))"

lemma seek_read_length: "seek_read os file offset n fs = (Inr buf, fs') \<Longrightarrow> length buf \<le> n"
  by (auto simp: seek_read_def elim!: andthen_eq_OkE)

text \<open>The loop, from the bytes that remain and the next offset; leaving it finishes the stream.\<close>

function read_loop ::
  "'fs os \<Rightarrow> ('w, 'r) env \<Rightarrow> u64 \<Rightarrow> fd \<Rightarrow> nat \<Rightarrow> u64 \<Rightarrow> ('fs, 'w, 'r) srv \<Rightarrow>
   (anyhow + unit) \<times> ('fs, 'w, 'r) srv" where
  "read_loop os env sq file remaining offset x =
     (if remaining = 0 then finish env x
      else case on_fs (seek_read os file offset (min remaining CHUNK)) x of
             (Inl e, x1) \<Rightarrow> send_read_err env sq offset (status_from_io e) x1
           | (Inr buf, x1) \<Rightarrow>
               (let n = length buf;
                    eof = (n = 0);
                    remaining' = remaining - n;
                    last_frame = (eof \<or> remaining' = 0)
                in case send_frame env (read_response sq St_Ok offset buf last_frame) x1 of
                     (Inl e, x2) \<Rightarrow> (Inl e, x2)
                   | (Inr len, x2) \<Rightarrow>
                       (let x3 = record_tx len x2
                        in if eof then finish env x3
                           else read_loop os env sq file remaining' (offset + word_of_nat n) x3)))"
  by pat_completeness auto
termination
  by (relation "measure (\<lambda>(os, env, sq, file, remaining, offset, x). remaining)") auto

declare read_loop.simps [simp del]

definition handle_read ::
  "'fs os \<Rightarrow> ('w, 'r) env \<Rightarrow> bytes \<Rightarrow> ('fs, 'w, 'r) srv \<Rightarrow> (anyhow + unit) \<times> ('fs, 'w, 'r) srv" where
  "handle_read os env raw =
     with_decoded (dec_ReadRequest (e_codec env)) raw (\<lambda>req x.
       if rq_length req > MAX_READ_REQUEST
       then send_read_err env (rq_seq req) (rq_offset req) St_InvalidArg x
       else case get_file (ss_handles (x_session x)) (rq_handle req) of
              None \<Rightarrow> send_read_err env (rq_seq req) (rq_offset req) St_Stale x
            | Some file \<Rightarrow>
                read_loop os env (rq_seq req) file (unat (rq_length req)) (rq_offset req) x)"

section \<open>Write\<close>

text \<open>\<open>write_at\<close>; the result is the new value of the accumulator \<open>total\<close>.\<close>

definition write_at ::
  "'fs os \<Rightarrow> fd \<Rightarrow> bool \<Rightarrow> u64 \<Rightarrow> bytes \<Rightarrow> u64 \<Rightarrow> 'fs \<Rightarrow> (io_error + u64) \<times> 'fs" where
  "write_at os file appending offset data tot =
     andthen (\<lambda>fs. if appending then (Inr (), fs) else os_seek os file offset fs)
       (\<lambda>_. andthen (os_write_all os file data)
          (\<lambda>_ fs. (Inr (saturating_add_u64 tot (word_of_nat (length data))), fs)))"

definition write_response :: "u64 \<Rightarrow> Status \<Rightarrow> u64 \<Rightarrow> response" where
  "write_response sq status tot =
     R_Write \<lparr>wr_op = OP_WRITE, wr_seq = sq, wr_status = status_u8 status, wr_written = tot\<rparr>"

text \<open>\<open>read_frame(recv)\<close> in the state of the handler.\<close>

definition recv_frame ::
  "('w, 'r) env \<Rightarrow> ('fs, 'w, 'r) srv \<Rightarrow> (anyhow + bytes) \<times> ('fs, 'w, 'r) srv" where
  "recv_frame env x =
     (case read_frame (e_read_exact env) (x_recv x) of (r, rc) \<Rightarrow> (r, x\<lparr>x_recv := rc\<rparr>))"

text \<open>\<open>while !done\<close>: it ends only when the client says so, so not returning is the value \<open>None\<close>.
  \<open>wa\<close> is \<open>write_at\<close> on the retained file.\<close>

partial_function (option) write_loop ::
  "(u64 \<Rightarrow> bytes \<Rightarrow> u64 \<Rightarrow> 'fs \<Rightarrow> (io_error + u64) \<times> 'fs) \<Rightarrow> ('w, 'r) env \<Rightarrow> u64 \<Rightarrow> bool \<Rightarrow> u64 \<Rightarrow>
   ('fs, 'w, 'r) srv \<Rightarrow> ((anyhow + unit) \<times> ('fs, 'w, 'r) srv) option" where
  "write_loop wa env sq finished tot x =
     (if finished then Some (reply_rec env (write_response sq St_Ok tot) x)
      else case recv_frame env x of
             (Inl e, x1) \<Rightarrow> Some (Inl e, x1)
           | (Inr chunk_raw, x1) \<Rightarrow>
               (let x2 = record_rx (length chunk_raw) x1
                in case decode (dec_WriteRequest (e_codec env)) chunk_raw of
                     Inl e \<Rightarrow> Some (Inl e, x2)
                   | Inr chunk \<Rightarrow>
                       (case on_fs (wa (wq_offset chunk) (wq_data chunk) tot) x2 of
                          (Inl e, x3) \<Rightarrow> Some (reply env (write_response sq (status_from_io e) tot) x3)
                        | (Inr tot', x3) \<Rightarrow> write_loop wa env sq (wq_done chunk) tot' x3)))"

definition handle_write ::
  "'fs os \<Rightarrow> ('w, 'r) env \<Rightarrow> bytes \<Rightarrow> ('fs, 'w, 'r) srv \<Rightarrow>
   ((anyhow + unit) \<times> ('fs, 'w, 'r) srv) option" where
  "handle_write os env raw x =
     (case decode (dec_WriteRequest (e_codec env)) raw of
        Inl e \<Rightarrow> Some (Inl e, x)
      | Inr first \<Rightarrow>
          (case get_write_ctx (ss_handles (x_session x)) (wq_handle first) of
             None \<Rightarrow> Some (reply env (write_response (wq_seq first) St_Stale 0) x)
           | Some (file, flags, ino_key) \<Rightarrow>
               (let appending = (flags AND 0x400 \<noteq> 0)
                in case on_fs (write_at os file appending (wq_offset first) (wq_data first) 0) x of
                     (Inl e, x1) \<Rightarrow> Some (reply env (write_response (wq_seq first) (status_from_io e) 0) x1)
                   | (Inr tot, x1) \<Rightarrow>
                       write_loop (write_at os file appending) env (wq_seq first) (wq_done first) tot x1)))"

section \<open>Create\<close>

definition create_flags :: "u32 \<Rightarrow> u32" where
  "create_flags flags =
     (let f0 = O_RDWR OR O_CREAT OR O_NOFOLLOW;
          f1 = (if flags AND 0x80 \<noteq> 0 then f0 OR O_EXCL else f0);
          f2 = (if flags AND 0x200 \<noteq> 0 then f1 OR O_TRUNC else f1)
      in if flags AND 0x400 \<noteq> 0 then f2 OR O_APPEND else f2)"

definition handle_create ::
  "'fs os \<Rightarrow> ('w, 'r) env \<Rightarrow> string \<Rightarrow> bytes \<Rightarrow> ('fs, 'w, 'r) srv \<Rightarrow>
   (anyhow + unit) \<times> ('fs, 'w, 'r) srv" where
  "handle_create os env root raw =
     with_decoded (dec_CreateRequest (e_codec env)) raw (\<lambda>req x.
       case resolve os (x_fs x) root (crq_path req) of
         Inl _ \<Rightarrow> reply env (open_response OP_CREATE (crq_seq req) St_Permission 0 None) x
       | Inr resolved \<Rightarrow>
           (case on_fs (open_confined os root resolved (create_flags (crq_flags req)) (crq_mode req AND 0x1FF)) x of
              (Inl e, x1) \<Rightarrow> reply_rec env (open_response OP_CREATE (crq_seq req) (status_from_io e) 0 None) x1
            | (Inr f, x1) \<Rightarrow>
                (let x2 = snd (on_fs (os_fchmod os f (crq_mode req AND 0x1FF)) x1);
                     stat = stat_of (os_fstat os (x_fs x2) f)
                 in case insert_session os env resolved (crq_flags req) f x2 of
                      (Inl _, x3) \<Rightarrow> reply_rec env (open_response OP_CREATE (crq_seq req) St_NoSpace 0 None) x3
                    | (Inr handle, x3) \<Rightarrow>
                        reply_rec env (open_response OP_CREATE (crq_seq req) St_Ok handle stat)
                          (sync_if_ok os root St_Ok resolved x3))))"

section \<open>Fsync\<close>

definition handle_fsync ::
  "'fs os \<Rightarrow> ('w, 'r) env \<Rightarrow> bytes \<Rightarrow> ('fs, 'w, 'r) srv \<Rightarrow> (anyhow + unit) \<times> ('fs, 'w, 'r) srv" where
  "handle_fsync os env raw =
     with_decoded (dec_FsyncRequest (e_codec env)) raw (\<lambda>req x.
       case get_file (ss_handles (x_session x)) (fsq_handle req) of
         None \<Rightarrow> reply env (R_Status \<lparr>sr_op = OP_FSYNC, sr_seq = fsq_seq req, sr_status = status_u8 St_Stale\<rparr>) x
       | Some file \<Rightarrow>
           (case on_fs (if fsq_datasync req then os_sync_data os file else os_sync_all os file) x of
              (r, x1) \<Rightarrow>
                reply_rec env (R_Status \<lparr>sr_op = OP_FSYNC, sr_seq = fsq_seq req,
                  sr_status = status_u8 (status_of r)\<rparr>) x1))"

end
