(* ===== verification/Trust.thy ===== *)
theory Trust
  imports Rust_Path Rust_Utf8 Status "HOL-Library.List_Lexorder" "HOL-Library.Char_ord"
begin

text \<open>
  Key pinning (\<open>common/src/trust.rs\<close>), the certificate verifiers of both sides
  (\<open>client/src/verify.rs\<close>, \<open>server/src/verify.rs\<close>) and the stored identity
  (\<open>common/src/identity.rs\<close>), and the configuration directory they live in. X.509 parsing, SHA-256, base64 and key generation are the record
  \<open>crypto\<close>; the calls of \<open>std::fs\<close> on configuration files are the record \<open>files\<close>. A \<open>BTreeMap\<close>
  is an association list sorted by key, in the byte order of Rust strings.
\<close>

record crypto =
  cr_spki :: "bytes \<Rightarrow> string + bytes"
  cr_sha256 :: "bytes \<Rightarrow> bytes"
  cr_base64 :: "bytes \<Rightarrow> string"
  cr_base64_decode :: "string \<Rightarrow> bytes option"
  cr_generate :: "string \<Rightarrow> string \<Rightarrow> anyhow + string \<times> string"

record 'fs files =
  uf_exists :: "'fs \<Rightarrow> string \<Rightarrow> bool"
  uf_read_to_string :: "'fs \<Rightarrow> string \<Rightarrow> io_error + string"
  uf_create_dir_all :: "string \<Rightarrow> 'fs \<Rightarrow> (io_error + unit) \<times> 'fs"
  uf_set_permissions :: "string \<Rightarrow> u32 \<Rightarrow> 'fs \<Rightarrow> (io_error + unit) \<times> 'fs"
  uf_write :: "string \<Rightarrow> string \<Rightarrow> 'fs \<Rightarrow> (io_error + unit) \<times> 'fs"
  uf_open_trunc :: "string \<Rightarrow> u32 \<Rightarrow> 'fs \<Rightarrow> (io_error + nat) \<times> 'fs"
  uf_fchmod :: "nat \<Rightarrow> u32 \<Rightarrow> 'fs \<Rightarrow> (io_error + unit) \<times> 'fs"
  uf_write_fd :: "nat \<Rightarrow> string \<Rightarrow> 'fs \<Rightarrow> (io_error + unit) \<times> 'fs"

section \<open>Fingerprints\<close>

definition fingerprint_of_spki :: "crypto \<Rightarrow> bytes \<Rightarrow> string" where
  "fingerprint_of_spki cr spki_der = ''SHA256:'' @ cr_base64 cr (cr_sha256 cr spki_der)"

definition cert_fingerprint :: "crypto \<Rightarrow> bytes \<Rightarrow> anyhow + string" where
  "cert_fingerprint cr cert_der =
     (case cr_spki cr cert_der of
        Inl e \<Rightarrow> Inl (''parse cert: '' @ e)
      | Inr spki \<Rightarrow> Inr (fingerprint_of_spki cr spki))"

definition parse_fingerprint :: "(string \<Rightarrow> string) \<Rightarrow> string \<Rightarrow> anyhow + string" where
  "parse_fingerprint debug s =
     (let s = trim_str s
      in if \<not> starts_with ''SHA256:'' s \<or> length s < length ''SHA256:'' + 10
         then Inl (''not a valid SHA256 fingerprint: '' @ debug s)
         else Inr s)"

section \<open>The configuration directory\<close>

text \<open>\<open>QUICFS_HOME\<close> and the directories that \<open>dirs::config_dir\<close> and \<open>dirs::home_dir\<close> find.\<close>

record host_env =
  he_quicfs_home :: "string option"
  he_config_dir :: "string option"
  he_home_dir :: "string option"

definition config_dir :: "host_env \<Rightarrow> anyhow + string" where
  "config_dir he =
     (case he_quicfs_home he of
        Some custom \<Rightarrow> Ok custom
      | None \<Rightarrow>
          (case (case he_config_dir he of Some d \<Rightarrow> Some d | None \<Rightarrow> he_home_dir he) of
             Some base \<Rightarrow> Ok (path_push base ''quicfs'')
           | None \<Rightarrow> Err ''cannot determine config directory''))"

definition known_hosts_default_path :: "host_env \<Rightarrow> anyhow + string" where
  "known_hosts_default_path he =
     (case config_dir he of Inl e \<Rightarrow> Err e | Inr d \<Rightarrow> Ok (path_push d ''known_hosts''))"

section \<open>Sorted maps\<close>

fun bt_insert :: "string \<Rightarrow> 'v \<Rightarrow> (string \<times> 'v) list \<Rightarrow> (string \<times> 'v) list" where
  "bt_insert k v [] = [(k, v)]"
| "bt_insert k v ((k', v') # m) =
     (if k < k' then (k, v) # (k', v') # m
      else if k = k' then (k, v) # m
      else (k', v') # bt_insert k v m)"

definition bt_ok :: "(string \<times> 'v) list \<Rightarrow> bool" where
  "bt_ok m = sorted_wrt (<) (map fst m)"

section \<open>known\_hosts\<close>

record KnownHosts =
  kh_path :: string
  kh_entries :: "(string \<times> string) list"

definition kh_line :: "string \<Rightarrow> (string \<times> string) list \<Rightarrow> (string \<times> string) list" where
  "kh_line raw entries =
     (let line = trim_str raw
      in if line = [] \<or> starts_with ''#'' line then entries
         else case split_whitespace line of
                host # fp # _ \<Rightarrow> bt_insert host fp entries
              | _ \<Rightarrow> entries)"

definition known_hosts_load :: "'fs files \<Rightarrow> 'fs \<Rightarrow> string \<Rightarrow> anyhow + KnownHosts" where
  "known_hosts_load uf fs path =
     (if uf_exists uf fs path
      then case uf_read_to_string uf fs path of
             Inl _ \<Rightarrow> Inl (''read known_hosts: '' @ to_string_lossy path)
           | Inr txt \<Rightarrow> Inr \<lparr>kh_path = path, kh_entries = fold kh_line (str_lines txt) []\<rparr>
      else Inr \<lparr>kh_path = path, kh_entries = []\<rparr>)"

definition known_hosts_get :: "KnownHosts \<Rightarrow> string \<Rightarrow> string option" where
  "known_hosts_get kh hostport = map_of (kh_entries kh) hostport"

definition known_hosts_insert :: "string \<Rightarrow> string \<Rightarrow> KnownHosts \<Rightarrow> KnownHosts" where
  "known_hosts_insert hostport fingerprint kh =
     kh\<lparr>kh_entries := bt_insert hostport fingerprint (kh_entries kh)\<rparr>"

definition ensure_dir :: "'fs files \<Rightarrow> string \<Rightarrow> 'fs \<Rightarrow> (anyhow + unit) \<times> 'fs" where
  "ensure_dir uf dir fs =
     (case uf_create_dir_all uf dir fs of
        (Inl _, fs1) \<Rightarrow> (Inl (''create dir: '' @ to_string_lossy dir), fs1)
      | (Inr _, fs1) \<Rightarrow> (Inr (), snd (uf_set_permissions uf dir 0x1C0 fs1)))"

definition set_mode :: "'fs files \<Rightarrow> string \<Rightarrow> u32 \<Rightarrow> 'fs \<Rightarrow> 'fs" where
  "set_mode uf path mode fs = snd (uf_set_permissions uf path mode fs)"

text \<open>Create the parent, write the text, set the mode: the common end of both \<open>save\<close> methods.\<close>

definition save_text ::
  "'fs files \<Rightarrow> string \<Rightarrow> string \<Rightarrow> string \<Rightarrow> u32 \<Rightarrow> 'fs \<Rightarrow> (anyhow + unit) \<times> 'fs" where
  "save_text uf what path out mode =
     andthen (\<lambda>fs. case path_parent path of Some parent \<Rightarrow> ensure_dir uf parent fs | None \<Rightarrow> (Inr (), fs))
       (\<lambda>_ fs. case uf_write uf path out fs of
          (Inl _, fs1) \<Rightarrow> (Inl (what @ to_string_lossy path), fs1)
        | (Inr _, fs1) \<Rightarrow> (Inr (), set_mode uf path mode fs1))"

definition known_hosts_text :: "(string \<times> string) list \<Rightarrow> string" where
  "known_hosts_text entries =
     ''# QuicFS known hosts - managed by quicfs, edit with care'' @ [CHR 0x0A] @
     concat (map (\<lambda>(host, fp). host @ '' '' @ fp @ [CHR 0x0A]) entries)"

definition known_hosts_save :: "'fs files \<Rightarrow> KnownHosts \<Rightarrow> 'fs \<Rightarrow> (anyhow + unit) \<times> 'fs" where
  "known_hosts_save uf kh =
     save_text uf ''write known_hosts: '' (kh_path kh) (known_hosts_text (kh_entries kh)) 0x180"

section \<open>authorized\_keys\<close>

record AuthorizedKeys =
  ak_path :: string
  ak_fingerprints :: "(string \<times> string) list"

definition ak_line :: "string \<Rightarrow> (string \<times> string) list \<Rightarrow> (string \<times> string) list" where
  "ak_line raw fingerprints =
     (let line = trim_str raw
      in if line = [] \<or> starts_with ''#'' line then fingerprints
         else case splitn2_ws line of
                (fp, rest) \<Rightarrow>
                  bt_insert fp (trim_str (case rest of Some c \<Rightarrow> c | None \<Rightarrow> [])) fingerprints)"

definition authorized_keys_load :: "'fs files \<Rightarrow> 'fs \<Rightarrow> string \<Rightarrow> anyhow + AuthorizedKeys" where
  "authorized_keys_load uf fs path =
     (if uf_exists uf fs path
      then case uf_read_to_string uf fs path of
             Inl _ \<Rightarrow> Inl (''read authorized_keys: '' @ to_string_lossy path)
           | Inr txt \<Rightarrow> Inr \<lparr>ak_path = path, ak_fingerprints = fold ak_line (str_lines txt) []\<rparr>
      else Inr \<lparr>ak_path = path, ak_fingerprints = []\<rparr>)"

definition authorized_is_empty :: "AuthorizedKeys \<Rightarrow> bool" where
  "authorized_is_empty ak = (ak_fingerprints ak = [])"

definition authorized_contains :: "AuthorizedKeys \<Rightarrow> string \<Rightarrow> bool" where
  "authorized_contains ak fingerprint = (map_of (ak_fingerprints ak) fingerprint \<noteq> None)"

definition authorized_keys_text :: "(string \<times> string) list \<Rightarrow> string" where
  "authorized_keys_text fingerprints =
     ''# QuicFS authorized client keys'' @ [CHR 0x0A] @
     concat (map (\<lambda>(fp, comment). fp @ (if comment = [] then [] else '' '' @ comment) @ [CHR 0x0A]) fingerprints)"

definition authorized_keys_save :: "'fs files \<Rightarrow> AuthorizedKeys \<Rightarrow> 'fs \<Rightarrow> (anyhow + unit) \<times> 'fs" where
  "authorized_keys_save uf ak =
     save_text uf ''write authorized_keys: '' (ak_path ak) (authorized_keys_text (ak_fingerprints ak)) 0x1A4"

definition authorize ::
  "'fs files \<Rightarrow> string \<Rightarrow> string \<Rightarrow> AuthorizedKeys \<Rightarrow> 'fs \<Rightarrow> (anyhow + unit) \<times> AuthorizedKeys \<times> 'fs" where
  "authorize uf fingerprint comment ak fs =
     (let ak1 = ak\<lparr>ak_fingerprints := bt_insert fingerprint comment (ak_fingerprints ak)\<rparr>
      in case authorized_keys_save uf ak1 fs of (r, fs1) \<Rightarrow> (r, ak1, fs1))"

section \<open>Verifiers\<close>

text \<open>The server's verifier of client certificates; the error is the text of \<open>TlsError::General\<close>.\<close>

definition client_auth_mandatory :: bool where
  "client_auth_mandatory = True"

definition verify_client_cert :: "crypto \<Rightarrow> AuthorizedKeys \<Rightarrow> bool \<Rightarrow> bytes \<Rightarrow> string + unit" where
  "verify_client_cert cr authorized allow_any end_entity =
     (case cert_fingerprint cr end_entity of
        Inl e \<Rightarrow> Inl (''fingerprint client cert: '' @ e)
      | Inr fp \<Rightarrow>
          if authorized_contains authorized fp then Inr ()
          else if authorized_is_empty authorized \<and> allow_any then Inr ()
          else Inl ''client key not authorized'')"

text \<open>The client's verifier of server certificates; the second result is the capture slot.\<close>

datatype PinMode = Capture | Enforce string

definition verify_server_cert ::
  "crypto \<Rightarrow> PinMode \<Rightarrow> bytes \<Rightarrow> string option \<Rightarrow> (string + unit) \<times> string option" where
  "verify_server_cert cr mode end_entity sink =
     (case cert_fingerprint cr end_entity of
        Inl e \<Rightarrow> (Inl (''fingerprint server cert: '' @ e), sink)
      | Inr fp \<Rightarrow>
          (case mode of
             Capture \<Rightarrow> (Inr (), Some fp)
           | Enforce expected \<Rightarrow>
               if fp = expected then (Inr (), sink)
               else (Inl (''server key fingerprint mismatch: expected '' @ expected @ '', got '' @ fp), sink)))"

section \<open>Identity\<close>

record Identity =
  id_cert_pem :: string
  id_key_pem :: string
  id_fingerprint :: string

definition rustls_pemfile_first_cert :: "crypto \<Rightarrow> string \<Rightarrow> anyhow + bytes" where
  "rustls_pemfile_first_cert cr pem =
     (case find_str ''-----BEGIN CERTIFICATE-----'' pem of
        None \<Rightarrow> Inl ''no CERTIFICATE block in PEM''
      | Some start \<Rightarrow>
          (let rest = drop (start + length ''-----BEGIN CERTIFICATE-----'') pem
           in case find_str ''-----END CERTIFICATE-----'' rest of
                None \<Rightarrow> Inl ''unterminated CERTIFICATE block''
              | Some n \<Rightarrow>
                  ok_or (cr_base64_decode cr (concat (split_whitespace (take n rest)))) ''base64-decode certificate''))"

definition fingerprint_of_pem :: "crypto \<Rightarrow> string \<Rightarrow> anyhow + string" where
  "fingerprint_of_pem cr cert_pem =
     (case rustls_pemfile_first_cert cr cert_pem of Inl e \<Rightarrow> Inl e | Inr der \<Rightarrow> cert_fingerprint cr der)"

definition is_ascii_alphanumeric :: "char \<Rightarrow> bool" where
  "is_ascii_alphanumeric c =
     list_ex (\<lambda>(lo, hi). lo \<le> c \<and> c \<le> hi)
       [(CHR ''0'', CHR ''9''), (CHR ''A'', CHR ''Z''), (CHR ''a'', CHR ''z'')]"

text \<open>\<open>generate\<close>: key generation and self-signing, from the alternative name and the common name, are
  the parameter \<open>cr_generate\<close>.\<close>

definition identity_generate :: "crypto \<Rightarrow> string \<Rightarrow> anyhow + Identity" where
  "identity_generate cr common_name =
     (let san = (if list_all (\<lambda>c. is_ascii_alphanumeric c \<or> c = CHR ''-'' \<or> c = CHR ''.'') common_name
                 then common_name else ''quicfs'')
      in case cr_generate cr san common_name of
           Inl e \<Rightarrow> Inl e
         | Inr (cert_pem, key_pem) \<Rightarrow>
             (case fingerprint_of_pem cr cert_pem of
                Inl e \<Rightarrow> Inl e
              | Inr fp \<Rightarrow> Inr \<lparr>id_cert_pem = cert_pem, id_key_pem = key_pem, id_fingerprint = fp\<rparr>))"

text \<open>\<open>write_key\<close>: open (mode 0600), enforce 0600, only then write.\<close>

definition write_key :: "'fs files \<Rightarrow> string \<Rightarrow> string \<Rightarrow> 'fs \<Rightarrow> (io_error + unit) \<times> 'fs" where
  "write_key uf path pem =
     andthen (uf_open_trunc uf path 0x180)
       (\<lambda>f. andthen (uf_fchmod uf f 0x180) (\<lambda>_. uf_write_fd uf f pem))"

definition parent_dir :: "'fs files \<Rightarrow> string \<Rightarrow> 'fs \<Rightarrow> (anyhow + unit) \<times> 'fs" where
  "parent_dir uf path fs =
     (case path_parent path of Some parent \<Rightarrow> ensure_dir uf parent fs | None \<Rightarrow> (Inr (), fs))"

text \<open>Store a generated identity: both parent directories, the certificate, the key.\<close>

definition store_identity ::
  "'fs files \<Rightarrow> string \<Rightarrow> string \<Rightarrow> Identity \<Rightarrow> 'fs \<Rightarrow> (anyhow + Identity) \<times> 'fs" where
  "store_identity uf cert_path key_path idn =
     andthen (parent_dir uf cert_path) (\<lambda>_.
     andthen (parent_dir uf key_path) (\<lambda>_.
     andthen (\<lambda>fs. case uf_write uf cert_path (id_cert_pem idn) fs of
                     (Inl _, fs1) \<Rightarrow> (Inl (''write cert: '' @ to_string_lossy cert_path), fs1)
                   | (Inr _, fs1) \<Rightarrow> (Inr (), fs1)) (\<lambda>_ fs.
     case write_key uf key_path (id_key_pem idn) fs of
       (Inl _, fs1) \<Rightarrow> (Inl (''write key: '' @ to_string_lossy key_path), fs1)
     | (Inr _, fs1) \<Rightarrow> (Inr idn, fs1))))"

definition load_or_generate_at ::
  "crypto \<Rightarrow> 'fs files \<Rightarrow> string \<Rightarrow> string \<Rightarrow> string \<Rightarrow> 'fs \<Rightarrow> (anyhow + Identity) \<times> 'fs" where
  "load_or_generate_at cr uf cert_path key_path common_name fs =
     (if uf_exists uf fs cert_path \<and> uf_exists uf fs key_path
      then (case uf_read_to_string uf fs cert_path of
              Inl _ \<Rightarrow> Inl (''read cert: '' @ to_string_lossy cert_path)
            | Inr cert_pem \<Rightarrow>
                (case uf_read_to_string uf fs key_path of
                   Inl _ \<Rightarrow> Inl (''read key: '' @ to_string_lossy key_path)
                 | Inr key_pem \<Rightarrow>
                     (case fingerprint_of_pem cr cert_pem of
                        Inl e \<Rightarrow> Inl e
                      | Inr fp \<Rightarrow> Inr \<lparr>id_cert_pem = cert_pem, id_key_pem = key_pem, id_fingerprint = fp\<rparr>)), fs)
      else case identity_generate cr common_name of
             Inl e \<Rightarrow> (Inl e, fs)
           | Inr idn \<Rightarrow> store_identity uf cert_path key_path idn fs)"

definition load_or_generate ::
  "crypto \<Rightarrow> 'fs files \<Rightarrow> string \<Rightarrow> string \<Rightarrow> string \<Rightarrow> 'fs \<Rightarrow> (anyhow + Identity) \<times> 'fs" where
  "load_or_generate cr uf dir name common_name =
     load_or_generate_at cr uf (path_push dir (name @ ''.crt'')) (path_push dir (name @ ''.key'')) common_name"

section \<open>Lemmas\<close>

lemma map_of_bt_insert: "map_of (bt_insert k v m) = (map_of m)(k \<mapsto> v)"
  by (induction k v m rule: bt_insert.induct) (auto simp: fun_eq_iff)

lemma set_fst_bt_insert: "set (map fst (bt_insert k v m)) = insert k (set (map fst m))"
  by (induction k v m rule: bt_insert.induct) auto

lemma set_bt_insert_subset: "set (bt_insert k v m) \<subseteq> insert (k, v) (set m)"
  by (induction k v m rule: bt_insert.induct) auto

lemma bt_ok_insert [inv_intros]: "bt_ok m \<Longrightarrow> bt_ok (bt_insert k v m)"
proof (induction k v m rule: bt_insert.induct)
  case (2 k v k' v' m)
  then show ?case
    using set_fst_bt_insert [of k v m] by (fastforce simp: bt_ok_def)
qed (simp add: bt_ok_def)

lemma bt_insert_last: "\<forall>x\<in>set (map fst m). x < k \<Longrightarrow> bt_insert k v m = m @ [(k, v)]"
  by (induction k v m rule: bt_insert.induct) (auto dest: less_imp_not_less)

text \<open>Inserting the entries of a sorted map in order rebuilds it.\<close>

lemma fold_bt_insert:
  "bt_ok (acc @ m) \<Longrightarrow> fold (\<lambda>(k, v). bt_insert k v) m acc = acc @ m"
proof (induction m arbitrary: acc)
  case (Cons e m)
  obtain k v where e: "e = (k, v)" by fastforce
  have "bt_insert k v acc = acc @ [(k, v)]"
    using Cons.prems e by (intro bt_insert_last) (auto simp: bt_ok_def sorted_wrt_append)
  then show ?case using Cons e by simp
qed simp

lemma bt_ok_fold: "(\<And>x m. bt_ok m \<Longrightarrow> bt_ok (f x m)) \<Longrightarrow> bt_ok m \<Longrightarrow> bt_ok (fold f xs m)"
  by (induction xs arbitrary: m) auto

text \<open>Loading always gives a sorted map.\<close>

lemma bt_ok_kh_line: "bt_ok m \<Longrightarrow> bt_ok (kh_line l m)"
  by (auto simp: kh_line_def Let_def intro: inv_intros split: list.split)

lemma bt_ok_ak_line: "bt_ok m \<Longrightarrow> bt_ok (ak_line l m)"
  by (auto simp: ak_line_def Let_def intro: inv_intros split: prod.split)

text \<open>Entries as the program makes them: words of printing characters that do not look like a
  comment line; a comment begins and ends with a printing character and stays on its line.\<close>

definition key_word :: "string \<Rightarrow> bool" where
  "key_word w = (graphic_word w \<and> hd w \<noteq> CHR ''#'')"

definition ascii_text :: "string \<Rightarrow> bool" where
  "ascii_text s = list_all (\<lambda>c. of_char c < (0x80 :: nat)) s"

definition comment_ok :: "string \<Rightarrow> bool" where
  "comment_ok c = (c = [] \<or> graphic (hd c) \<and> graphic (last c) \<and> CHR 0x0A \<notin> set c \<and> ascii_text c)"

lemma graphic_word_ascii: "graphic_word w \<Longrightarrow> ascii_text w"
  by (auto simp: graphic_word_def ascii_text_def list_all_iff graphic_def)

lemma kh_line_entry:
  assumes "key_word h" and "graphic_word f"
  shows "kh_line (h @ CHR '' '' # f) m = bt_insert h f m"
proof -
  have ne: "h \<noteq> []" "f \<noteq> []" using assms by (simp_all add: key_word_def graphic_word_def)
  have "trim_str (h @ CHR '' '' # f) = h @ CHR '' '' # f"
    using assms ne graphic_word_ends [of h] graphic_word_ends [of f]
    by (intro trim_str_graphic) (simp_all add: key_word_def)
  moreover have "\<not> starts_with ''#'' (h @ CHR '' '' # f)"
    using assms ne by (cases h) (auto simp: key_word_def starts_with_def)
  ultimately show ?thesis
    using assms ne split_whitespace_two [of h f] by (simp add: kh_line_def key_word_def)
qed

lemma kh_line_comment: "kh_line ''# QuicFS known hosts - managed by quicfs, edit with care'' m = m"
proof -
  have "trim_str ''# QuicFS known hosts - managed by quicfs, edit with care'' =
      ''# QuicFS known hosts - managed by quicfs, edit with care''"
    by (rule trim_str_graphic) (simp_all add: graphic_def)
  then show ?thesis by (simp add: kh_line_def starts_with_def)
qed

lemma fold_kh_lines:
  "list_all (\<lambda>(h, f). key_word h \<and> graphic_word f) es \<Longrightarrow>
   fold kh_line (map (\<lambda>(h, f). h @ CHR '' '' # f) es) m = fold (\<lambda>(k, v). bt_insert k v) es m"
  by (induction es arbitrary: m) (auto simp: kh_line_entry)

lemma parse_known_hosts_text:
  assumes ok: "bt_ok es" and es: "list_all (\<lambda>(h, f). key_word h \<and> graphic_word f) es"
  shows "fold kh_line (str_lines (known_hosts_text es)) [] = es"
proof -
  define ls where "ls = ''# QuicFS known hosts - managed by quicfs, edit with care'' #
    map (\<lambda>(h, f). h @ CHR '' '' # f) es"
  have text_eq: "known_hosts_text es = concat (map (\<lambda>l. l @ [CHR 0x0A]) ls)"
    by (simp add: known_hosts_text_def ls_def comp_def case_prod_unfold)
  have nolf: "\<forall>l\<in>set ls. CHR 0x0A \<notin> set l"
    using es graphic_word_ends by (auto simp: ls_def key_word_def list_all_iff)
  have "strip_cr l = l" if "l \<in> set ls" for l
    using that es graphic_word_ends
    by (intro strip_cr_graphic) (auto simp: ls_def list_all_iff graphic_word_def graphic_def)
  then have "map strip_cr ls = ls" by (simp add: map_idI)
  then have "str_lines (known_hosts_text es) = ls"
    unfolding text_eq str_lines_concat [OF nolf] .
  then show ?thesis
    using fold_kh_lines [OF es] fold_bt_insert [of "[]" es] ok
    by (simp add: ls_def kh_line_comment)
qed

lemma ak_line_entry:
  assumes "key_word f" and "comment_ok c"
  shows "ak_line (f @ (if c = [] then [] else CHR '' '' # c)) m = bt_insert f c m"
proof -
  define l where "l = f @ (if c = [] then [] else CHR '' '' # c)"
  have ne: "f \<noteq> []" and f: "list_all graphic f"
    using assms by (simp_all add: key_word_def graphic_word_def)
  have "graphic (hd l)" "graphic (last l)" "l \<noteq> []"
    using assms ne graphic_word_ends [of f] by (auto simp: l_def key_word_def comment_ok_def)
  then have "trim_str l = l" by (intro trim_str_graphic)
  moreover have "\<not> starts_with ''#'' l"
    using assms ne by (cases f) (auto simp: l_def key_word_def starts_with_def)
  moreover have "trim_str c = c"
    using assms(2) by (cases "c = []") (auto simp: comment_ok_def intro: trim_str_graphic)
  moreover have "splitn2_ws l = (f, if c = [] then None else Some c)"
    using f by (simp add: l_def splitn2_ws_word splitn2_ws_space)
  ultimately show ?thesis
    unfolding l_def [symmetric] using \<open>l \<noteq> []\<close> by (simp add: ak_line_def)
qed

lemma ak_line_comment: "ak_line ''# QuicFS authorized client keys'' m = m"
proof -
  have "trim_str ''# QuicFS authorized client keys'' = ''# QuicFS authorized client keys''"
    by (rule trim_str_graphic) (simp_all add: graphic_def)
  then show ?thesis by (simp add: ak_line_def starts_with_def)
qed

lemma fold_ak_lines:
  "list_all (\<lambda>(f, c). key_word f \<and> comment_ok c) es \<Longrightarrow>
   fold ak_line (map (\<lambda>(f, c). f @ (if c = [] then [] else CHR '' '' # c)) es) m =
   fold (\<lambda>(k, v). bt_insert k v) es m"
proof (induction es arbitrary: m)
  case (Cons e es)
  obtain f c where e: "e = (f, c)" by fastforce
  then show ?case using Cons ak_line_entry [of f c m] by simp
qed simp

lemma parse_authorized_keys_text:
  assumes ok: "bt_ok es" and es: "list_all (\<lambda>(f, c). key_word f \<and> comment_ok c) es"
  shows "fold ak_line (str_lines (authorized_keys_text es)) [] = es"
proof -
  define ls where "ls = ''# QuicFS authorized client keys'' #
    map (\<lambda>(f, c). f @ (if c = [] then [] else CHR '' '' # c)) es"
  have text_eq: "authorized_keys_text es = concat (map (\<lambda>l. l @ [CHR 0x0A]) ls)"
    by (simp add: authorized_keys_text_def ls_def comp_def case_prod_unfold cong: if_cong)
  have nolf: "\<forall>l\<in>set ls. CHR 0x0A \<notin> set l"
    using es graphic_word_ends by (auto simp: ls_def key_word_def comment_ok_def list_all_iff)
  have "strip_cr l = l" if "l \<in> set ls" for l
    using that es graphic_word_ends
    by (intro strip_cr_graphic)
      (auto simp: ls_def list_all_iff key_word_def comment_ok_def graphic_word_def graphic_def)
  then have "map strip_cr ls = ls" by (simp add: map_idI)
  then have "str_lines (authorized_keys_text es) = ls"
    unfolding text_eq str_lines_concat [OF nolf] .
  then show ?thesis
    using fold_ak_lines [OF es] fold_bt_insert [of "[]" es] ok
    by (simp add: ls_def ak_line_comment)
qed

section \<open>Round trips through the file system\<close>

text \<open>What \<open>std::fs\<close> promises of a configuration file: text that was written is read back, and
  changing a mode that keeps the owner's read bit changes no contents.\<close>

definition files_ok :: "'fs files \<Rightarrow> bool" where
  "files_ok uf =
     ((\<forall>p t fs fs'. uf_write uf p t fs = (Inr (), fs') \<and> utf8_valid t \<longrightarrow>
         uf_exists uf fs' p \<and> uf_read_to_string uf fs' p = Inr t) \<and>
      (\<forall>p q m fs. m AND 0x100 = 0x100 \<longrightarrow>
         uf_exists uf (snd (uf_set_permissions uf q m fs)) p = uf_exists uf fs p \<and>
         uf_read_to_string uf (snd (uf_set_permissions uf q m fs)) p = uf_read_to_string uf fs p))"

lemma save_text_read:
  assumes uf: "files_ok uf" and "utf8_valid out" and "mode AND 0x100 = 0x100"
    and save: "save_text uf what path out mode fs = (Inr (), fs')"
  shows "uf_exists uf fs' path" and "uf_read_to_string uf fs' path = Inr out"
proof -
  from save obtain fs1 fs2 where w: "uf_write uf path out fs1 = (Inr (), fs2)"
    and fs': "fs' = set_mode uf path mode fs2"
    unfolding save_text_def by (elim andthen_eq_OkE) (auto split: prod.splits sum.splits)
  show "uf_exists uf fs' path" and "uf_read_to_string uf fs' path = Inr out"
    using uf w assms(2,3) by (auto simp: files_ok_def fs' set_mode_def)
qed

lemma ascii_utf8: "ascii_text s \<Longrightarrow> utf8_valid s"
  by (rule utf8_valid_ascii) (simp add: ascii_text_def list_all_iff)

lemma ascii_text_append [simp]: "ascii_text (a @ b) \<longleftrightarrow> ascii_text a \<and> ascii_text b"
  by (simp add: ascii_text_def)

lemma ascii_text_simps [simp]:
  "ascii_text []" "ascii_text (x # s) \<longleftrightarrow> of_char x < (0x80 :: nat) \<and> ascii_text s"
  by (simp_all add: ascii_text_def)

lemma ascii_known_hosts_text:
  "list_all (\<lambda>(h, f). key_word h \<and> graphic_word f) es \<Longrightarrow> ascii_text (known_hosts_text es)"
proof (induction es)
  case (Cons e es)
  then show ?case
    by (cases e) (auto simp: known_hosts_text_def key_word_def dest!: graphic_word_ascii)
qed (simp add: known_hosts_text_def)

lemma ascii_authorized_keys_text:
  "list_all (\<lambda>(f, c). key_word f \<and> comment_ok c) es \<Longrightarrow> ascii_text (authorized_keys_text es)"
proof (induction es)
  case (Cons e es)
  then show ?case
    by (cases e)
      (auto simp: authorized_keys_text_def key_word_def comment_ok_def dest!: graphic_word_ascii)
qed (simp add: authorized_keys_text_def)

lemma known_hosts_save_load:
  assumes "files_ok uf" and "bt_ok (kh_entries kh)"
    and "list_all (\<lambda>(h, f). key_word h \<and> graphic_word f) (kh_entries kh)"
    and "known_hosts_save uf kh fs = (Inr (), fs')"
  shows "known_hosts_load uf fs' (kh_path kh) = Inr kh"
  using save_text_read [OF assms(1) ascii_utf8 [OF ascii_known_hosts_text [OF assms(3)]] _
      assms(4) [unfolded known_hosts_save_def]]
    parse_known_hosts_text [OF assms(2,3)]
  by (simp add: known_hosts_load_def)

text \<open>C29: Saving \<open>known_hosts\<close> and loading the file again gives the same pins: every pin that was
  made is enforced after a restart, and none appears from nowhere. The hypotheses are what
  \<open>std::fs\<close> promises and that hosts and fingerprints are words of printing characters.\<close>

theorem known_hosts_roundtrip:
  assumes "files_ok uf" and "bt_ok (kh_entries kh)"
    and "list_all (\<lambda>(h, f). key_word h \<and> graphic_word f) (kh_entries kh)"
    and "known_hosts_save uf kh fs = (Inr (), fs')"
  shows "known_hosts_load uf fs' (kh_path kh) = Inr kh"
  using assms by (rule known_hosts_save_load)

text \<open>A file system that keeps its files in a map and the path of one open file, for the witnesses.\<close>

definition mem_files :: "((string \<rightharpoonup> string) \<times> string) files" where
  "mem_files =
     \<lparr>uf_exists = (\<lambda>(fs, _) p. fs p \<noteq> None),
      uf_read_to_string = (\<lambda>(fs, _) p. ok_or (fs p) (OsError ENOENT)),
      uf_create_dir_all = (\<lambda>_ fs. (Inr (), fs)),
      uf_set_permissions = (\<lambda>_ _ fs. (Inr (), fs)),
      uf_write = (\<lambda>p t (fs, f). (Inr (), (fs(p \<mapsto> t), f))),
      uf_open_trunc = (\<lambda>p _ (fs, _). (Inr 3, (fs(p \<mapsto> []), p))),
      uf_fchmod = (\<lambda>_ _ fs. (Inr (), fs)),
      uf_write_fd = (\<lambda>_ t (fs, f). (Inr (), (fs(f \<mapsto> t), f)))\<rparr>"

lemma files_ok_mem: "files_ok mem_files"
  by (auto simp: files_ok_def mem_files_def)

lemma save_text_mem:
  "save_text mem_files what path out mode (fs, f) = (Inr (), (fs(path \<mapsto> out), f))"
  by (auto simp: save_text_def mem_files_def ensure_dir_def set_mode_def andthen_def split: option.split)

theorem known_hosts_roundtrip_witness:
  "known_hosts_load mem_files
     (snd (known_hosts_save mem_files \<lparr>kh_path = ''/k'', kh_entries = [(''h:9001'', ''SHA256:abc'')]\<rparr> (Map.empty, []))) ''/k'' =
   Inr \<lparr>kh_path = ''/k'', kh_entries = [(''h:9001'', ''SHA256:abc'')]\<rparr>"
proof -
  let ?kh = "\<lparr>kh_path = ''/k'', kh_entries = [(''h:9001'', ''SHA256:abc'')]\<rparr>"
  have "known_hosts_save mem_files ?kh (Map.empty, []) =
      (Inr (), snd (known_hosts_save mem_files ?kh (Map.empty, [])))"
    by (simp add: known_hosts_save_def save_text_mem)
  with known_hosts_roundtrip [OF files_ok_mem, of ?kh] show ?thesis
    by (simp add: bt_ok_def key_word_def graphic_word_def graphic_def)
qed

lemma authorized_keys_save_load:
  assumes "files_ok uf" and "bt_ok (ak_fingerprints ak)"
    and "list_all (\<lambda>(f, c). key_word f \<and> comment_ok c) (ak_fingerprints ak)"
    and "authorized_keys_save uf ak fs = (Inr (), fs')"
  shows "authorized_keys_load uf fs' (ak_path ak) = Inr ak"
  using save_text_read [OF assms(1) ascii_utf8 [OF ascii_authorized_keys_text [OF assms(3)]] _
      assms(4) [unfolded authorized_keys_save_def]]
    parse_authorized_keys_text [OF assms(2,3)]
  by (simp add: authorized_keys_load_def)

section \<open>The verifiers\<close>


text \<open>The client accepts a server key in enforcing mode only if it is the pinned one, and in either
  mode only if the certificate parses.\<close>

lemma verify_server_cert_Ok:
  "verify_server_cert cr mode cert sink = (Inr (), sink') \<longleftrightarrow>
   (\<exists>fp. cert_fingerprint cr cert = Inr fp \<and>
      (case mode of Capture \<Rightarrow> sink' = Some fp | Enforce expected \<Rightarrow> fp = expected \<and> sink' = sink))"
  by (auto simp: verify_server_cert_def split: sum.splits PinMode.splits)

section \<open>The stored identity\<close>

text \<open>What \<open>std::fs\<close> promises of writing the key through a descriptor: the text is read back from
  the path that was opened, and a file at the other path keeps its contents.\<close>

definition key_write_ok :: "'fs files \<Rightarrow> string \<Rightarrow> string \<Rightarrow> bool" where
  "key_write_ok uf other path =
     (\<forall>t fs fs'. write_key uf path t fs = (Inr (), fs') \<and> utf8_valid t \<longrightarrow>
        uf_exists uf fs' path \<and> uf_read_to_string uf fs' path = Inr t \<and>
        uf_exists uf fs' other = uf_exists uf fs other \<and>
        uf_read_to_string uf fs' other = uf_read_to_string uf fs other)"

lemma identity_generate_fingerprint:
  "identity_generate cr cn = Inr idn \<Longrightarrow> fingerprint_of_pem cr (id_cert_pem idn) = Inr (id_fingerprint idn)"
  by (auto simp: identity_generate_def Let_def split: sum.splits prod.splits)

lemma write_context_Ok:
  "(case r of (Inl _, fs1) \<Rightarrow> (Inl msg, fs1) | (Inr _, fs1) \<Rightarrow> (Inr a, fs1)) = (Inr b, fs') \<longleftrightarrow>
   r = (Inr (), fs') \<and> b = a"
  by (cases r; cases "fst r") auto

lemma store_identity_Ok:
  assumes "store_identity uf cert_path key_path idn fs = (Inr idn', fs')"
  obtains fs1 fs2 where "uf_write uf cert_path (id_cert_pem idn) fs1 = (Inr (), fs2)"
    and "write_key uf key_path (id_key_pem idn) fs2 = (Inr (), fs')" and "idn' = idn"
proof -
  from assms obtain s1 where "andthen (parent_dir uf key_path) (\<lambda>_.
      andthen (\<lambda>fs. case uf_write uf cert_path (id_cert_pem idn) fs of
          (Inl _, fs1) \<Rightarrow> (Inl (''write cert: '' @ to_string_lossy cert_path), fs1)
        | (Inr _, fs1) \<Rightarrow> (Inr (), fs1)) (\<lambda>_ fs.
      case write_key uf key_path (id_key_pem idn) fs of
        (Inl _, fs1) \<Rightarrow> (Inl (''write key: '' @ to_string_lossy key_path), fs1)
      | (Inr _, fs1) \<Rightarrow> (Inr idn, fs1))) s1 = (Inr idn', fs')"
    unfolding store_identity_def by (rule andthen_eq_OkE)
  then obtain s2 where "andthen (\<lambda>fs. case uf_write uf cert_path (id_cert_pem idn) fs of
          (Inl _, fs1) \<Rightarrow> (Inl (''write cert: '' @ to_string_lossy cert_path), fs1)
        | (Inr _, fs1) \<Rightarrow> (Inr (), fs1)) (\<lambda>_ fs.
      case write_key uf key_path (id_key_pem idn) fs of
        (Inl _, fs1) \<Rightarrow> (Inl (''write key: '' @ to_string_lossy key_path), fs1)
      | (Inr _, fs1) \<Rightarrow> (Inr idn, fs1)) s2 = (Inr idn', fs')"
    by (rule andthen_eq_OkE)
  then show thesis
    by (rule andthen_eq_OkE) (unfold write_context_Ok, elim conjE, rule that)
qed

lemma load_or_generate_at_stored:
  assumes uf: "files_ok uf" "key_write_ok uf cert_path key_path"
    and "\<not> (uf_exists uf fs cert_path \<and> uf_exists uf fs key_path)"
    and gen: "identity_generate cr cn = Inr idn"
    and utf: "utf8_valid (id_cert_pem idn)" "utf8_valid (id_key_pem idn)"
    and run: "load_or_generate_at cr uf cert_path key_path cn fs = (Inr idn', fs')"
  shows "idn' = idn \<and> uf_exists uf fs' cert_path \<and> uf_exists uf fs' key_path \<and>
    uf_read_to_string uf fs' cert_path = Inr (id_cert_pem idn) \<and>
    uf_read_to_string uf fs' key_path = Inr (id_key_pem idn)"
proof -
  have "store_identity uf cert_path key_path idn fs = (Inr idn', fs')"
    using run assms(3) gen unfolding load_or_generate_at_def by simp
  then obtain fs1 fs2 where w: "uf_write uf cert_path (id_cert_pem idn) fs1 = (Inr (), fs2)"
    and k: "write_key uf key_path (id_key_pem idn) fs2 = (Inr (), fs')" and "idn' = idn"
    by (rule store_identity_Ok)
  moreover have "uf_exists uf fs2 cert_path" "uf_read_to_string uf fs2 cert_path = Inr (id_cert_pem idn)"
    using uf(1) w utf(1) by (auto simp: files_ok_def)
  moreover have "uf_exists uf fs' key_path \<and> uf_read_to_string uf fs' key_path = Inr (id_key_pem idn) \<and>
      uf_exists uf fs' cert_path = uf_exists uf fs2 cert_path \<and>
      uf_read_to_string uf fs' cert_path = uf_read_to_string uf fs2 cert_path"
    using uf(2) [unfolded key_write_ok_def] k utf(2) by blast
  ultimately show ?thesis by simp
qed


text \<open>A stand-in for the cryptographic library, for the witnesses: a certificate is its own key and
  the digest and the encodings are trivial.\<close>

definition toy_crypto :: crypto where
  "toy_crypto =
     \<lparr>cr_spki = (\<lambda>der. if der = [] then Inl ''empty'' else Inr der),
      cr_sha256 = id, cr_base64 = map (\<lambda>w. char_of (unat w)),
      cr_base64_decode = (\<lambda>s. Some (map (\<lambda>c. word_of_nat (of_char c)) s)),
      cr_generate = (\<lambda>san cn. Inr (''-----BEGIN CERTIFICATE-----abc-----END CERTIFICATE-----'', ''key''))\<rparr>"

lemma key_write_ok_mem: "p \<noteq> q \<Longrightarrow> key_write_ok mem_files p q"
  by (auto simp: key_write_ok_def mem_files_def write_key_def andthen_def)

lemma parent_dir_mem: "parent_dir mem_files p fs = (Inr (), fs)"
  by (simp add: parent_dir_def ensure_dir_def mem_files_def split: option.split)

lemma write_key_mem: "write_key mem_files p t (fs, f) = (Inr (), (fs(p \<mapsto> t), p))"
  by (simp add: write_key_def mem_files_def andthen_def)

lemma mem_files_simps:
  "uf_exists mem_files (fs, f) p \<longleftrightarrow> fs p \<noteq> None"
  "uf_write mem_files p t (fs, f) = (Inr (), (fs(p \<mapsto> t), f))"
  by (simp_all add: mem_files_def)


end
