(* ===== verification/Dispatch.thy ===== *)
theory Dispatch
  imports Ops_Data Trust
begin

text \<open>
  The handshake and ping (\<open>server/src/ops/ctrl.rs\<close>), the routing of a stream to its handler
  (\<open>server/src/dispatch.rs\<close>) and the life of a connection (\<open>server/src/lib.rs\<close>). The streams of a
  connection are given as a list and served one after the other; streams that overlap, and the deadline
  that drops a request half way, are the subject of \<open>Write_Serial\<close>, for write requests.
\<close>

section \<open>Control requests\<close>

definition MAX_CHUNK_SIZE :: u32 where "MAX_CHUNK_SIZE = 4 * 1024 * 1024"

definition supported_features :: "string list" where
  "supported_features = []"

text \<open>Two upper case hexadecimal digits, as \<open>{:02X}\<close> prints a byte.\<close>

definition hex_digit :: "nat \<Rightarrow> char" where
  "hex_digit n = (if n < 10 then char_of (48 + n) else char_of (55 + n))"

definition show_hex2 :: "u8 \<Rightarrow> string" where
  "show_hex2 b = [hex_digit (unat b div 16), hex_digit (unat b mod 16)]"

text \<open>The peer's certificates are what \<open>Connection::peer_identity\<close> returns.\<close>

definition extract_mtls_fingerprint :: "crypto \<Rightarrow> bytes list option \<Rightarrow> string option" where
  "extract_mtls_fingerprint cr peer =
     (case peer of
        Some (cert_der # _) \<Rightarrow> result_ok (cert_fingerprint cr cert_der)
      | _ \<Rightarrow> None)"

text \<open>Before there is a session the state is the two halves of the stream.\<close>

definition hs_reply ::
  "('w, 'r) env \<Rightarrow> HandshakeResponse \<Rightarrow> 'w \<times> 'r \<Rightarrow> (anyhow + unit) \<times> ('w \<times> 'r)" where
  "hs_reply env resp wr =
     (case encode (e_codec env) (R_Handshake resp) of
        Inl e \<Rightarrow> (Inl e, wr)
      | Inr encoded \<Rightarrow>
          (case write_frame (e_write_all env) encoded (fst wr) of
             (Inl e, w) \<Rightarrow> (Inl e, (w, snd wr))
           | (Inr _, w) \<Rightarrow> (case e_finish env w of (r, w1) \<Rightarrow> (r, (w1, snd wr)))))"

definition send_handshake_error ::
  "('w, 'r) env \<Rightarrow> u64 \<Rightarrow> Status \<Rightarrow> 'w \<times> 'r \<Rightarrow> (anyhow + unit) \<times> ('w \<times> 'r)" where
  "send_handshake_error env sq status =
     hs_reply env \<lparr>hsr_op = OP_HANDSHAKE, hsr_seq = sq, hsr_status = status_u8 status, hsr_version = 1,
       hsr_features = [], hsr_chunk_size = 0, hsr_server_id = [], hsr_export_root = []\<rparr>"

definition handshake_response :: "string \<Rightarrow> string \<Rightarrow> HandshakeRequest \<Rightarrow> HandshakeResponse" where
  "handshake_response export_root server_id req =
     \<lparr>hsr_op = OP_HANDSHAKE, hsr_seq = hsq_seq req, hsr_status = status_u8 St_Ok, hsr_version = 1,
      hsr_features = filter (\<lambda>f. f \<in> set supported_features) (hsq_features req),
      hsr_chunk_size = min (hsq_chunk_size req) MAX_CHUNK_SIZE, hsr_server_id = server_id,
      hsr_export_root = (case Option.bind (path_file_name export_root) to_str of
                           Some n \<Rightarrow> n | None \<Rightarrow> ''export'')\<rparr>"

definition handle_handshake ::
  "crypto \<Rightarrow> ('w, 'r) env \<Rightarrow> bytes list option \<Rightarrow> string \<Rightarrow> string \<Rightarrow> 'w \<times> 'r \<Rightarrow>
   (anyhow + ClientIdentity) \<times> ('w \<times> 'r)" where
  "handle_handshake cr env peer export_root server_id wr =
     (case read_frame (e_read_exact env) (snd wr) of
        (Inl e, r1) \<Rightarrow> (Inl e, (fst wr, r1))
      | (Inr raw, r1) \<Rightarrow>
          (let wr1 = (fst wr, r1)
           in case decode (dec_Envelope (e_codec env)) raw of
                Inl e \<Rightarrow> (Inl e, wr1)
              | Inr hdr \<Rightarrow>
                  if env_op hdr \<noteq> OP_HANDSHAKE
                  then (Inl (''expected Handshake (0xF0), got 0x'' @ show_hex2 (env_op hdr)), wr1)
                  else (case decode (dec_HandshakeRequest (e_codec env)) raw of
                          Inl e \<Rightarrow> (Inl e, wr1)
                        | Inr req \<Rightarrow>
                            if hsq_chunk_size req > MAX_CHUNK_SIZE
                            then andthen (send_handshake_error env (hsq_seq req) St_InvalidArg)
                                   (\<lambda>_ x. (Inl (''chunk_size '' @ show_nat (unat (hsq_chunk_size req)) @
                                      '' exceeds maximum '' @ show_nat (unat MAX_CHUNK_SIZE)), x)) wr1
                            else if hsq_auth_type req \<noteq> ''mtls''
                            then andthen (send_handshake_error env (hsq_seq req) St_Permission)
                                   (\<lambda>_ x. (Inl (''unsupported auth_type: '' @ hsq_auth_type req), x)) wr1
                            else let fingerprint = (case extract_mtls_fingerprint cr peer of
                                                      Some fp \<Rightarrow> fp | None \<Rightarrow> ''unknown'')
                                 in andthen (hs_reply env (handshake_response export_root server_id req))
                                      (\<lambda>_ x. (Inr (from_mtls_fingerprint fingerprint), x)) wr1)))"

definition handle_ping ::
  "('w, 'r) env \<Rightarrow> bytes \<Rightarrow> ('fs, 'w, 'r) srv \<Rightarrow> (anyhow + unit) \<times> ('fs, 'w, 'r) srv" where
  "handle_ping env raw =
     with_decoded (dec_PingRequest (e_codec env)) raw (\<lambda>req.
       reply_rec env (R_Ping \<lparr>pgr_op = OP_PING, pgr_seq = pgq_seq req, pgr_status = status_u8 St_Ok\<rparr>))"

section \<open>Dispatch\<close>

text \<open>The handler of an operation code. Only a write can fail to return: it reads until the client
  marks a frame as the last.\<close>

definition run_handler ::
  "'fs os \<Rightarrow> ('w, 'r) env \<Rightarrow> string \<Rightarrow> u8 \<Rightarrow> u64 \<Rightarrow> bytes \<Rightarrow> ('fs, 'w, 'r) srv \<Rightarrow>
   ((anyhow + unit) \<times> ('fs, 'w, 'r) srv) option" where
  "run_handler os env root op sq raw x =
     (if op = OP_PING then Some (handle_ping env raw x)
      else if op = OP_GET_ATTR then Some (handle_getattr os env root raw x)
      else if op = OP_SET_ATTR then Some (handle_setattr os env root raw x)
      else if op = OP_READ_DIR then Some (handle_readdir os env root raw x)
      else if op = OP_MKDIR then Some (handle_mkdir os env root raw x)
      else if op = OP_RMDIR then Some (handle_rmdir os env root raw x)
      else if op = OP_UNLINK then Some (handle_unlink os env root raw x)
      else if op = OP_RENAME then Some (handle_rename os env root raw x)
      else if op = OP_SYMLINK then Some (handle_symlink os env root raw x)
      else if op = OP_READLINK then Some (handle_readlink os env root raw x)
      else if op = OP_LINK then Some (handle_link os env root raw x)
      else if op = OP_STAT_FS then Some (handle_statfs os env root raw x)
      else if op = OP_OPEN then Some (handle_open os env root raw x)
      else if op = OP_RELEASE then Some (handle_release os env raw x)
      else if op = OP_READ then Some (handle_read os env raw x)
      else if op = OP_WRITE then handle_write os env raw x
      else if op = OP_CREATE then Some (handle_create os env root raw x)
      else if op = OP_FSYNC then Some (handle_fsync os env raw x)
      else Some (reply env (R_Status \<lparr>sr_op = op, sr_seq = sq, sr_status = status_u8 St_InvalidArg\<rparr>) x))"

lemma run_handler_simps:
  "run_handler os env root OP_PING sq raw x = Some (handle_ping env raw x)"
  "run_handler os env root OP_GET_ATTR sq raw x = Some (handle_getattr os env root raw x)"
  "run_handler os env root OP_SET_ATTR sq raw x = Some (handle_setattr os env root raw x)"
  "run_handler os env root OP_READ_DIR sq raw x = Some (handle_readdir os env root raw x)"
  "run_handler os env root OP_MKDIR sq raw x = Some (handle_mkdir os env root raw x)"
  "run_handler os env root OP_RMDIR sq raw x = Some (handle_rmdir os env root raw x)"
  "run_handler os env root OP_UNLINK sq raw x = Some (handle_unlink os env root raw x)"
  "run_handler os env root OP_RENAME sq raw x = Some (handle_rename os env root raw x)"
  "run_handler os env root OP_SYMLINK sq raw x = Some (handle_symlink os env root raw x)"
  "run_handler os env root OP_READLINK sq raw x = Some (handle_readlink os env root raw x)"
  "run_handler os env root OP_LINK sq raw x = Some (handle_link os env root raw x)"
  "run_handler os env root OP_STAT_FS sq raw x = Some (handle_statfs os env root raw x)"
  "run_handler os env root OP_OPEN sq raw x = Some (handle_open os env root raw x)"
  "run_handler os env root OP_RELEASE sq raw x = Some (handle_release os env raw x)"
  "run_handler os env root OP_READ sq raw x = Some (handle_read os env raw x)"
  "run_handler os env root OP_CREATE sq raw x = Some (handle_create os env root raw x)"
  "run_handler os env root OP_FSYNC sq raw x = Some (handle_fsync os env raw x)"
  "run_handler os env root OP_WRITE sq raw x = handle_write os env raw x"
  by (simp_all add: run_handler_def op_code_defs)

definition dispatch_inner ::
  "'fs os \<Rightarrow> ('w, 'r) env \<Rightarrow> string \<Rightarrow> ('fs, 'w, 'r) srv \<Rightarrow>
   ((anyhow + unit) \<times> ('fs, 'w, 'r) srv) option" where
  "dispatch_inner os env root x =
     (case recv_frame env x of
        (Inl e, x1) \<Rightarrow> Some (Inl e, x1)
      | (Inr raw, x1) \<Rightarrow>
          (let x2 = record_rx (length raw) x1
           in case decode (dec_Envelope (e_codec env)) raw of
                Inl e \<Rightarrow> Some (Inl e, x2)
              | Inr hdr \<Rightarrow> run_handler os env root (env_op hdr) (env_seq hdr) raw x2))"

text \<open>\<open>dispatch_stream\<close> only logs an error; the state carries on.\<close>

definition dispatch_stream ::
  "'fs os \<Rightarrow> ('w, 'r) env \<Rightarrow> string \<Rightarrow> 'w \<times> 'r \<Rightarrow> 'fs \<times> session \<Rightarrow> (('w \<times> 'r) \<times> 'fs \<times> session) option" where
  "dispatch_stream os env root wr fss =
     map_option (\<lambda>(_, x). ((x_send x, x_recv x), x_fs x, x_session x))
       (dispatch_inner os env root
          \<lparr>x_fs = fst fss, x_send = fst wr, x_recv = snd wr, x_session = snd fss\<rparr>)"

section \<open>A connection\<close>

record ConnLimits =
  cl_max_open_handles :: u32
  cl_rpc_timeout :: nat
  cl_sync_on_close :: bool
  cl_sync_metadata :: bool

definition conn_limits_default :: ConnLimits where
  "conn_limits_default = \<lparr>cl_max_open_handles = 8192, cl_rpc_timeout = 30000,
     cl_sync_on_close = False, cl_sync_metadata = False\<rparr>"

fun serve_streams ::
  "'fs os \<Rightarrow> ('w, 'r) env \<Rightarrow> string \<Rightarrow> ('w \<times> 'r) list \<Rightarrow> 'fs \<times> session \<Rightarrow>
   (('w \<times> 'r) list \<times> 'fs \<times> session) option" where
  "serve_streams os env root [] fss = Some ([], fss)"
| "serve_streams os env root (wr # wrs) fss =
     (case dispatch_stream os env root wr fss of
        None \<Rightarrow> None
      | Some (wr1, fss1) \<Rightarrow>
          map_option (\<lambda>(out, fss2). (wr1 # out, fss2)) (serve_streams os env root wrs fss1))"

text \<open>\<open>handle_connection\<close> from the first accepted stream on: the handshake, the session, the streams.\<close>

definition handle_connection ::
  "crypto \<Rightarrow> 'fs os \<Rightarrow> ('w, 'r) env \<Rightarrow> u128 \<times> u128 \<Rightarrow> bytes list option \<Rightarrow> string \<Rightarrow> string \<Rightarrow> ConnLimits \<Rightarrow>
   'w \<times> 'r \<Rightarrow> ('w \<times> 'r) list \<Rightarrow> 'fs \<Rightarrow>
   ((anyhow + session) \<times> ('w \<times> 'r) list \<times> 'fs) option" where
  "handle_connection cr os env uuids peer export_root server_id limits hs streams fs =
     (case handle_handshake cr env peer export_root server_id hs of
        (Inl e, hs1) \<Rightarrow> Some (Inl e, [hs1], fs)
      | (Inr identity, hs1) \<Rightarrow>
          (let session = session_new (fst uuids) (snd uuids) identity [] (cl_max_open_handles limits)
                 (cl_sync_on_close limits) (cl_sync_metadata limits)
           in map_option (\<lambda>(out, fs1, session1). (Inr session1, hs1 # out, fs1))
                (serve_streams os env export_root streams (fs, session))))"

end
