(* ===== verification/Server_Jail.thy ===== *)
theory Server_Jail
  imports Dispatch
begin

text \<open>
  Confinement of the whole server: no request, whatever its bytes, makes a system call outside
  the export root or sets a mode bit above the permission bits. Stated as agreement: two operating
  systems that agree on the confined calls cannot be told apart by any stream or connection.
\<close>

text \<open>Within this theory the simplifier rewrites inside the branches of a case expression.\<close>

declare sum.case_cong_weak [cong del] prod.case_cong_weak [cong del] option.case_cong_weak [cong del]
  if_weak_cong [cong del]

lemma with_decoded_cong:
  "(\<And>q x. k q x = k' q x) \<Longrightarrow> with_decoded dec raw k x = with_decoded dec raw k' x"
  by (simp add: with_decoded_def split: sum.split)

lemma on_fs_cong: "m = m' \<Longrightarrow> on_fs m x = on_fs m' x"
  by simp

text \<open>The calls on paths, one by one.\<close>

lemma agree_paths:
  assumes "agree_confined root os os'" and "beneath root p"
  shows "os_stat os fs p = os_stat os' fs p" and "os_lstat os fs p = os_lstat os' fs p"
    and "os_read_dir os fs p = os_read_dir os' fs p" and "os_statvfs os fs p = os_statvfs os' fs p"
  using assms by (simp_all add: agree_confined_def)

lemma agree_fds:
  assumes "agree_confined root os os'"
  shows "os_close os = os_close os'" and "os_fstat os = os_fstat os'" and "os_set_len os = os_set_len os'"
    and "os_sync_all os = os_sync_all os'" and "os_sync_data os = os_sync_data os'"
    and "os_seek os = os_seek os'" and "os_read os = os_read os'" and "os_write_all os = os_write_all os'"
    and "os_proc_utimens os = os_proc_utimens os'"
    and "os_fchmod os d (m AND 0x1FF) = os_fchmod os' d (m AND 0x1FF)"
    and "os_proc_chmod os d (m AND 0x1FF) = os_proc_chmod os' d (m AND 0x1FF)"
  using assms mode_mask [of m] by (simp_all add: agree_confined_def)

lemma open_confined_eq:
  "agree_confined root os os' \<Longrightarrow> root \<noteq> [] \<Longrightarrow> beneath root p \<Longrightarrow> mode \<le> 0x1FF \<Longrightarrow>
   open_confined os root p flags mode = open_confined os' root p flags mode"
  by (rule ext) (simp add: open_confined_agree)

lemma try_insert_agree:
  "agree_confined root os os' \<Longrightarrow> insert_session os env p flags f = insert_session os' env p flags f"
  by (simp add: insert_session_def try_insert_def ino_key_of_def agree_fds fun_eq_iff)

lemmas confined_agree = mkdir_confined_agree remove_confined_agree symlink_confined_agree
  readlink_confined_agree link_confined_agree rename_confined_agree sync_if_ok_agree agree_paths
  open_confined_eq try_insert_agree closing_agree

section \<open>Handlers\<close>

lemma handle_getattr_agree:
  assumes "agree_confined root os os'" and "root \<noteq> []"
  shows "handle_getattr os env root raw x = handle_getattr os' env root raw x"
  unfolding handle_getattr_def
  by (intro with_decoded_cong case_resolve_agree assms)
    (simp add: confined_agree [OF assms(1)])

lemma apply_setattr_agree:
  assumes "agree_confined root os os'" and "root \<noteq> []" and "beneath root p"
  shows "apply_setattr os root p req = apply_setattr os' root p req"
proof -
  have "set_mode_times os req f = set_mode_times os' req f" for f
    unfolding set_mode_times_def by (simp add: agree_fds [OF assms(1)] cong: if_cong)
  then show ?thesis
    unfolding apply_setattr_def
    by (simp add: agree_fds [OF assms(1)] closing_agree [OF assms(1)] open_confined_eq [OF assms] cong: if_cong)
qed

lemma handle_setattr_agree:
  assumes "agree_confined root os os'" and "root \<noteq> []"
  shows "handle_setattr os env root raw x = handle_setattr os' env root raw x"
  unfolding handle_setattr_def
  by (intro with_decoded_cong case_resolve_agree assms)
    (simp add: apply_setattr_agree [OF assms] confined_agree [OF assms(1)])

lemma handle_readdir_agree:
  assumes "agree_confined root os os'" and "root \<noteq> []"
  shows "handle_readdir os env root raw x = handle_readdir os' env root raw x"
  unfolding handle_readdir_def
  by (intro with_decoded_cong case_resolve_agree assms) (simp add: confined_agree [OF assms(1)])

lemma handle_mkdir_agree:
  assumes "agree_confined root os os'" and "root \<noteq> []"
  shows "handle_mkdir os env root raw x = handle_mkdir os' env root raw x"
  unfolding handle_mkdir_def
  by (intro with_decoded_cong case_resolve_agree assms)
    (simp add: mkdir_confined_agree [OF assms] sync_if_ok_agree [OF assms] agree_paths [OF assms(1)])

lemma handle_rmdir_agree:
  assumes "agree_confined root os os'" and "root \<noteq> []"
  shows "handle_rmdir os env root raw x = handle_rmdir os' env root raw x"
  unfolding handle_rmdir_def
  by (intro with_decoded_cong case_resolve_agree assms)
    (simp add: remove_confined_agree [OF assms] sync_if_ok_agree [OF assms])

lemma handle_unlink_agree:
  assumes "agree_confined root os os'" and "root \<noteq> []"
  shows "handle_unlink os env root raw x = handle_unlink os' env root raw x"
  unfolding handle_unlink_def
  by (intro with_decoded_cong case_resolve_agree assms)
    (simp add: remove_confined_agree [OF assms] sync_if_ok_agree [OF assms])

lemma handle_rename_agree:
  assumes "agree_confined root os os'" and "root \<noteq> []"
  shows "handle_rename os env root raw x = handle_rename os' env root raw x"
  unfolding handle_rename_def
  by (intro with_decoded_cong case_resolve_agree assms)
    (simp add: rename_confined_agree [OF assms] sync_if_ok_agree [OF assms])

lemma handle_symlink_agree:
  assumes "agree_confined root os os'" and "root \<noteq> []"
  shows "handle_symlink os env root raw x = handle_symlink os' env root raw x"
  unfolding handle_symlink_def
  by (intro with_decoded_cong case_resolve_agree assms if_cong refl)
    (simp add: symlink_confined_agree [OF assms] sync_if_ok_agree [OF assms] agree_paths [OF assms(1)])

lemma handle_readlink_agree:
  assumes "agree_confined root os os'" and "root \<noteq> []"
  shows "handle_readlink os env root raw x = handle_readlink os' env root raw x"
  unfolding handle_readlink_def
  by (intro with_decoded_cong case_resolve_agree assms) (simp add: readlink_confined_agree [OF assms])

lemma handle_link_agree:
  assumes "agree_confined root os os'" and "root \<noteq> []"
  shows "handle_link os env root raw x = handle_link os' env root raw x"
  unfolding handle_link_def
  by (intro with_decoded_cong case_resolve_agree assms)
    (simp add: link_confined_agree [OF assms] sync_if_ok_agree [OF assms] agree_paths [OF assms(1)])

lemma handle_statfs_agree:
  assumes "agree_confined root os os'" and "root \<noteq> []"
  shows "handle_statfs os env root raw x = handle_statfs os' env root raw x"
  unfolding handle_statfs_def
  by (intro with_decoded_cong case_resolve_agree assms)
    (simp add: query_statfs_def agree_paths [OF assms(1)])

lemma handle_open_agree:
  assumes "agree_confined root os os'" and "root \<noteq> []"
  shows "handle_open os env root raw x = handle_open os' env root raw x"
  unfolding handle_open_def
  by (intro with_decoded_cong case_resolve_agree assms)
    (simp add: open_confined_eq [OF assms] try_insert_agree [OF assms(1)] agree_fds [OF assms(1)])

lemma handle_create_agree:
  assumes "agree_confined root os os'" and "root \<noteq> []"
  shows "handle_create os env root raw x = handle_create os' env root raw x"
  unfolding handle_create_def
  by (intro with_decoded_cong case_resolve_agree assms)
    (simp add: open_confined_eq [OF assms] mode_mask try_insert_agree [OF assms(1)] agree_fds [OF assms(1)]
      sync_if_ok_agree [OF assms])

lemma handle_release_agree:
  "agree_confined root os os' \<Longrightarrow> handle_release os env raw x = handle_release os' env raw x"
  unfolding handle_release_def by (simp add: agree_fds)

lemma handle_fsync_agree:
  "agree_confined root os os' \<Longrightarrow> handle_fsync os env raw x = handle_fsync os' env raw x"
  unfolding handle_fsync_def by (simp add: agree_fds)

lemma read_loop_agree:
  assumes "agree_confined root os os'"
  shows "read_loop os env sq file n off x = read_loop os' env sq file n off x"
proof -
  have sr: "seek_read os = seek_read os'"
    unfolding seek_read_def by (simp add: fun_eq_iff agree_fds [OF assms])
  show ?thesis
  proof (induction n arbitrary: off x rule: less_induct)
    case (less n)
    show ?case
      unfolding read_loop.simps [where remaining = n] sr
      by (auto simp: Let_def less split: prod.split sum.split)
  qed
qed

lemma handle_read_agree:
  "agree_confined root os os' \<Longrightarrow> handle_read os env raw x = handle_read os' env raw x"
  unfolding handle_read_def by (simp add: read_loop_agree)

lemma handle_write_agree:
  assumes "agree_confined root os os'"
  shows "handle_write os env raw x = handle_write os' env raw x"
proof -
  have "write_at os = write_at os'"
    unfolding write_at_def by (simp add: fun_eq_iff agree_fds [OF assms])
  then show ?thesis by (simp add: handle_write_def)
qed

lemmas handlers_agree = handle_getattr_agree handle_setattr_agree handle_readdir_agree
  handle_mkdir_agree handle_rmdir_agree handle_unlink_agree handle_rename_agree handle_symlink_agree
  handle_readlink_agree handle_link_agree handle_statfs_agree handle_open_agree handle_create_agree

lemmas fd_handlers_agree = handle_release_agree handle_fsync_agree handle_read_agree handle_write_agree

section \<open>Streams and connections\<close>

lemma dispatch_inner_agree:
  assumes "agree_confined root os os'" and "root \<noteq> []"
  shows "dispatch_inner os env root = dispatch_inner os' env root"
proof -
  have "run_handler os env root op sq raw x = run_handler os' env root op sq raw x" for op sq raw x
    unfolding run_handler_def
    by (simp only: handlers_agree [OF assms] fd_handlers_agree [OF assms(1)])
  then show ?thesis by (simp add: dispatch_inner_def fun_eq_iff)
qed

lemma serve_streams_agree:
  assumes "agree_confined root os os'" and "root \<noteq> []"
  shows "serve_streams os env root streams fss = serve_streams os' env root streams fss"
  by (induction streams arbitrary: fss)
    (simp_all add: dispatch_stream_def dispatch_inner_agree [OF assms] split: option.split)

text \<open>C1: A whole connection stays in the jail. If two operating systems agree on every confined
  call (paths beneath the export root, \<open>openat2\<close> under \<open>RESOLVE_BENEATH\<close> of a relative path without
  parent components, \<open>*at\<close> calls on a single ordinary name, modes up to 0777, open descriptors),
  then serving any connection, for any bytes the client sends in any number of streams, gives the
  same responses, the same session and the same file system on both. So the server makes no call
  outside the jail and never sets a setuid, setgid or sticky bit.\<close>

theorem connection_confined:
  assumes "agree_confined export_root os os'" and "export_root \<noteq> []"
  shows "handle_connection cr os env uuids peer export_root server_id limits hs streams fs =
         handle_connection cr os' env uuids peer export_root server_id limits hs streams fs"
  unfolding handle_connection_def
  by (simp add: serve_streams_agree [OF assms])

text \<open>The witness: a server without files, and one that knows a file outside the export root.\<close>

definition outside_os :: "unit os" where
  "outside_os = null_os\<lparr>os_stat := (\<lambda>_ p. if beneath ''/srv'' p then Inl (OsError ENOENT) else
     Inr \<lparr>md_dev = 1, md_ino = 2, md_mode = 0x81A4, md_nlink = 1, md_uid = 0, md_gid = 0, md_len = 5,
           md_accessed = Inr 0, md_modified = Inr 0\<rparr>)\<rparr>"

definition wit_codec :: server_codec where
  "wit_codec =
     \<lparr>enc_response = (\<lambda>_. Some [7]),
      dec_Envelope = (\<lambda>b. Some \<lparr>env_op = (if b = [0] then OP_HANDSHAKE else OP_GET_ATTR), env_seq = 1\<rparr>),
      dec_HandshakeRequest = (\<lambda>_. Some \<lparr>hsq_op = OP_HANDSHAKE, hsq_seq = 1, hsq_version = 1, hsq_client_id = [],
         hsq_features = [], hsq_chunk_size = 4096, hsq_auth_type = ''mtls''\<rparr>),
      dec_PingRequest = (\<lambda>_. None),
      dec_GetAttrRequest = (\<lambda>_. Some \<lparr>gaq_op = OP_GET_ATTR, gaq_seq = 2, gaq_path = ''/a''\<rparr>),
      dec_SetAttrRequest = (\<lambda>_. None), dec_ReadDirRequest = (\<lambda>_. None), dec_OpenRequest = (\<lambda>_. None),
      dec_ReleaseRequest = (\<lambda>_. None), dec_ReadRequest = (\<lambda>_. None), dec_WriteRequest = (\<lambda>_. None),
      dec_RenameRequest = (\<lambda>_. None), dec_PathRequest = (\<lambda>_. None), dec_MkDirRequest = (\<lambda>_. None),
      dec_CreateRequest = (\<lambda>_. None), dec_FsyncRequest = (\<lambda>_. None), dec_SymlinkRequest = (\<lambda>_. None),
      dec_LinkRequest = (\<lambda>_. None)\<rparr>"

definition wit_env :: "(bytes, bytes) env" where
  "wit_env = \<lparr>e_codec = wit_codec, e_write_all = buf_write, e_finish = (\<lambda>w. (Inr (), w)),
     e_read_exact = buf_read, e_path_hash = (\<lambda>_. 0)\<rparr>"

theorem connection_confined_witness:
  "os_stat null_os () ''/etc/passwd'' \<noteq> os_stat outside_os () ''/etc/passwd'' \<and>
   handle_connection toy_crypto null_os wit_env (1, 2) None ''/srv'' ''s'' conn_limits_default
     ([], frame_bytes [0]) [([], frame_bytes [1])] () =
   handle_connection toy_crypto outside_os wit_env (1, 2) None ''/srv'' ''s'' conn_limits_default
     ([], frame_bytes [0]) [([], frame_bytes [1])] ()"
proof -
  have "agree_confined ''/srv'' null_os outside_os"
    by (simp add: agree_confined_def outside_os_def)
  moreover have "\<not> beneath ''/srv'' ''/etc/passwd''"
    by code_simp
  ultimately show ?thesis
    using connection_confined [of "''/srv''" null_os outside_os] by (simp add: outside_os_def)
qed

declare sum.case_cong_weak [cong] prod.case_cong_weak [cong] option.case_cong_weak [cong]
  if_weak_cong [cong]

end
