(* ===== verification/File_IO.thy ===== *)
theory File_IO
  imports Server_Jail
begin

text \<open>
  What the data handlers do to a file, given what the operating system promises of an open
  descriptor: \<open>reads_ok\<close> and \<open>writes_ok\<close> state that promise for a working disk, with \<open>cont\<close> the
  contents of the file behind the descriptor and \<open>pos\<close> its position. A read may be short.
\<close>

section \<open>The contract of a descriptor\<close>

text \<open>Write a block at an offset; a gap before it is filled with zero bytes.\<close>

definition pwrite :: "nat \<Rightarrow> bytes \<Rightarrow> bytes \<Rightarrow> bytes" where
  "pwrite off d c =
     (if d = [] then c
      else take off c @ replicate (off - length c) 0 @ d @ drop (off + length d) c)"

definition seek_limit :: nat where "seek_limit = 2 ^ 63"

definition seeks_ok :: "'fs os \<Rightarrow> fd \<Rightarrow> ('fs \<Rightarrow> bytes) \<Rightarrow> ('fs \<Rightarrow> nat) \<Rightarrow> bool" where
  "seeks_ok os f cont pos =
     (\<forall>off fs. unat off < seek_limit \<longrightarrow>
        (\<exists>fs'. os_seek os f off fs = (Inr (), fs') \<and> cont fs' = cont fs \<and> pos fs' = unat off))"

definition reads_ok :: "'fs os \<Rightarrow> fd \<Rightarrow> ('fs \<Rightarrow> bytes) \<Rightarrow> ('fs \<Rightarrow> nat) \<Rightarrow> bool" where
  "reads_ok os f cont pos =
     (seeks_ok os f cont pos \<and>
      (\<forall>n fs. \<exists>m fs'. os_read os f n fs = (Inr (take m (drop (pos fs) (cont fs))), fs') \<and>
         m \<le> n \<and> cont fs' = cont fs \<and> (0 < n \<and> pos fs < length (cont fs) \<longrightarrow> 0 < m)))"

definition writes_ok :: "'fs os \<Rightarrow> fd \<Rightarrow> ('fs \<Rightarrow> bytes) \<Rightarrow> ('fs \<Rightarrow> nat) \<Rightarrow> bool" where
  "writes_ok os f cont pos =
     (seeks_ok os f cont pos \<and>
      (\<forall>d fs. \<exists>fs'. os_write_all os f d fs = (Inr (), fs') \<and> cont fs' = pwrite (pos fs) d (cont fs)))"

lemma seek_read_ok:
  assumes "reads_ok os f cont pos" and "unat off < seek_limit"
  obtains m fs' where "seek_read os f off n fs = (Inr (take m (drop (unat off) (cont fs))), fs')"
    and "m \<le> n" and "cont fs' = cont fs" and "0 < n \<and> unat off < length (cont fs) \<longrightarrow> 0 < m"
proof -
  obtain fs1 where s: "os_seek os f off fs = (Inr (), fs1)" "cont fs1 = cont fs" "pos fs1 = unat off"
    using assms unfolding reads_ok_def seeks_ok_def by blast
  obtain m fs2 where r: "os_read os f n fs1 = (Inr (take m (drop (pos fs1) (cont fs1))), fs2)"
      "m \<le> n" "cont fs2 = cont fs1" "0 < n \<and> pos fs1 < length (cont fs1) \<longrightarrow> 0 < m"
    using assms(1) unfolding reads_ok_def by blast
  show thesis
    by (rule that [of m fs2]) (use s r in \<open>auto simp: seek_read_def andthen_def min_absorb2\<close>)
qed

section \<open>Reading\<close>

text \<open>The frames a read may answer with: consecutive pieces, the last one marked, an empty marked
  piece at the end of the file.\<close>

inductive read_run :: "u64 \<Rightarrow> bytes \<Rightarrow> nat \<Rightarrow> u64 \<Rightarrow> ReadResponse list \<Rightarrow> bool" for sq c where
  Done: "read_run sq c 0 off []"
| Eof: "0 < n \<Longrightarrow> length c \<le> unat off \<Longrightarrow>
    read_run sq c n off [\<lparr>rr_op = OP_READ, rr_seq = sq, rr_status = 0, rr_offset = off, rr_data = [], rr_eof = True\<rparr>]"
| Piece: "drop (unat off) c = d @ rest \<Longrightarrow> d \<noteq> [] \<Longrightarrow> length d \<le> n \<Longrightarrow>
    read_run sq c (n - length d) (off + word_of_nat (length d)) rs \<Longrightarrow>
    read_run sq c n off (\<lparr>rr_op = OP_READ, rr_seq = sq, rr_status = 0, rr_offset = off, rr_data = d,
      rr_eof = (n - length d = 0)\<rparr> # rs)"

inductive_cases read_run_NilE: "read_run sq c n off []"
inductive_cases read_run_ConsE: "read_run sq c n off (r # rs)"

lemma unat_advance:
  fixes off :: u64
  assumes "unat off + n < seek_limit" and "k \<le> n"
  shows "unat (off + word_of_nat k) = unat off + k"
proof -
  have "unat (word_of_nat k :: u64) = k"
    using assms by (intro unat_of_nat_less) (simp add: seek_limit_def)
  then show ?thesis
    using assms by (subst unat_add_no_overflow) (simp_all add: seek_limit_def)
qed

text \<open>Together the pieces are the requested range of the file, cut at its end.\<close>

lemma read_run_data:
  "read_run sq c n off rs \<Longrightarrow> unat off + n < seek_limit \<Longrightarrow>
   concat (map rr_data rs) = take n (drop (unat off) c)"
proof (induction rule: read_run.induct)
  case (Piece off d rest n rs)
  have adv: "unat (off + word_of_nat (length d)) = unat off + length d"
    using Piece by (intro unat_advance)
  have "drop (unat off + length d) c = rest"
    using Piece(1) by (metis add.commute append_eq_conv_conj drop_drop)
  with Piece adv show ?case by simp
qed simp_all

text \<open>Only the last frame is marked as the last.\<close>

lemma read_run_eof:
  "read_run sq c n off rs \<Longrightarrow> 0 < n \<Longrightarrow>
   \<exists>ini l. rs = ini @ [l] \<and> rr_eof l \<and> list_all (\<lambda>r. \<not> rr_eof r) ini"
proof (induction rule: read_run.induct)
  case (Piece off d rest n rs)
  show ?case
  proof (cases "n - length d = 0")
    case True
    then have "rs = []" using Piece(4) by (auto elim: read_run.cases)
    then show ?thesis using True by (intro exI [of _ "[]"]) simp
  next
    case False
    then obtain ini l where "rs = ini @ [l]" "rr_eof l" "list_all (\<lambda>r. \<not> rr_eof r) ini"
      using Piece.IH by auto
    then show ?thesis using False
      by (intro exI [of _ "\<lparr>rr_op = OP_READ, rr_seq = sq, rr_status = 0, rr_offset = off, rr_data = d,
          rr_eof = (n - length d = 0)\<rparr> # ini"]) simp
  qed
qed (auto intro: exI [of _ "[]"])

lemma read_run_status: "read_run sq c n off rs \<Longrightarrow> list_all (\<lambda>r. rr_status r = 0 \<and> rr_seq r = sq) rs"
  by (induction rule: read_run.induct) simp_all

text \<open>A stream that works: every write and the finish succeed.\<close>

definition sends_ok :: "('w, 'r) env \<Rightarrow> ('w \<Rightarrow> bytes) \<Rightarrow> bool" where
  "sends_ok env sent =
     ((\<forall>d w. \<exists>w'. e_write_all env d w = (Inr (), w') \<and> sent w' = sent w @ d) \<and>
      (\<forall>w. \<exists>w'. e_finish env w = (Inr (), w') \<and> sent w' = sent w))"

text \<open>The encoding of a response fits a frame.\<close>

definition encodes :: "server_codec \<Rightarrow> response \<Rightarrow> bool" where
  "encodes sc r = (\<exists>b. enc_response sc r = Some b \<and> length b \<le> MAX_FRAME_SIZE)"

definition reads_encode :: "server_codec \<Rightarrow> bool" where
  "reads_encode sc =
     (\<forall>sq off d eof. length d \<le> CHUNK \<longrightarrow> encodes sc (read_response sq St_Ok off d eof))"

definition enc_frame :: "server_codec \<Rightarrow> response \<Rightarrow> bytes" where
  "enc_frame sc r = (case enc_response sc r of Some b \<Rightarrow> frame_bytes b | None \<Rightarrow> [])"

lemma send_frame_ok:
  assumes "sends_ok env sent" and "encodes (e_codec env) r"
  obtains n w where "send_frame env r x = (Inr n, x\<lparr>x_send := w\<rparr>)"
    and "sent w = sent (x_send x) @ enc_frame (e_codec env) r"
proof -
  obtain b where b: "enc_response (e_codec env) r = Some b" "length b \<le> MAX_FRAME_SIZE"
    using assms(2) by (auto simp: encodes_def)
  obtain w1 where w1: "e_write_all env (be32 (word_of_nat (length b))) (x_send x) = (Inr (), w1)"
      "sent w1 = sent (x_send x) @ be32 (word_of_nat (length b))"
    using assms(1) unfolding sends_ok_def by blast
  obtain w2 where w2: "e_write_all env b w1 = (Inr (), w2)" "sent w2 = sent w1 @ b"
    using assms(1) unfolding sends_ok_def by blast
  show thesis
    by (rule that [of "length b" w2])
      (use b w1 w2 in \<open>simp_all add: send_frame_def encode_def write_frame_def enc_frame_def frame_bytes_def\<close>)
qed

lemma finish_ok:
  assumes "sends_ok env sent"
  obtains w where "finish env x = (Inr (), x\<lparr>x_send := w\<rparr>)" and "sent w = sent (x_send x)"
  using assms unfolding sends_ok_def finish_def by (metis (no_types, lifting) case_prod_conv)

lemma reply_ok:
  assumes "sends_ok env sent" and "encodes (e_codec env) r"
  obtains w where "reply env r x = (Inr (), x\<lparr>x_send := w\<rparr>)"
    and "sent w = sent (x_send x) @ enc_frame (e_codec env) r"
proof -
  obtain n w1 where w1: "send_frame env r x = (Inr n, x\<lparr>x_send := w1\<rparr>)"
      "sent w1 = sent (x_send x) @ enc_frame (e_codec env) r"
    using assms by (rule send_frame_ok)
  obtain w2 where "finish env (x\<lparr>x_send := w1\<rparr>) = (Inr (), x\<lparr>x_send := w1\<rparr>\<lparr>x_send := w2\<rparr>)" "sent w2 = sent w1"
    using finish_ok [OF assms(1), of "x\<lparr>x_send := w1\<rparr>"] by auto
  with w1 show thesis by (intro that [of w2]) (simp_all add: reply_def)
qed

lemma reply_rec_ok:
  assumes "sends_ok env sent" and "encodes (e_codec env) r"
  obtains n w where "reply_rec env r x = (Inr (), record_tx n (x\<lparr>x_send := w\<rparr>))"
    and "sent w = sent (x_send x) @ enc_frame (e_codec env) r"
proof -
  obtain n w1 where w1: "send_frame env r x = (Inr n, x\<lparr>x_send := w1\<rparr>)"
      "sent w1 = sent (x_send x) @ enc_frame (e_codec env) r"
    using assms by (rule send_frame_ok)
  obtain w2 where "finish env (x\<lparr>x_send := w1\<rparr>) = (Inr (), x\<lparr>x_send := w1\<rparr>\<lparr>x_send := w2\<rparr>)" "sent w2 = sent w1"
    using finish_ok [OF assms(1), of "x\<lparr>x_send := w1\<rparr>"] by auto
  with w1 show thesis by (intro that [of n w2]) (simp_all add: reply_rec_def)
qed

text \<open>One round of the loop: the frame sent, and what is left to do.\<close>

definition read_piece :: "u64 \<Rightarrow> u64 \<Rightarrow> bytes \<Rightarrow> nat \<Rightarrow> ReadResponse" where
  "read_piece sq off d n = \<lparr>rr_op = OP_READ, rr_seq = sq, rr_status = 0, rr_offset = off, rr_data = d,
     rr_eof = (d = [] \<or> n - length d = 0)\<rparr>"

lemma read_loop_step:
  assumes "sends_ok env sent" and "reads_encode (e_codec env)" and "reads_ok os f cont pos"
    and "unat off + n < seek_limit" and "n \<noteq> 0"
  obtains d x3 where "read_loop os env sq f n off x =
        (if d = [] then finish env x3
         else read_loop os env sq f (n - length d) (off + word_of_nat (length d)) x3)"
    and "\<exists>rest. drop (unat off) (cont (x_fs x)) = d @ rest" and "length d \<le> n"
    and "d = [] \<longrightarrow> length (cont (x_fs x)) \<le> unat off"
    and "encodes (e_codec env) (R_Read (read_piece sq off d n))"
    and "cont (x_fs x3) = cont (x_fs x)" and "ss_handles (x_session x3) = ss_handles (x_session x)"
    and "sent (x_send x3) = sent (x_send x) @ enc_frame (e_codec env) (R_Read (read_piece sq off d n))"
proof -
  have "unat off < seek_limit" using assms(4) by simp
  from assms(3) this obtain m fs1 where r: "seek_read os f off (min n CHUNK) (x_fs x) =
        (Inr (take m (drop (unat off) (cont (x_fs x)))), fs1)"
      "m \<le> min n CHUNK" "cont fs1 = cont (x_fs x)"
      "0 < min n CHUNK \<and> unat off < length (cont (x_fs x)) \<longrightarrow> 0 < m"
    by (rule seek_read_ok [of os f cont pos off "min n CHUNK" "x_fs x"])
  define d where "d = take m (drop (unat off) (cont (x_fs x)))"
  have d: "length d \<le> n" "length d \<le> CHUNK" using r(2) by (auto simp: d_def intro: le_trans)
  have resp: "read_response sq St_Ok off d (d = [] \<or> n - length d = 0) = R_Read (read_piece sq off d n)"
    by (simp add: read_response_def read_piece_def)
  then have enc: "encodes (e_codec env) (R_Read (read_piece sq off d n))"
    using assms(2) d(2) unfolding reads_encode_def by metis
  obtain k w1 where w1: "send_frame env (R_Read (read_piece sq off d n)) (x\<lparr>x_fs := fs1\<rparr>) =
        (Inr k, x\<lparr>x_fs := fs1\<rparr>\<lparr>x_send := w1\<rparr>)"
      "sent w1 = sent (x_send (x\<lparr>x_fs := fs1\<rparr>)) @ enc_frame (e_codec env) (R_Read (read_piece sq off d n))"
    using assms(1) enc by (rule send_frame_ok)
  have "read_loop os env sq f n off x =
      (let x3 = record_tx k (x\<lparr>x_fs := fs1, x_send := w1\<rparr>)
       in if d = [] then finish env x3
          else read_loop os env sq f (n - length d) (off + word_of_nat (length d)) x3)"
    using assms(5) r(1) resp w1(1) by (subst read_loop.simps) (simp add: d_def [symmetric] Let_def)
  moreover have "0 < CHUNK" by (simp add: CHUNK_def)
  then have "d = [] \<longrightarrow> length (cont (x_fs x)) \<le> unat off"
    using assms(5) r(4) unfolding d_def by fastforce
  moreover have "drop (unat off) (cont (x_fs x)) = d @ drop m (drop (unat off) (cont (x_fs x)))"
    unfolding d_def by (rule append_take_drop_id [symmetric])
  ultimately show thesis
    using d enc r(3) w1(2)
    by (intro that [of d "record_tx k (x\<lparr>x_fs := fs1, x_send := w1\<rparr>)"]) (auto simp: Let_def)
qed

lemma read_loop_run:
  assumes "sends_ok env sent" and "reads_encode (e_codec env)" and "reads_ok os f cont pos"
    and "unat off + n < seek_limit"
  shows "\<exists>rs x'. read_loop os env sq f n off x = (Inr (), x') \<and>
    read_run sq (cont (x_fs x)) n off rs \<and> cont (x_fs x') = cont (x_fs x) \<and>
    list_all (\<lambda>r. encodes (e_codec env) (R_Read r)) rs \<and>
    sent (x_send x') = sent (x_send x) @ concat (map (\<lambda>r. enc_frame (e_codec env) (R_Read r)) rs) \<and>
    ss_handles (x_session x') = ss_handles (x_session x)"
  using assms(4)
proof (induction n arbitrary: off x rule: less_induct)
  case (less n)
  note fin = finish_ok [OF assms(1)]
  show ?case
  proof (cases "n = 0")
    case True
    obtain w where "finish env x = (Inr (), x\<lparr>x_send := w\<rparr>)" "sent w = sent (x_send x)" by (rule fin)
    with True show ?thesis
      by (intro exI [of _ "[]"]) (simp add: read_loop.simps Done)
  next
    case False
    obtain d x3 where step: "read_loop os env sq f n off x =
        (if d = [] then finish env x3
         else read_loop os env sq f (n - length d) (off + word_of_nat (length d)) x3)"
      and rest: "\<exists>rest. drop (unat off) (cont (x_fs x)) = d @ rest" and d: "length d \<le> n"
      and eof: "d = [] \<longrightarrow> length (cont (x_fs x)) \<le> unat off"
      and enc: "encodes (e_codec env) (R_Read (read_piece sq off d n))"
      and x3: "cont (x_fs x3) = cont (x_fs x)" "ss_handles (x_session x3) = ss_handles (x_session x)"
        "sent (x_send x3) = sent (x_send x) @ enc_frame (e_codec env) (R_Read (read_piece sq off d n))"
      by (rule read_loop_step [OF assms(1-3) less.prems False])
    show ?thesis
    proof (cases "d = []")
      case True
      obtain w2 where "finish env x3 = (Inr (), x3\<lparr>x_send := w2\<rparr>)" "sent w2 = sent (x_send x3)" by (rule fin)
      then show ?thesis
        using step True False eof x3 enc
        by (intro exI [of _ "[read_piece sq off d n]"]) (simp add: read_piece_def Eof)
    next
      case dne: False
      have "n - length d < n" and "unat (off + word_of_nat (length d)) + (n - length d) < seek_limit"
        using dne False d less.prems unat_advance [OF less.prems d] by simp_all
      from less.IH [OF this, of x3] x3(1)
      obtain rs x' where ih: "read_loop os env sq f (n - length d) (off + word_of_nat (length d)) x3 = (Inr (), x')"
          "read_run sq (cont (x_fs x)) (n - length d) (off + word_of_nat (length d)) rs"
          "cont (x_fs x') = cont (x_fs x3)" "list_all (\<lambda>r. encodes (e_codec env) (R_Read r)) rs"
          "sent (x_send x') = sent (x_send x3) @ concat (map (\<lambda>r. enc_frame (e_codec env) (R_Read r)) rs)"
          "ss_handles (x_session x') = ss_handles (x_session x3)"
        by auto
      have "read_run sq (cont (x_fs x)) n off (read_piece sq off d n # rs)"
        using rest Piece [OF _ dne d ih(2)] dne by (auto simp: read_piece_def)
      then show ?thesis
        using step dne ih x3 enc by (intro exI [of _ "read_piece sq off d n # rs"]) simp
    qed
  qed
qed

section \<open>Writing\<close>

lemma length_pwrite_front: "length (take off c @ replicate (off - length c) 0) = off"
  by simp

text \<open>Two adjacent blocks written one after the other are one block.\<close>

lemma pwrite_append:
  "pwrite (off + length a) b (pwrite off a c) = pwrite off (a @ b) c"
proof (cases "a = [] \<or> b = []")
  case False
  define front where "front = take off c @ replicate (off - length c) 0"
  have front: "length front = off" unfolding front_def by (rule length_pwrite_front)
  have p: "pwrite off d c = front @ d @ drop (off + length d) c" if "d \<noteq> []" for d
    using that by (simp add: pwrite_def front_def)
  have "off + length a - length (pwrite off a c) = 0"
    using False front by (simp add: p)
  then have "pwrite (off + length a) b (pwrite off a c) =
      take (off + length a) (front @ a @ drop (off + length a) c) @ b @
      drop (off + length a + length b) (front @ a @ drop (off + length a) c)"
    using False by (simp add: pwrite_def [of "off + length a"] p)
  also have "\<dots> = front @ a @ b @ drop (off + length a + length b) c"
    using front by (simp add: add.commute add.left_commute)
  finally show ?thesis using False by (simp add: p add.assoc)
qed (auto simp: pwrite_def)

text \<open>What the file holds after a list of write requests.\<close>

definition apply_writes :: "WriteRequest list \<Rightarrow> bytes \<Rightarrow> bytes" where
  "apply_writes qs c = fold (\<lambda>q. pwrite (unat (wq_offset q)) (wq_data q)) qs c"

definition total_written :: "u64 \<Rightarrow> WriteRequest list \<Rightarrow> u64" where
  "total_written t qs = fold (\<lambda>q t. saturating_add_u64 t (word_of_nat (length (wq_data q)))) qs t"

lemma write_at_ok:
  assumes "writes_ok os f cont pos" and "unat off < seek_limit"
  obtains fs' where "write_at os f False off d t fs = (Inr (saturating_add_u64 t (word_of_nat (length d))), fs')"
    and "cont fs' = pwrite (unat off) d (cont fs)"
proof -
  obtain fs1 where s: "os_seek os f off fs = (Inr (), fs1)" "cont fs1 = cont fs" "pos fs1 = unat off"
    using assms unfolding writes_ok_def seeks_ok_def by blast
  obtain fs2 where "os_write_all os f d fs1 = (Inr (), fs2)" "cont fs2 = pwrite (pos fs1) d (cont fs1)"
    using assms(1) unfolding writes_ok_def by blast
  with s show thesis by (intro that [of fs2]) (simp_all add: write_at_def andthen_def)
qed

text \<open>The last request of a list, and no other, is marked.\<close>

definition marked_last :: "WriteRequest list \<Rightarrow> bool" where
  "marked_last qs = (qs \<noteq> [] \<and> wq_done (last qs) \<and> list_all (\<lambda>q. \<not> wq_done q) (butlast qs))"

text \<open>The frames of a list of requests as they arrive.\<close>

definition write_frames :: "server_codec \<Rightarrow> (WriteRequest \<times> bytes) list \<Rightarrow> bool" where
  "write_frames sc qbs =
     list_all (\<lambda>(q, b). dec_WriteRequest sc b = Some q \<and> length b \<le> MAX_FRAME_SIZE \<and>
       unat (wq_offset q) < seek_limit) qbs"

lemma write_loop_step:
  assumes rd: "consumes (e_read_exact env) avail" and av: "avail (x_recv x) = frame_bytes b @ rest"
    and dec: "dec_WriteRequest (e_codec env) b = Some q" "length b \<le> MAX_FRAME_SIZE"
    and wr: "writes_ok os f cont pos" "unat (wq_offset q) < seek_limit"
  obtains x' where "write_loop (write_at os f False) env sq False t x =
      write_loop (write_at os f False) env sq (wq_done q)
        (saturating_add_u64 t (word_of_nat (length (wq_data q)))) x'"
    and "cont (x_fs x') = pwrite (unat (wq_offset q)) (wq_data q) (cont (x_fs x))"
    and "avail (x_recv x') = rest" and "x_send x' = x_send x"
    and "ss_handles (x_session x') = ss_handles (x_session x)"
proof -
  obtain r1 where r1: "read_frame (e_read_exact env) (x_recv x) = (Inr b, r1)" "avail r1 = rest"
    using read_frame_of_frame [OF rd av dec(2)] by blast
  let ?x2 = "record_rx (length b) (x\<lparr>x_recv := r1\<rparr>)"
  obtain fs' where fs': "write_at os f False (wq_offset q) (wq_data q) t (x_fs ?x2) =
        (Inr (saturating_add_u64 t (word_of_nat (length (wq_data q)))), fs')"
      "cont fs' = pwrite (unat (wq_offset q)) (wq_data q) (cont (x_fs ?x2))"
    using wr by (rule write_at_ok)
  show thesis
    by (rule that [of "?x2\<lparr>x_fs := fs'\<rparr>"])
      (use r1 dec fs' in \<open>simp_all add: write_loop.simps [of _ _ _ False] recv_frame_def decode_def on_fs_def\<close>)
qed

lemma write_loop_run:
  assumes "sends_ok env sent" and rd: "consumes (e_read_exact env) avail"
    and wr: "writes_ok os f cont pos"
    and enc: "\<And>t. encodes (e_codec env) (write_response sq St_Ok t)"
    and "write_frames (e_codec env) qbs" and "qbs \<noteq> [] \<Longrightarrow> marked_last (map fst qbs)"
    and "avail (x_recv x) = concat (map (\<lambda>(q, b). frame_bytes b) qbs) @ rest"
  shows "\<exists>x'. write_loop (write_at os f False) env sq (qbs = []) t x = Some (Inr (), x') \<and>
     cont (x_fs x') = apply_writes (map fst qbs) (cont (x_fs x)) \<and>
     sent (x_send x') = sent (x_send x) @
       enc_frame (e_codec env) (write_response sq St_Ok (total_written t (map fst qbs))) \<and>
     ss_handles (x_session x') = ss_handles (x_session x)"
  using assms(5-)
proof (induction qbs arbitrary: t x)
  case Nil
  obtain n w where "reply_rec env (write_response sq St_Ok t) x = (Inr (), record_tx n (x\<lparr>x_send := w\<rparr>))"
      "sent w = sent (x_send x) @ enc_frame (e_codec env) (write_response sq St_Ok t)"
    using assms(1) enc by (rule reply_rec_ok)
  then show ?case
    by (simp add: write_loop.simps [of _ _ _ True] apply_writes_def total_written_def)
next
  case (Cons qb qbs)
  obtain q b where qb: "qb = (q, b)" by fastforce
  have fin: "wq_done q = (qbs = [])"
    using Cons.prems(2) qb by (cases "qbs = []") (auto simp: marked_last_def)
  have av: "avail (x_recv x) = frame_bytes b @ concat (map (\<lambda>(q, b). frame_bytes b) qbs) @ rest"
    using Cons.prems(3) qb by simp
  have q: "dec_WriteRequest (e_codec env) b = Some q" "length b \<le> MAX_FRAME_SIZE"
      "unat (wq_offset q) < seek_limit" and qbs: "write_frames (e_codec env) qbs"
    using Cons.prems(1) qb by (simp_all add: write_frames_def)
  obtain x1 where x1: "write_loop (write_at os f False) env sq False t x =
      write_loop (write_at os f False) env sq (wq_done q)
        (saturating_add_u64 t (word_of_nat (length (wq_data q)))) x1"
    "cont (x_fs x1) = pwrite (unat (wq_offset q)) (wq_data q) (cont (x_fs x))"
    "avail (x_recv x1) = concat (map (\<lambda>(q, b). frame_bytes b) qbs) @ rest" "x_send x1 = x_send x"
    "ss_handles (x_session x1) = ss_handles (x_session x)"
    by (rule write_loop_step [OF rd av q(1,2) wr q(3)])
  have ml: "qbs \<noteq> [] \<Longrightarrow> marked_last (map fst qbs)"
    using Cons.prems(2) qb by (auto simp: marked_last_def)
  from Cons.IH [OF qbs ml x1(3), of "saturating_add_u64 t (word_of_nat (length (wq_data q)))"] x1 fin qb
  show ?case by (simp add: apply_writes_def total_written_def)
qed

text \<open>The number reported is the number of bytes sent, while it fits.\<close>

lemma unat_saturating_add:
  "unat t + n < 2 ^ 64 \<Longrightarrow> unat (saturating_add_u64 t (word_of_nat n)) = unat t + n"
  by (simp add: unat_saturating_add_u64 unat_of_nat_less usize_max_def)

lemma unat_total_written:
  "unat t + sum_list (map (\<lambda>q. length (wq_data q)) qs) < 2 ^ 64 \<Longrightarrow>
   unat (total_written t qs) = unat t + sum_list (map (\<lambda>q. length (wq_data q)) qs)"
proof (induction qs arbitrary: t)
  case (Cons q qs)
  have "unat (saturating_add_u64 t (word_of_nat (length (wq_data q)))) = unat t + length (wq_data q)"
    using Cons.prems by (intro unat_saturating_add) simp
  with Cons.IH [of "saturating_add_u64 t (word_of_nat (length (wq_data q)))"] Cons.prems
  show ?case by (simp add: total_written_def)
qed (simp add: total_written_def)

text \<open>The whole request: the first frame is in \<open>raw\<close>, the others are still to be read.\<close>

lemma handle_write_run:
  assumes "sends_ok env sent" and rd: "consumes (e_read_exact env) avail"
    and wr: "writes_ok os f cont pos"
    and enc: "\<And>sq t. encodes (e_codec env) (write_response sq St_Ok t)"
    and fr: "write_frames (e_codec env) ((q, b) # qbs)" and ml: "marked_last (q # map fst qbs)"
    and h: "get_write_ctx (ss_handles (x_session x)) (wq_handle q) = Some (f, flags, key)"
    and fl: "flags AND 0x400 = 0"
    and av: "avail (x_recv x) = concat (map (\<lambda>(q, b). frame_bytes b) qbs) @ rest"
  shows "\<exists>x'. handle_write os env b x = Some (Inr (), x') \<and>
     cont (x_fs x') = apply_writes (q # map fst qbs) (cont (x_fs x)) \<and>
     sent (x_send x') = sent (x_send x) @
       enc_frame (e_codec env) (write_response (wq_seq q) St_Ok (total_written 0 (q # map fst qbs))) \<and>
     ss_handles (x_session x') = ss_handles (x_session x)"
proof -
  have q: "dec_WriteRequest (e_codec env) b = Some q" "unat (wq_offset q) < seek_limit"
    and qbs: "write_frames (e_codec env) qbs"
    using fr by (simp_all add: write_frames_def)
  have fin: "wq_done q = (qbs = [])" and ml': "qbs \<noteq> [] \<Longrightarrow> marked_last (map fst qbs)"
    using ml by (cases "qbs = []"; simp add: marked_last_def)+
  obtain fs1 where fs1: "write_at os f False (wq_offset q) (wq_data q) 0 (x_fs x) =
        (Inr (saturating_add_u64 0 (word_of_nat (length (wq_data q)))), fs1)"
      "cont fs1 = pwrite (unat (wq_offset q)) (wq_data q) (cont (x_fs x))"
    using wr q(2) by (rule write_at_ok)
  have "handle_write os env b x = write_loop (write_at os f False) env (wq_seq q) (qbs = [])
      (saturating_add_u64 0 (word_of_nat (length (wq_data q)))) (x\<lparr>x_fs := fs1\<rparr>)"
    using h fl q(1) fs1(1) fin by (simp add: handle_write_def decode_def)
  with write_loop_run [OF assms(1) rd wr enc qbs ml', of "x\<lparr>x_fs := fs1\<rparr>" rest "wq_seq q"
      "saturating_add_u64 0 (word_of_nat (length (wq_data q)))"] av fs1(2)
  show ?thesis by (simp add: apply_writes_def total_written_def)
qed

end
