(* ===== verification/Wire_Model.thy ===== *)
theory Wire_Model
  imports File_IO "HOL-Library.Monad_Syntax"
begin

text \<open>
  An instance of the parameters, for the witnesses of the end-to-end theorems: a byte-level codec
  for the read, write, directory and path messages, and an operating system with one file and one
  directory, both in memory. \<open>wire_codec_ok\<close> and the lemmas at the end show that what the
  theorems assume of a codec and of a disk can hold.
\<close>

section \<open>Numbers, strings and lists as bytes\<close>

definition be64 :: "u64 \<Rightarrow> bytes" where
  "be64 w = be32 (ucast (drop_bit 32 w)) @ be32 (ucast w)"

definition get64 :: "bytes \<Rightarrow> (u64 \<times> bytes) option" where
  "get64 b =
     (if 8 \<le> length b
      then Some (push_bit 32 (ucast (from_be32 (take 4 b))) OR ucast (from_be32 (take 4 (drop 4 b))), drop 8 b)
      else None)"

definition get8 :: "bytes \<Rightarrow> (u8 \<times> bytes) option" where
  "get8 b = (case b of [] \<Rightarrow> None | x # r \<Rightarrow> Some (x, r))"

definition put_bool :: "bool \<Rightarrow> u8" where
  "put_bool p = (if p then 1 else 0)"

definition put_str :: "string \<Rightarrow> bytes" where
  "put_str s = be64 (word_of_nat (length s)) @ map (\<lambda>c. word_of_nat (of_char c)) s"

definition get_str :: "bytes \<Rightarrow> (string \<times> bytes) option" where
  "get_str b =
     (case get64 b of
        None \<Rightarrow> None
      | Some (n, r) \<Rightarrow> Some (map (\<lambda>x. char_of (unat x)) (take (unat n) r), drop (unat n) r))"

definition small :: "'a list \<Rightarrow> bool" where
  "small xs = (length xs < 2 ^ 64)"

lemma length_be64 [simp]: "length (be64 w) = 8"
  by (simp add: be64_def)

lemma get64_be64 [simp]: "get64 (be64 w @ r) = Some (w, r)"
proof -
  have "push_bit 32 (ucast (ucast (drop_bit 32 w) :: u32)) OR ucast (ucast w :: u32) = w"
    by (rule bit_eqI) (auto simp: bit_simps dest: bit_imp_le_length)
  then show ?thesis by (simp add: get64_def be64_def)
qed

lemma get8_Cons [simp]: "get8 (x # r) = Some (x, r)"
  by (simp add: get8_def)

lemma put_bool_iff [simp]: "(put_bool p = 1) = p"
  by (simp add: put_bool_def)

lemma get_str_put_str [simp]: "small s \<Longrightarrow> get_str (put_str s @ r) = Some (s, r)"
proof -
  assume "small s"
  then have "unat (word_of_nat (length s) :: u64) = length s"
    by (simp add: small_def unat_of_nat_less)
  moreover have "unat (word_of_nat (of_char c) :: u8) = of_char c" for c :: char
    by (simp add: unat_of_nat_less)
  ultimately show ?thesis
    by (simp add: get_str_def put_str_def map_idI)
qed

section \<open>The messages\<close>

definition put_entry :: "DirEntry \<Rightarrow> bytes" where
  "put_entry d = put_str (de_name d) @ be64 (de_ino d) @ be32 (de_mode d)"

definition get_entry :: "bytes \<Rightarrow> (DirEntry \<times> bytes) option" where
  "get_entry b =
     do { (n, b) \<leftarrow> get_str b; (i, b) \<leftarrow> get64 b;
          Some (\<lparr>de_name = n, de_ino = i, de_mode = from_be32 (take 4 b)\<rparr>, drop 4 b) }"

primrec get_entries :: "nat \<Rightarrow> bytes \<Rightarrow> (DirEntry list \<times> bytes) option" where
  "get_entries 0 b = Some ([], b)"
| "get_entries (Suc n) b =
     do { (d, b) \<leftarrow> get_entry b; (ds, b) \<leftarrow> get_entries n b; Some (d # ds, b) }"

definition put_entries :: "DirEntry list \<Rightarrow> bytes" where
  "put_entries ds = be64 (word_of_nat (length ds)) @ concat (map put_entry ds)"

definition enc_req :: "request \<Rightarrow> bytes option" where
  "enc_req r =
     (case r of
        Q_Read q \<Rightarrow> Some (rq_op q # be64 (rq_seq q) @ be64 (rq_handle q) @ be64 (rq_offset q) @ be32 (rq_length q))
      | Q_Write q \<Rightarrow> Some (wq_op q # be64 (wq_seq q) @ be64 (wq_handle q) @ be64 (wq_offset q) @
                            put_bool (wq_done q) # wq_data q)
      | Q_ReadDir q \<Rightarrow>
          if small (rdq_path q)
          then Some (rdq_op q # be64 (rdq_seq q) @ be64 (rdq_cursor q) @ put_str (rdq_path q)) else None
      | Q_Path q \<Rightarrow>
          if small (pq_path q) then Some (pq_op q # be64 (pq_seq q) @ put_str (pq_path q)) else None
      | _ \<Rightarrow> None)"

definition enc_resp :: "response \<Rightarrow> bytes option" where
  "enc_resp r =
     (case r of
        R_Read p \<Rightarrow> Some (rr_op p # be64 (rr_seq p) @ rr_status p # be64 (rr_offset p) @ put_bool (rr_eof p) # rr_data p)
      | R_Write p \<Rightarrow> Some (wr_op p # be64 (wr_seq p) @ wr_status p # be64 (wr_written p))
      | R_ReadDir p \<Rightarrow>
          if small (rdr_entries p) \<and> list_all (\<lambda>d. small (de_name d)) (rdr_entries p)
          then Some (rdr_op p # be64 (rdr_seq p) @ rdr_status p # be64 (rdr_cursor p) @
                     put_bool (rdr_eof p) # put_entries (rdr_entries p))
          else None
      | R_Status p \<Rightarrow> Some (sr_op p # be64 (sr_seq p) @ [sr_status p])
      | _ \<Rightarrow> None)"

definition get_envelope :: "bytes \<Rightarrow> Envelope option" where
  "get_envelope b = do { (o1, b) \<leftarrow> get8 b; (s, b) \<leftarrow> get64 b; Some \<lparr>env_op = o1, env_seq = s\<rparr> }"

definition get_read_req :: "bytes \<Rightarrow> ReadRequest option" where
  "get_read_req b =
     do { (o1, b) \<leftarrow> get8 b; (s, b) \<leftarrow> get64 b; (h, b) \<leftarrow> get64 b; (off, b) \<leftarrow> get64 b;
          Some \<lparr>rq_op = o1, rq_seq = s, rq_handle = h, rq_offset = off, rq_length = from_be32 b\<rparr> }"

definition get_write_req :: "bytes \<Rightarrow> WriteRequest option" where
  "get_write_req b =
     do { (o1, b) \<leftarrow> get8 b; (s, b) \<leftarrow> get64 b; (h, b) \<leftarrow> get64 b; (off, b) \<leftarrow> get64 b; (d, b) \<leftarrow> get8 b;
          Some \<lparr>wq_op = o1, wq_seq = s, wq_handle = h, wq_offset = off, wq_data = b, wq_done = (d = 1)\<rparr> }"

definition get_readdir_req :: "bytes \<Rightarrow> ReadDirRequest option" where
  "get_readdir_req b =
     do { (o1, b) \<leftarrow> get8 b; (s, b) \<leftarrow> get64 b; (c, b) \<leftarrow> get64 b; (p, b) \<leftarrow> get_str b;
          Some \<lparr>rdq_op = o1, rdq_seq = s, rdq_path = p, rdq_cursor = c\<rparr> }"

definition get_path_req :: "bytes \<Rightarrow> PathRequest option" where
  "get_path_req b =
     do { (o1, b) \<leftarrow> get8 b; (s, b) \<leftarrow> get64 b; (p, b) \<leftarrow> get_str b;
          Some \<lparr>pq_op = o1, pq_seq = s, pq_path = p\<rparr> }"

definition get_status_resp :: "bytes \<Rightarrow> StatusResponse option" where
  "get_status_resp b =
     do { (o1, b) \<leftarrow> get8 b; (s, b) \<leftarrow> get64 b; (st, b) \<leftarrow> get8 b;
          Some \<lparr>sr_op = o1, sr_seq = s, sr_status = st\<rparr> }"

definition get_rename_resp :: "bytes \<Rightarrow> RenameResponse option" where
  "get_rename_resp b =
     map_option (\<lambda>p. \<lparr>rnr_op = sr_op p, rnr_seq = sr_seq p, rnr_status = sr_status p\<rparr>) (get_status_resp b)"

definition get_read_resp :: "bytes \<Rightarrow> ReadResponse option" where
  "get_read_resp b =
     do { (o1, b) \<leftarrow> get8 b; (s, b) \<leftarrow> get64 b; (st, b) \<leftarrow> get8 b; (off, b) \<leftarrow> get64 b; (e, b) \<leftarrow> get8 b;
          Some \<lparr>rr_op = o1, rr_seq = s, rr_status = st, rr_offset = off, rr_data = b, rr_eof = (e = 1)\<rparr> }"

definition get_write_resp :: "bytes \<Rightarrow> WriteResponse option" where
  "get_write_resp b =
     do { (o1, b) \<leftarrow> get8 b; (s, b) \<leftarrow> get64 b; (st, b) \<leftarrow> get8 b; (n, b) \<leftarrow> get64 b;
          Some \<lparr>wr_op = o1, wr_seq = s, wr_status = st, wr_written = n\<rparr> }"

definition get_readdir_resp :: "bytes \<Rightarrow> ReadDirResponse option" where
  "get_readdir_resp b =
     do { (o1, b) \<leftarrow> get8 b; (s, b) \<leftarrow> get64 b; (st, b) \<leftarrow> get8 b; (c, b) \<leftarrow> get64 b; (e, b) \<leftarrow> get8 b;
          (n, b) \<leftarrow> get64 b; (ds, b) \<leftarrow> get_entries (unat n) b;
          Some \<lparr>rdr_op = o1, rdr_seq = s, rdr_status = st, rdr_entries = ds, rdr_cursor = c, rdr_eof = (e = 1)\<rparr> }"

definition wire_sc :: server_codec where
  "wire_sc =
     \<lparr>enc_response = enc_resp, dec_Envelope = get_envelope,
      dec_HandshakeRequest = (\<lambda>_. None),
      dec_PingRequest = (\<lambda>_. None),
      dec_GetAttrRequest = (\<lambda>_. None),
      dec_SetAttrRequest = (\<lambda>_. None),
      dec_ReadDirRequest = get_readdir_req,
      dec_OpenRequest = (\<lambda>_. None),
      dec_ReleaseRequest = (\<lambda>_. None),
      dec_ReadRequest = get_read_req,
      dec_WriteRequest = get_write_req,
      dec_RenameRequest = (\<lambda>_. None),
      dec_PathRequest = get_path_req,
      dec_MkDirRequest = (\<lambda>_. None),
      dec_CreateRequest = (\<lambda>_. None),
      dec_FsyncRequest = (\<lambda>_. None),
      dec_SymlinkRequest = (\<lambda>_. None),
      dec_LinkRequest = (\<lambda>_. None)\<rparr>"

definition wire_cc :: client_codec where
  "wire_cc =
     \<lparr>enc_request = enc_req,
      dec_HandshakeResponse = (\<lambda>_. None),
      dec_PingResponse = (\<lambda>_. None),
      dec_GetAttrResponse = (\<lambda>_. None),
      dec_SetAttrResponse = (\<lambda>_. None),
      dec_ReadDirResponse = get_readdir_resp,
      dec_OpenResponse = (\<lambda>_. None),
      dec_ReleaseResponse = (\<lambda>_. None),
      dec_ReadResponse = get_read_resp,
      dec_WriteResponse = get_write_resp,
      dec_StatusResponse = get_status_resp,
      dec_ReadLinkResponse = (\<lambda>_. None),
      dec_StatFsResponse = (\<lambda>_. None),
      dec_RenameResponse = get_rename_resp\<rparr>"

lemma get_entry_put [simp]: "small (de_name d) \<Longrightarrow> get_entry (put_entry d @ r) = Some (d, r)"
  by (simp add: get_entry_def put_entry_def)

lemma get_entries_put:
  "list_all (\<lambda>d. small (de_name d)) ds \<Longrightarrow>
   get_entries (length ds) (concat (map put_entry ds) @ r) = Some (ds, r)"
  by (induction ds) simp_all

lemma wire_codec_ok: "codec_ok wire_sc wire_cc"
proof -
  have "decodes_request wire_sc b r \<and> dec_Envelope wire_sc b = Some \<lparr>env_op = req_op r, env_seq = req_seq r\<rparr>"
    if "enc_request wire_cc r = Some b" for r b
    using that get64_be64 [where r = "[]"] get_str_put_str [where r = "[]"]
    by (cases r) (auto simp: wire_cc_def wire_sc_def enc_req_def get_envelope_def get_read_req_def
        get_write_req_def get_readdir_req_def get_path_req_def split: if_splits)
  moreover have "decodes_response wire_cc b r" if "enc_response wire_sc r = Some b" for r b
    using that get64_be64 [where r = "[]"] get_entries_put [where r = "[]"]
    by (cases r) (auto simp: wire_cc_def wire_sc_def enc_resp_def get_read_resp_def get_write_resp_def
        get_readdir_resp_def get_status_resp_def get_rename_resp_def put_entries_def small_def unat_of_nat_less split: if_splits)
  ultimately show ?thesis by (simp add: codec_ok_def)
qed

section \<open>Memory as an operating system\<close>

record mem_fs =
  mf_data :: bytes
  mf_pos :: nat
  mf_dir :: "string list"

text \<open>One file, whatever the descriptor, read at most three bytes at a time; every path is a
  directory with the names \<open>mf_dir\<close>.\<close>

definition mem_os :: "mem_fs os" where
  "mem_os =
     \<lparr>os_lstat = (\<lambda>_ _. Inl (OsError ENOENT)), os_stat = (\<lambda>_ _. Inl (OsError ENOENT)),
      os_canonicalize = (\<lambda>_ _. Inl (OsError ENOENT)),
      os_read_dir = (\<lambda>m _. Inr (map (\<lambda>n. Inr (n, Inl (OsError ENOENT))) (mf_dir m))),
      os_statvfs = (\<lambda>_ _. Inl (OsError ENOENT)),
      os_open = (\<lambda>_ _ _ m. (Inr 3, m)), os_openat2 = (\<lambda>_ _ _ m. (Inr 3, m)), os_close = (\<lambda>_ m. m),
      os_mkdirat = (\<lambda>_ _ _ m. (Inl (OsError EIO), m)), os_fchmodat = (\<lambda>_ _ _ m. (Inl (OsError EIO), m)),
      os_unlinkat = (\<lambda>_ n _ m. if n \<in> set (mf_dir m) then (Inr (), m\<lparr>mf_dir := remove1 n (mf_dir m)\<rparr>)
        else (Inl (OsError ENOENT), m)),
      os_symlinkat = (\<lambda>_ _ _ m. (Inl (OsError EIO), m)),
      os_linkat = (\<lambda>_ _ _ _ m. (Inl (OsError EIO), m)), os_renameat = (\<lambda>_ _ _ _ m. (Inl (OsError EIO), m)),
      os_readlinkat = (\<lambda>_ _ _ _. Inl (OsError EIO)), os_fstat = (\<lambda>_ _. Inl (OsError EIO)),
      os_fchmod = (\<lambda>_ _ m. (Inr (), m)), os_proc_chmod = (\<lambda>_ _ m. (Inr (), m)),
      os_proc_utimens = (\<lambda>_ _ _ m. (Inr (), m)), os_set_len = (\<lambda>_ _ m. (Inr (), m)),
      os_sync_all = (\<lambda>_ m. (Inr (), m)), os_sync_data = (\<lambda>_ m. (Inr (), m)),
      os_seek = (\<lambda>_ off m. (Inr (), m\<lparr>mf_pos := unat off\<rparr>)),
      os_read = (\<lambda>_ n m. (Inr (take (min 3 n) (drop (mf_pos m) (mf_data m))), m\<lparr>mf_pos := mf_pos m + min 3 n\<rparr>)),
      os_write_all = (\<lambda>_ d m. (Inr (), m\<lparr>mf_data := pwrite (mf_pos m) d (mf_data m), mf_pos := mf_pos m + length d\<rparr>))\<rparr>"

lemma mem_seeks_ok: "seeks_ok mem_os f mf_data mf_pos"
  by (simp add: seeks_ok_def mem_os_def)

lemma mem_reads_ok: "reads_ok mem_os f mf_data mf_pos"
proof -
  have "\<exists>m fs'. os_read mem_os f n fs = (Inr (take m (drop (mf_pos fs) (mf_data fs))), fs') \<and>
      m \<le> n \<and> mf_data fs' = mf_data fs \<and> (0 < n \<and> mf_pos fs < length (mf_data fs) \<longrightarrow> 0 < m)" for n fs
    by (rule exI [of _ "min 3 n"]) (simp add: mem_os_def)
  then show ?thesis by (simp add: reads_ok_def mem_seeks_ok)
qed

lemma mem_writes_ok: "writes_ok mem_os f mf_data mf_pos"
  by (simp add: writes_ok_def mem_seeks_ok) (simp add: mem_os_def)

lemma wire_reads_encode: "reads_encode wire_sc"
  by (simp add: reads_encode_def encodes_def wire_sc_def enc_resp_def read_response_def CHUNK_def MAX_FRAME_SIZE_def)

lemma wire_writes_encode: "encodes wire_sc (write_response sq st t)"
  by (simp add: encodes_def wire_sc_def enc_resp_def write_response_def MAX_FRAME_SIZE_def)

lemma wire_reads_request: "enc_request wire_cc (Q_Read q) = Some b \<Longrightarrow> length b \<le> MAX_FRAME_SIZE"
  by (auto simp: wire_cc_def enc_req_def MAX_FRAME_SIZE_def)

section \<open>Streams in memory\<close>

definition loop_env :: "server_codec \<Rightarrow> (component list \<Rightarrow> u64) \<Rightarrow> (bytes, bytes) env" where
  "loop_env sc ph = \<lparr>e_codec = sc, e_write_all = buf_write, e_finish = (\<lambda>w. (Inr (), w)),
     e_read_exact = buf_read, e_path_hash = ph\<rparr>"

lemma sends_ok_loop: "sends_ok (loop_env sc ph) id"
  by (simp add: sends_ok_def loop_env_def buf_write_def)

lemma consumes_loop: "consumes (e_read_exact (loop_env sc ph)) id"
  by (simp add: loop_env_def consumes_buf_read)

lemma loop_env_codec [simp]: "e_codec (loop_env sc ph) = sc"
  by (simp add: loop_env_def)

end
