(* ===== verification/Replies.thy ===== *)
theory Replies
  imports Wire_Model
begin

text \<open>
  Every request gets one answer. \<open>replies\<close> says what a handler leaves on the stream: one frame, of a
  response with the operation code and the sequence number of the request; or, if that response does
  not encode into a frame, an error. Reads and writes, which exchange several frames, are the
  subject of File\_IO. The second part is what becomes of a handle the server does not know.
\<close>

definition replies ::
  "('w, 'r) env \<Rightarrow> ('w \<Rightarrow> bytes) \<Rightarrow> u8 \<Rightarrow> u64 \<Rightarrow> 'w \<Rightarrow> (anyhow + unit) \<times> ('fs, 'w, 'r) srv \<Rightarrow> bool" where
  "replies env sent op sq w out =
     (\<exists>resp. resp_op resp = op \<and> resp_seq resp = sq \<and>
        (if encodes (e_codec env) resp
         then fst out = Inr () \<and> sent (x_send (snd out)) = sent w @ enc_frame (e_codec env) resp
         else \<not> is_ok (fst out)))"

lemma send_frame_fails:
  "\<not> encodes (e_codec env) r \<Longrightarrow> \<exists>e. send_frame env r x = (Inl e, x)"
  by (auto simp: encodes_def send_frame_def encode_def write_frame_def ok_or_def split: option.splits)

lemma replies_fst_snd:
  "replies env sent op sq w out \<Longrightarrow> fst out' = fst out \<Longrightarrow> x_send (snd out') = x_send (snd out) \<Longrightarrow>
   replies env sent op sq w out'"
  by (simp only: replies_def)

lemma then_record_0_eq: "then_record_0 m (record_tx 0) = m"
  by (auto simp: then_record_0_def andthen_def fun_eq_iff split: prod.split sum.split)

lemma on_fs_send: "x_send (snd (on_fs m x)) = x_send x"
  by (simp add: on_fs_def split: prod.split)

lemma sync_if_ok_send [simp]: "x_send (sync_if_ok os root s p x) = x_send x"
  by (simp add: sync_if_ok_def)

lemma insert_session_send: "x_send (snd (insert_session os env p f fd x)) = x_send x"
  by (simp add: insert_session_def split: prod.split)

lemmas reply_forms = with_decoded_def decode_def reply_0_eq then_record_0_eq send_stat_resp_def
  send_status_def send_statfs_resp_def open_response_def on_fs_def insert_session_def Let_def

section \<open>The interface of a stream that works\<close>

text \<open>What the handlers need of the sending half of a stream; the lemmas hold for every instance.\<close>

locale working_stream =
  fixes env :: "('w, 'r) env" and sent :: "'w \<Rightarrow> bytes"
  assumes works: "sends_ok env sent"
begin

lemma replies_reply:
  assumes "resp_op r = op" and "resp_seq r = sq" and "x_send x = w"
  shows "replies env sent op sq w (reply env r x)"
proof (cases "encodes (e_codec env) r")
  case True
  obtain w' where "reply env r x = (Inr (), x\<lparr>x_send := w'\<rparr>)" "sent w' = sent (x_send x) @ enc_frame (e_codec env) r"
    using works True by (rule reply_ok)
  with True assms show ?thesis by (simp add: replies_def exI [of _ r])
next
  case False
  obtain e where "send_frame env r x = (Inl e, x)" using send_frame_fails [OF False, of x] by blast
  with False assms show ?thesis by (simp add: replies_def reply_def exI [of _ r])
qed

lemma replies_reply_rec:
  assumes "resp_op r = op" and "resp_seq r = sq" and "x_send x = w"
  shows "replies env sent op sq w (reply_rec env r x)"
proof (cases "encodes (e_codec env) r")
  case True
  obtain n w' where "reply_rec env r x = (Inr (), record_tx n (x\<lparr>x_send := w'\<rparr>))"
      "sent w' = sent (x_send x) @ enc_frame (e_codec env) r"
    using works True by (rule reply_rec_ok)
  with True assms show ?thesis by (simp add: replies_def exI [of _ r])
next
  case False
  obtain e where "send_frame env r x = (Inl e, x)" using send_frame_fails [OF False, of x] by blast
  with False assms show ?thesis by (simp add: replies_def reply_rec_def exI [of _ r])
qed

lemmas reply_intros = replies_reply replies_reply_rec

lemma getattr_replies:
  "dec_GetAttrRequest (e_codec env) raw = Some q \<Longrightarrow>
   replies env sent OP_GET_ATTR (gaq_seq q) (x_send x) (handle_getattr os env root raw x)"
  by (auto simp: handle_getattr_def reply_forms intro!: reply_intros split: sum.split)

lemma setattr_replies:
  "dec_SetAttrRequest (e_codec env) raw = Some q \<Longrightarrow>
   replies env sent OP_SET_ATTR (saq_seq q) (x_send x) (handle_setattr os env root raw x)"
  by (auto simp: handle_setattr_def reply_forms intro!: reply_intros split: sum.split prod.split)

lemma readdir_replies:
  "dec_ReadDirRequest (e_codec env) raw = Some q \<Longrightarrow>
   replies env sent OP_READ_DIR (rdq_seq q) (x_send x) (handle_readdir os env root raw x)"
  by (auto simp: handle_readdir_def reply_forms intro!: reply_intros split: sum.split)

lemma mkdir_replies:
  "dec_MkDirRequest (e_codec env) raw = Some q \<Longrightarrow>
   replies env sent OP_MKDIR (mkq_seq q) (x_send x) (handle_mkdir os env root raw x)"
  by (auto simp: handle_mkdir_def reply_forms intro!: reply_intros split: sum.split prod.split)

lemma rmdir_replies:
  "dec_PathRequest (e_codec env) raw = Some q \<Longrightarrow>
   replies env sent OP_RMDIR (pq_seq q) (x_send x) (handle_rmdir os env root raw x)"
  by (auto simp: handle_rmdir_def reply_forms intro!: reply_intros split: sum.split prod.split)

lemma unlink_replies:
  "dec_PathRequest (e_codec env) raw = Some q \<Longrightarrow>
   replies env sent OP_UNLINK (pq_seq q) (x_send x) (handle_unlink os env root raw x)"
  by (auto simp: handle_unlink_def reply_forms intro!: reply_intros split: sum.split prod.split)

lemma rename_replies:
  "dec_RenameRequest (e_codec env) raw = Some q \<Longrightarrow>
   replies env sent OP_RENAME (rnq_seq q) (x_send x) (handle_rename os env root raw x)"
  by (auto simp: handle_rename_def reply_forms intro!: reply_intros split: sum.split prod.split)

lemma symlink_replies:
  "dec_SymlinkRequest (e_codec env) raw = Some q \<Longrightarrow>
   replies env sent OP_SYMLINK (syq_seq q) (x_send x) (handle_symlink os env root raw x)"
  by (auto simp: handle_symlink_def reply_forms intro!: reply_intros split: sum.split prod.split)

lemma readlink_replies:
  "dec_PathRequest (e_codec env) raw = Some q \<Longrightarrow>
   replies env sent OP_READLINK (pq_seq q) (x_send x) (handle_readlink os env root raw x)"
  by (auto simp: handle_readlink_def reply_forms intro!: reply_intros split: sum.split prod.split)

lemma link_replies:
  "dec_LinkRequest (e_codec env) raw = Some q \<Longrightarrow>
   replies env sent OP_LINK (lnq_seq q) (x_send x) (handle_link os env root raw x)"
  by (auto simp: handle_link_def reply_forms intro!: reply_intros split: sum.split prod.split)

lemma statfs_replies:
  "dec_PathRequest (e_codec env) raw = Some q \<Longrightarrow>
   replies env sent OP_STAT_FS (pq_seq q) (x_send x) (handle_statfs os env root raw x)"
  by (auto simp: handle_statfs_def reply_forms intro!: reply_intros split: sum.split prod.split)

lemma open_replies:
  "dec_OpenRequest (e_codec env) raw = Some q \<Longrightarrow>
   replies env sent OP_OPEN (opq_seq q) (x_send x) (handle_open os env root raw x)"
  by (auto simp: handle_open_def reply_forms intro!: reply_intros split: sum.split prod.split)

lemma create_replies:
  "dec_CreateRequest (e_codec env) raw = Some q \<Longrightarrow>
   replies env sent OP_CREATE (crq_seq q) (x_send x) (handle_create os env root raw x)"
  by (auto simp: handle_create_def reply_forms intro!: reply_intros split: sum.split prod.split)

lemma fsync_replies:
  "dec_FsyncRequest (e_codec env) raw = Some q \<Longrightarrow>
   replies env sent OP_FSYNC (fsq_seq q) (x_send x) (handle_fsync os env raw x)"
  by (auto simp: handle_fsync_def reply_forms intro!: reply_intros split: option.split prod.split)

lemma ping_replies:
  "dec_PingRequest (e_codec env) raw = Some q \<Longrightarrow>
   replies env sent OP_PING (pgq_seq q) (x_send x) (handle_ping env raw x)"
  by (auto simp: handle_ping_def reply_forms intro!: reply_intros)

lemma replies_reply_eq:
  assumes "reply env r x = (a, y)" and "resp_op r = op" and "resp_seq r = sq" and "x_send x = w"
    and "x_send y' = x_send y"
  shows "replies env sent op sq w (a, y')"
  by (rule replies_fst_snd [OF replies_reply [OF assms(2-4)]]) (simp_all add: assms(1,5))

lemma release_replies:
  "dec_ReleaseRequest (e_codec env) raw = Some q \<Longrightarrow>
   replies env sent OP_RELEASE (rlq_seq q) (x_send x) (handle_release os env raw x)"
  unfolding handle_release_def reply_forms remove_handle_def
  by (auto split: option.split prod.split) (auto elim!: replies_reply_eq)

end

interpretation loop: working_stream "loop_env sc ph" id
  by unfold_locales (rule sends_ok_loop)

text \<open>Requests whose operation code is that of their kind, as the client builds them.\<close>

fun op_matches :: "request \<Rightarrow> bool" where
  "op_matches (Q_Ping q) = (pgq_op q = OP_PING)"
| "op_matches (Q_GetAttr q) = (gaq_op q = OP_GET_ATTR)"
| "op_matches (Q_SetAttr q) = (saq_op q = OP_SET_ATTR)"
| "op_matches (Q_ReadDir q) = (rdq_op q = OP_READ_DIR)"
| "op_matches (Q_MkDir q) = (mkq_op q = OP_MKDIR)"
| "op_matches (Q_Path q) = (pq_op q \<in> {OP_RMDIR, OP_UNLINK, OP_READLINK, OP_STAT_FS})"
| "op_matches (Q_Rename q) = (rnq_op q = OP_RENAME)"
| "op_matches (Q_Symlink q) = (syq_op q = OP_SYMLINK)"
| "op_matches (Q_Link q) = (lnq_op q = OP_LINK)"
| "op_matches (Q_Open q) = (opq_op q = OP_OPEN)"
| "op_matches (Q_Release q) = (rlq_op q = OP_RELEASE)"
| "op_matches (Q_Create q) = (crq_op q = OP_CREATE)"
| "op_matches (Q_Fsync q) = (fsq_op q = OP_FSYNC)"
| "op_matches _ = False"



section \<open>Handles the server does not know\<close>


definition stale_codec :: server_codec where
  "stale_codec = wire_sc
     \<lparr>dec_ReadRequest := (\<lambda>_. Some \<lparr>rq_op = OP_READ, rq_seq = 1, rq_handle = 0x500000001, rq_offset = 0, rq_length = 1\<rparr>),
      dec_WriteRequest := (\<lambda>_. Some \<lparr>wq_op = OP_WRITE, wq_seq = 2, wq_handle = 0x500000001, wq_offset = 0,
        wq_data = [1], wq_done = True\<rparr>),
      dec_FsyncRequest := (\<lambda>_. Some \<lparr>fsq_op = OP_FSYNC, fsq_seq = 3, fsq_handle = 0x500000001, fsq_datasync = False\<rparr>),
      dec_ReleaseRequest := (\<lambda>_. Some \<lparr>rlq_op = OP_RELEASE, rlq_seq = 4, rlq_handle = 0x500000001\<rparr>)\<rparr>"


end
