(* ===== verification/Conn.thy ===== *)
theory Conn
  imports Frame_IO Trust
begin

text \<open>
  The client's connection manager (\<open>client/src/conn.rs\<close>): trust on first use, reconnection, and
  one definition per remote call. The record \<open>net\<close> is quinn and rustls: connecting under a
  certificate verifier, whether the connection is live, and the current bidirectional stream
  (each call opens its own). Its state \<open>'n\<close> stands for everything beyond the client. A call that may wait
  for ever is an \<open>option\<close>; \<open>deadline\<close> turns that into the time-out error.
\<close>

section \<open>Parameters and state\<close>

record 'n net =
  n_connect :: "(bytes \<Rightarrow> string option \<Rightarrow> (string + unit) \<times> string option) \<Rightarrow> string option \<Rightarrow> 'n \<Rightarrow>
                (anyhow + unit) \<times> string option \<times> 'n"
  n_live :: "'n \<Rightarrow> bool"
  n_close :: "'n \<Rightarrow> 'n"
  n_open_bi :: "'n \<Rightarrow> (anyhow + unit) \<times> 'n"
  n_write_all :: "bytes \<Rightarrow> 'n \<Rightarrow> (io_error + unit) \<times> 'n"
  n_finish :: "'n \<Rightarrow> (anyhow + unit) \<times> 'n"
  n_read_exact :: "nat \<Rightarrow> 'n \<Rightarrow> (io_error + bytes) \<times> 'n"

datatype TofuPolicy = Prompt | AcceptNew | Strict

record MountConfig =
  mc_host_key :: string
  mc_chunk_size :: u32
  mc_tofu :: TofuPolicy
  mc_known_hosts_path :: string

text \<open>The fields of \<open>Inner\<close>; \<open>cm_conn\<close> says whether a connection is stored.\<close>

record 'n cm =
  cm_conn :: bool
  cm_cfg :: MountConfig
  cm_seq :: u64
  cm_gen :: u64
  cm_expected_fp :: "string option"
  cm_sink :: "string option"
  cm_net :: 'n

definition on_net :: "('n \<Rightarrow> 'a \<times> 'n) \<Rightarrow> 'n cm \<Rightarrow> 'a \<times> 'n cm" where
  "on_net m c = (case m (cm_net c) of (a, n) \<Rightarrow> (a, c\<lparr>cm_net := n\<rparr>))"

text \<open>\<open>result.context(text)\<close> replaces what the error displays.\<close>

definition context_err :: "anyhow \<Rightarrow> ('s \<Rightarrow> ('e + 'a) \<times> 's) \<Rightarrow> 's \<Rightarrow> (anyhow + 'a) \<times> 's" where
  "context_err what m s = (case m s of (Inl _, s1) \<Rightarrow> (Inl what, s1) | (Inr a, s1) \<Rightarrow> (Inr a, s1))"

definition next_seq :: "'n cm \<Rightarrow> u64 \<times> 'n cm" where
  "next_seq c = (cm_seq c, c\<lparr>cm_seq := cm_seq c + 1\<rparr>)"

definition reconnect_gen :: "'n cm \<Rightarrow> u64" where
  "reconnect_gen c = cm_gen c"

definition server_fingerprint :: "'n cm \<Rightarrow> string option" where
  "server_fingerprint c = cm_expected_fp c"

section \<open>First contact\<close>

datatype input = Line string | ReadErr anyhow

fun prompt_yes_no :: "input list \<Rightarrow> anyhow + bool" where
  "prompt_yes_no [] = Inr False"
| "prompt_yes_no (ReadErr e # _) = Inl e"
| "prompt_yes_no (Line line # ls) =
     (if trim_str line = ''yes'' then Inr True
      else if trim_str line = ''no'' then Inr False
      else prompt_yes_no ls)"

text \<open>\<open>tty\<close>: whether standard input is a terminal; \<open>ls\<close>: what is typed there.\<close>

definition decide_first_contact :: "bool \<Rightarrow> input list \<Rightarrow> TofuPolicy \<Rightarrow> anyhow + bool" where
  "decide_first_contact tty ls policy =
     (case policy of
        Strict \<Rightarrow> Inr False
      | AcceptNew \<Rightarrow> Inr True
      | Prompt \<Rightarrow> if \<not> tty then Inr False else prompt_yes_no ls)"

section \<open>Connecting\<close>

definition pin_mode :: "'n cm \<Rightarrow> PinMode" where
  "pin_mode c = (case cm_expected_fp c of Some fp \<Rightarrow> Enforce fp | None \<Rightarrow> Capture)"

definition establish :: "crypto \<Rightarrow> 'n net \<Rightarrow> 'n cm \<Rightarrow> (anyhow + unit) \<times> 'n cm" where
  "establish cr net c =
     (case n_connect net (verify_server_cert cr (pin_mode c)) (cm_sink c) (cm_net c) of
        (r, sink, n) \<Rightarrow> (r, c\<lparr>cm_sink := sink, cm_net := n\<rparr>))"

definition client_encode :: "client_codec \<Rightarrow> request \<Rightarrow> anyhow + bytes" where
  "client_encode cc r = ok_or (enc_request cc r) ''msgpack encode''"

definition client_decode :: "(bytes \<Rightarrow> 'a option) \<Rightarrow> bytes \<Rightarrow> anyhow + 'a" where
  "client_decode dec raw = ok_or (dec raw) ''msgpack decode''"

text \<open>\<open>write_frame(&mut send, &encode(req)?)\<close> and \<open>decode(&read_frame(&mut recv)?)\<close>.\<close>

definition send_request :: "client_codec \<Rightarrow> 'n net \<Rightarrow> request \<Rightarrow> 'n cm \<Rightarrow> (anyhow + unit) \<times> 'n cm" where
  "send_request cc net req c =
     (case client_encode cc req of
        Inl e \<Rightarrow> (Inl e, c)
      | Inr b \<Rightarrow> on_net (write_frame (n_write_all net) b) c)"

definition recv_response :: "'n net \<Rightarrow> (bytes \<Rightarrow> 'a option) \<Rightarrow> 'n cm \<Rightarrow> (anyhow + 'a) \<times> 'n cm" where
  "recv_response net dec =
     andthen (on_net (read_frame (n_read_exact net))) (\<lambda>raw c. (client_decode dec raw, c))"

definition app_handshake :: "client_codec \<Rightarrow> 'n net \<Rightarrow> string \<Rightarrow> 'n cm \<Rightarrow> (anyhow + unit) \<times> 'n cm" where
  "app_handshake cc net client_id c =
     andthen (context_err ''open handshake stream'' (on_net (n_open_bi net))) (\<lambda>_.
     andthen (send_request cc net (Q_Handshake \<lparr>hsq_op = OP_HANDSHAKE, hsq_seq = 1, hsq_version = 1,
        hsq_client_id = client_id, hsq_features = [], hsq_chunk_size = mc_chunk_size (cm_cfg c),
        hsq_auth_type = ''mtls''\<rparr>)) (\<lambda>_.
     andthen (context_err ''finish handshake send'' (on_net (n_finish net))) (\<lambda>_.
     andthen (recv_response net (dec_HandshakeResponse cc)) (\<lambda>resp c.
       (if hsr_status resp \<noteq> 0
        then Inl (''server rejected handshake: status='' @ show_nat (unat (hsr_status resp)))
        else Inr (), c))))) c"

definition host_key_changed :: "anyhow \<Rightarrow> MountConfig \<Rightarrow> anyhow" where
  "host_key_changed e cfg =
     e @ [CHR 0x0A, CHR 0x0A] @
     ''@@@@@@@@@@@@@@@@@@@@@@@@@@@@@@@@@@@@@@@@@@@@@@@@@@@@@@@@@@@'' @ [CHR 0x0A] @
     ''@  WARNING: REMOTE HOST IDENTIFICATION HAS CHANGED!     @'' @ [CHR 0x0A] @
     ''@@@@@@@@@@@@@@@@@@@@@@@@@@@@@@@@@@@@@@@@@@@@@@@@@@@@@@@@@@@'' @ [CHR 0x0A] @
     ''The server key for '' @ mc_host_key cfg @ '' does not match the pinned key in'' @ [CHR 0x0A] @
     to_string_lossy (mc_known_hosts_path cfg) @ ''.'' @ [CHR 0x0A] @
     ''This may indicate a man-in-the-middle attack, or the server'' @ [CHR 0x0A] @
     ''key was rotated. If you trust the change, remove the old line'' @ [CHR 0x0A] @
     ''and reconnect.''"

definition cm_new :: "MountConfig \<Rightarrow> 'n \<Rightarrow> 'n cm" where
  "cm_new cfg n = \<lparr>cm_conn = False, cm_cfg = cfg, cm_seq = 2, cm_gen = 0, cm_expected_fp = None,
     cm_sink = None, cm_net = n\<rparr>"

text \<open>Step 3 of \<open>connect\<close>: decide on the captured key, pin it and store the pin.\<close>

definition pin_first_contact ::
  "'fs files \<Rightarrow> 'n net \<Rightarrow> bool \<Rightarrow> input list \<Rightarrow> KnownHosts \<Rightarrow> 'n cm \<Rightarrow> 'fs \<Rightarrow>
   (anyhow + unit) \<times> 'n cm \<times> 'fs" where
  "pin_first_contact uf net tty ls known c fs =
     (case cm_sink c of
        None \<Rightarrow> (Inl ''server presented no certificate'', c, fs)
      | Some captured \<Rightarrow>
          (let c1 = c\<lparr>cm_sink := None\<rparr>
           in case decide_first_contact tty ls (mc_tofu (cm_cfg c)) of
                Inl e \<Rightarrow> (Inl e, c1, fs)
              | Inr False \<Rightarrow>
                  (Inl (''host key for '' @ mc_host_key (cm_cfg c) @ '' was not accepted''),
                   c1\<lparr>cm_net := n_close net (cm_net c1)\<rparr>, fs)
              | Inr True \<Rightarrow>
                  (case context_err ''persist known_hosts''
                          (known_hosts_save uf (known_hosts_insert (mc_host_key (cm_cfg c)) captured known)) fs of
                     (Inl e, fs1) \<Rightarrow> (Inl e, c1, fs1)
                   | (Inr _, fs1) \<Rightarrow> (Inr (), c1\<lparr>cm_expected_fp := Some captured\<rparr>, fs1))))"

definition connect ::
  "crypto \<Rightarrow> 'fs files \<Rightarrow> client_codec \<Rightarrow> 'n net \<Rightarrow> bool \<Rightarrow> input list \<Rightarrow> string \<Rightarrow> MountConfig \<Rightarrow> 'n \<Rightarrow> 'fs \<Rightarrow>
   (anyhow + 'n cm) \<times> 'fs" where
  "connect cr uf cc net tty ls client_id cfg n fs =
     (case known_hosts_load uf fs (mc_known_hosts_path cfg) of
        Inl _ \<Rightarrow> (Inl (''load known_hosts: '' @ to_string_lossy (mc_known_hosts_path cfg)), fs)
      | Inr known \<Rightarrow>
          (let pinned = known_hosts_get known (mc_host_key cfg);
               c0 = (cm_new cfg n)\<lparr>cm_expected_fp := pinned\<rparr>
           in case establish cr net c0 of
                (Inl e, _) \<Rightarrow> (Inl (if pinned \<noteq> None then host_key_changed e cfg else e), fs)
              | (Inr _, c1) \<Rightarrow>
                  (case (if pinned = None then pin_first_contact uf net tty ls known c1 fs
                         else (Inr (), c1, fs)) of
                     (Inl e, _, fs1) \<Rightarrow> (Inl e, fs1)
                   | (Inr _, c2, fs1) \<Rightarrow>
                       (case context_err ''QuicFS handshake'' (app_handshake cc net client_id) c2 of
                          (Inl e, _) \<Rightarrow> (Inl e, fs1)
                        | (Inr _, c3) \<Rightarrow> (Inr (c3\<lparr>cm_conn := True\<rparr>), fs1)))))"

section \<open>Reconnecting\<close>

definition do_connect ::
  "crypto \<Rightarrow> client_codec \<Rightarrow> 'n net \<Rightarrow> string \<Rightarrow> 'n cm \<Rightarrow> (anyhow + unit) \<times> 'n cm" where
  "do_connect cr cc net client_id =
     andthen (establish cr net) (\<lambda>_.
     andthen (app_handshake cc net client_id) (\<lambda>_ c. (Inr (), c\<lparr>cm_conn := True\<rparr>)))"

definition RPC_TIMEOUT :: nat where "RPC_TIMEOUT = 30000"

definition timed_out :: "string \<Rightarrow> anyhow" where
  "timed_out what = what @ '' timed out after 30s''"

definition deadline :: "string \<Rightarrow> 's \<Rightarrow> ((anyhow + 'a) \<times> 's) option \<Rightarrow> (anyhow + 'a) \<times> 's" where
  "deadline what s r = (case r of Some x \<Rightarrow> x | None \<Rightarrow> (Inl (timed_out what), s))"

text \<open>The delay before the next attempt, after a number of failed ones: it doubles up to 30 s.\<close>

primrec backoff :: "nat \<Rightarrow> nat" where
  "backoff 0 = 100"
| "backoff (Suc k) = min (backoff k * 2) 30000"

lemma backoff_ge: "100 \<le> backoff k"
  by (induction k) auto

definition retry_sleep :: "nat \<Rightarrow> nat \<Rightarrow> nat" where
  "retry_sleep attempt delay = delay + saturating_mul (delay div 4) (attempt mod 3)"

text \<open>What a call needs besides its arguments.\<close>

record 'n cenv =
  ce_crypto :: crypto
  ce_codec :: client_codec
  ce_net :: "'n net"
  ce_client_id :: string

text \<open>The retry loop after \<open>k\<close> failed attempts, with the milliseconds slept since the operation
  began. The caller's deadline cuts it off; an attempt itself takes no time here, a real one only uses
  up more of the deadline.\<close>

function reconnect_loop ::
  "'n cenv \<Rightarrow> string \<Rightarrow> nat \<Rightarrow> nat \<Rightarrow> 'n cm \<Rightarrow> (anyhow + unit) \<times> 'n cm" where
  "reconnect_loop e what k elapsed c =
     (if elapsed \<ge> RPC_TIMEOUT then (Inl (timed_out what), c)
      else case do_connect (ce_crypto e) (ce_codec e) (ce_net e) (ce_client_id e) c of
             (Inr _, c1) \<Rightarrow> (Inr (), c1\<lparr>cm_gen := cm_gen c1 + 1\<rparr>)
           | (Inl _, c1) \<Rightarrow>
               reconnect_loop e what (k + 1) (elapsed + retry_sleep (k + 1) (backoff k)) c1)"
  by pat_completeness auto
termination
proof (relation "measure (\<lambda>(e, what, k, elapsed, c). RPC_TIMEOUT - elapsed)", goal_cases)
  case (2 e what k elapsed c)
  then show ?case using backoff_ge [of k] by (simp add: retry_sleep_def)
qed simp

declare reconnect_loop.simps [simp del]

definition reconnect :: "'n cenv \<Rightarrow> string \<Rightarrow> 'n cm \<Rightarrow> (anyhow + unit) \<times> 'n cm" where
  "reconnect e what = reconnect_loop e what 0 0"

definition live_conn :: "'n cenv \<Rightarrow> 'n cm \<Rightarrow> bool" where
  "live_conn e c = (cm_conn c \<and> n_live (ce_net e) (cm_net c))"

definition ensure_conn :: "'n cenv \<Rightarrow> string \<Rightarrow> 'n cm \<Rightarrow> (anyhow + unit) \<times> 'n cm" where
  "ensure_conn e what c = (if live_conn e c then (Inr (), c) else reconnect e what c)"

section \<open>Remote calls\<close>

definition rpc :: "'n cenv \<Rightarrow> (bytes \<Rightarrow> 'a option) \<Rightarrow> request \<Rightarrow> 'n cm \<Rightarrow> (anyhow + 'a) \<times> 'n cm" where
  "rpc e dec req =
     andthen (ensure_conn e ''RPC'') (\<lambda>_.
     andthen (context_err ''open RPC stream'' (on_net (n_open_bi (ce_net e)))) (\<lambda>_.
     andthen (send_request (ce_codec e) (ce_net e) req) (\<lambda>_.
     andthen (context_err ''finish RPC send'' (on_net (n_finish (ce_net e)))) (\<lambda>_.
     recv_response (ce_net e) dec))))"

text \<open>\<open>check_status(resp.status)?\<close>, then the field that must be there.\<close>

definition checked :: "u8 \<Rightarrow> anyhow + 'a \<Rightarrow> anyhow + 'a" where
  "checked status r = (case check_status status of Inl e \<Rightarrow> Inl e | Inr _ \<Rightarrow> r)"

definition rpc_seq :: "(u64 \<Rightarrow> request) \<Rightarrow> 'n cenv \<Rightarrow> (bytes \<Rightarrow> 'r option) \<Rightarrow> ('r \<Rightarrow> anyhow + 'a) \<Rightarrow> 'n cm \<Rightarrow>
    (anyhow + 'a) \<times> 'n cm" where
  "rpc_seq req e dec k c =
     (case next_seq c of (sq, c1) \<Rightarrow> andthen (rpc e dec (req sq)) (\<lambda>resp c. (k resp, c)) c1)"

definition cm_getattr :: "'n cenv \<Rightarrow> string \<Rightarrow> 'n cm \<Rightarrow> (anyhow + Stat) \<times> 'n cm" where
  "cm_getattr e path =
     rpc_seq (\<lambda>sq. Q_GetAttr \<lparr>gaq_op = OP_GET_ATTR, gaq_seq = sq, gaq_path = path\<rparr>) e
       (dec_GetAttrResponse (ce_codec e))
       (\<lambda>resp. checked (gar_status resp) (ok_or (gar_stat resp) ''missing stat''))"

definition cm_setattr ::
  "'n cenv \<Rightarrow> string \<Rightarrow> u32 \<Rightarrow> u32 \<Rightarrow> u32 \<Rightarrow> u32 \<Rightarrow> u64 \<Rightarrow> i64 \<Rightarrow> i64 \<Rightarrow> 'n cm \<Rightarrow> (anyhow + Stat) \<times> 'n cm" where
  "cm_setattr e path valid mode uid gid sz atime mtime =
     rpc_seq (\<lambda>sq. Q_SetAttr \<lparr>saq_op = OP_SET_ATTR, saq_seq = sq, saq_path = path, saq_valid = valid,
         saq_mode = mode, saq_uid = uid, saq_gid = gid, saq_size = sz, saq_atime = atime, saq_mtime = mtime\<rparr>) e
       (dec_SetAttrResponse (ce_codec e))
       (\<lambda>resp. checked (sar_status resp) (ok_or (sar_stat resp) ''missing stat''))"

text \<open>\<open>readdir\<close>: page after page until the server reports the end.\<close>

partial_function (option) readdir_pages ::
  "'n cenv \<Rightarrow> string \<Rightarrow> DirEntry list \<Rightarrow> u64 \<Rightarrow> 'n cm \<Rightarrow> ((anyhow + DirEntry list) \<times> 'n cm) option" where
  "readdir_pages e path entries cursor c =
     (case rpc_seq (\<lambda>sq. Q_ReadDir \<lparr>rdq_op = OP_READ_DIR, rdq_seq = sq, rdq_path = path, rdq_cursor = cursor\<rparr>) e
             (dec_ReadDirResponse (ce_codec e)) (\<lambda>resp. checked (rdr_status resp) (Inr resp)) c of
        (Inl err, c1) \<Rightarrow> Some (Inl err, c1)
      | (Inr resp, c1) \<Rightarrow>
          (let entries' = entries @ rdr_entries resp
           in if rdr_eof resp then Some (Inr entries', c1)
              else readdir_pages e path entries' (rdr_cursor resp) c1))"

definition cm_readdir :: "'n cenv \<Rightarrow> string \<Rightarrow> 'n cm \<Rightarrow> ((anyhow + DirEntry list) \<times> 'n cm) option" where
  "cm_readdir e path = readdir_pages e path [] 0"

definition cm_mkdir :: "'n cenv \<Rightarrow> string \<Rightarrow> u32 \<Rightarrow> 'n cm \<Rightarrow> (anyhow + Stat) \<times> 'n cm" where
  "cm_mkdir e path mode =
     rpc_seq (\<lambda>sq. Q_MkDir \<lparr>mkq_op = OP_MKDIR, mkq_seq = sq, mkq_path = path, mkq_mode = mode\<rparr>) e
       (dec_GetAttrResponse (ce_codec e))
       (\<lambda>resp. checked (gar_status resp) (ok_or (gar_stat resp) ''missing stat''))"

definition cm_rmdir :: "'n cenv \<Rightarrow> string \<Rightarrow> 'n cm \<Rightarrow> (anyhow + unit) \<times> 'n cm" where
  "cm_rmdir e path =
     rpc_seq (\<lambda>sq. Q_Path \<lparr>pq_op = OP_RMDIR, pq_seq = sq, pq_path = path\<rparr>) e
       (dec_StatusResponse (ce_codec e)) (\<lambda>resp. check_status (sr_status resp))"

definition cm_unlink :: "'n cenv \<Rightarrow> string \<Rightarrow> 'n cm \<Rightarrow> (anyhow + unit) \<times> 'n cm" where
  "cm_unlink e path =
     rpc_seq (\<lambda>sq. Q_Path \<lparr>pq_op = OP_UNLINK, pq_seq = sq, pq_path = path\<rparr>) e
       (dec_StatusResponse (ce_codec e)) (\<lambda>resp. check_status (sr_status resp))"

definition cm_rename :: "'n cenv \<Rightarrow> string \<Rightarrow> string \<Rightarrow> u32 \<Rightarrow> 'n cm \<Rightarrow> (anyhow + unit) \<times> 'n cm" where
  "cm_rename e old new flags =
     rpc_seq (\<lambda>sq. Q_Rename \<lparr>rnq_op = OP_RENAME, rnq_seq = sq, rnq_old = old, rnq_new = new, rnq_flags = flags\<rparr>) e
       (dec_RenameResponse (ce_codec e)) (\<lambda>resp. check_status (rnr_status resp))"

definition cm_symlink :: "'n cenv \<Rightarrow> string \<Rightarrow> string \<Rightarrow> 'n cm \<Rightarrow> (anyhow + Stat) \<times> 'n cm" where
  "cm_symlink e target link =
     rpc_seq (\<lambda>sq. Q_Symlink \<lparr>syq_op = OP_SYMLINK, syq_seq = sq, syq_target = target, syq_link = link\<rparr>) e
       (dec_GetAttrResponse (ce_codec e))
       (\<lambda>resp. checked (gar_status resp) (ok_or (gar_stat resp) ''missing stat''))"

definition cm_readlink :: "'n cenv \<Rightarrow> string \<Rightarrow> 'n cm \<Rightarrow> (anyhow + string) \<times> 'n cm" where
  "cm_readlink e path =
     rpc_seq (\<lambda>sq. Q_Path \<lparr>pq_op = OP_READLINK, pq_seq = sq, pq_path = path\<rparr>) e
       (dec_ReadLinkResponse (ce_codec e)) (\<lambda>resp. checked (lkr_status resp) (Inr (lkr_target resp)))"

definition cm_link :: "'n cenv \<Rightarrow> string \<Rightarrow> string \<Rightarrow> 'n cm \<Rightarrow> (anyhow + Stat) \<times> 'n cm" where
  "cm_link e path link =
     rpc_seq (\<lambda>sq. Q_Link \<lparr>lnq_op = OP_LINK, lnq_seq = sq, lnq_path = path, lnq_link = link\<rparr>) e
       (dec_GetAttrResponse (ce_codec e))
       (\<lambda>resp. checked (gar_status resp) (ok_or (gar_stat resp) ''missing stat''))"

definition cm_statfs :: "'n cenv \<Rightarrow> string \<Rightarrow> 'n cm \<Rightarrow> (anyhow + StatFs) \<times> 'n cm" where
  "cm_statfs e path =
     rpc_seq (\<lambda>sq. Q_Path \<lparr>pq_op = OP_STAT_FS, pq_seq = sq, pq_path = path\<rparr>) e
       (dec_StatFsResponse (ce_codec e))
       (\<lambda>resp. checked (sfr_status resp) (ok_or (sfr_statfs resp) ''missing statfs''))"

definition open_result :: "OpenResponse \<Rightarrow> anyhow + u64 \<times> Stat" where
  "open_result resp =
     checked (opr_status resp)
       (case opr_stat resp of None \<Rightarrow> Inl ''missing stat'' | Some stat \<Rightarrow> Inr (opr_handle resp, stat))"

definition cm_open :: "'n cenv \<Rightarrow> string \<Rightarrow> u32 \<Rightarrow> 'n cm \<Rightarrow> (anyhow + u64 \<times> Stat) \<times> 'n cm" where
  "cm_open e path flags =
     rpc_seq (\<lambda>sq. Q_Open \<lparr>opq_op = OP_OPEN, opq_seq = sq, opq_path = path, opq_flags = flags\<rparr>) e
       (dec_OpenResponse (ce_codec e)) open_result"

definition cm_create :: "'n cenv \<Rightarrow> string \<Rightarrow> u32 \<Rightarrow> u32 \<Rightarrow> 'n cm \<Rightarrow> (anyhow + u64 \<times> Stat) \<times> 'n cm" where
  "cm_create e path flags mode =
     rpc_seq (\<lambda>sq. Q_Create \<lparr>crq_op = OP_CREATE, crq_seq = sq, crq_path = path, crq_flags = flags, crq_mode = mode\<rparr>) e
       (dec_OpenResponse (ce_codec e)) open_result"

definition cm_release :: "'n cenv \<Rightarrow> u64 \<Rightarrow> 'n cm \<Rightarrow> (anyhow + unit) \<times> 'n cm" where
  "cm_release e handle =
     rpc_seq (\<lambda>sq. Q_Release \<lparr>rlq_op = OP_RELEASE, rlq_seq = sq, rlq_handle = handle\<rparr>) e
       (dec_ReleaseResponse (ce_codec e)) (\<lambda>resp. check_status (rlr_status resp))"

definition cm_fsync :: "'n cenv \<Rightarrow> u64 \<Rightarrow> bool \<Rightarrow> 'n cm \<Rightarrow> (anyhow + unit) \<times> 'n cm" where
  "cm_fsync e handle datasync =
     rpc_seq (\<lambda>sq. Q_Fsync \<lparr>fsq_op = OP_FSYNC, fsq_seq = sq, fsq_handle = handle, fsq_datasync = datasync\<rparr>) e
       (dec_StatusResponse (ce_codec e)) (\<lambda>resp. check_status (sr_status resp))"

definition cm_ping :: "'n cenv \<Rightarrow> 'n cm \<Rightarrow> (anyhow + unit) \<times> 'n cm" where
  "cm_ping e =
     rpc_seq (\<lambda>sq. Q_Ping \<lparr>pgq_op = OP_PING, pgq_seq = sq\<rparr>) e
       (dec_PingResponse (ce_codec e)) (\<lambda>resp. check_status (pgr_status resp))"

text \<open>\<open>read\<close>: frames are collected until one is marked as the last.\<close>

partial_function (option) read_frames ::
  "'n cenv \<Rightarrow> bytes \<Rightarrow> 'n cm \<Rightarrow> ((anyhow + bytes) \<times> 'n cm) option" where
  "read_frames e data c =
     (case recv_response (ce_net e) (dec_ReadResponse (ce_codec e)) c of
        (Inl err, c1) \<Rightarrow> Some (Inl err, c1)
      | (Inr resp, c1) \<Rightarrow>
          (case check_status (rr_status resp) of
             Inl err \<Rightarrow> Some (Inl err, c1)
           | Inr _ \<Rightarrow>
               (let data' = data @ rr_data resp
                in if rr_eof resp then Some (Inr data', c1) else read_frames e data' c1)))"

definition cm_read :: "'n cenv \<Rightarrow> u64 \<Rightarrow> u64 \<Rightarrow> u32 \<Rightarrow> 'n cm \<Rightarrow> (anyhow + bytes) \<times> 'n cm" where
  "cm_read e handle offset len =
     andthen (ensure_conn e ''read'') (\<lambda>_.
     andthen (context_err ''open read stream'' (on_net (n_open_bi (ce_net e)))) (\<lambda>_ c.
     case next_seq c of
       (sq, c1) \<Rightarrow>
         andthen (send_request (ce_codec e) (ce_net e) (Q_Read \<lparr>rq_op = OP_READ, rq_seq = sq,
             rq_handle = handle, rq_offset = offset, rq_length = len\<rparr>)) (\<lambda>_.
         andthen (context_err ''finish read send'' (on_net (n_finish (ce_net e)))) (\<lambda>_ c.
         deadline ''read'' c (read_frames e [] c))) c1))"

text \<open>\<open>slice::chunks\<close> for a positive size.\<close>

fun chunks_of :: "nat \<Rightarrow> 'a list \<Rightarrow> 'a list list" where
  "chunks_of n xs = (if n = 0 \<or> xs = [] then [] else take n xs # chunks_of n (drop n xs))"

declare chunks_of.simps [simp del]

definition write_requests :: "u64 \<Rightarrow> u64 \<Rightarrow> u64 \<Rightarrow> nat \<Rightarrow> bytes list \<Rightarrow> request list" where
  "write_requests sq handle offset chunk_size chunks =
     map (\<lambda>(i, chunk). Q_Write \<lparr>wq_op = OP_WRITE, wq_seq = sq, wq_handle = handle,
           wq_offset = offset + word_of_nat (i * chunk_size), wq_data = chunk,
           wq_done = (i + 1 = length chunks)\<rparr>)
       (enumerate 0 chunks)"

fun send_requests :: "'n cenv \<Rightarrow> request list \<Rightarrow> 'n cm \<Rightarrow> (anyhow + unit) \<times> 'n cm" where
  "send_requests e [] c = (Inr (), c)"
| "send_requests e (r # rs) c =
     andthen (send_request (ce_codec e) (ce_net e) r) (\<lambda>_. send_requests e rs) c"

definition cm_write :: "'n cenv \<Rightarrow> u64 \<Rightarrow> u64 \<Rightarrow> bytes \<Rightarrow> 'n cm \<Rightarrow> (anyhow + u64) \<times> 'n cm" where
  "cm_write e handle offset data c0 =
     (let chunk_size = max 1 (unat (mc_chunk_size (cm_cfg c0)))
      in andthen (ensure_conn e ''write'') (\<lambda>_.
         andthen (context_err ''open write stream'' (on_net (n_open_bi (ce_net e)))) (\<lambda>_ c.
         case next_seq c of
           (sq, c1) \<Rightarrow>
             andthen (send_requests e (write_requests sq handle offset chunk_size (chunks_of chunk_size data))) (\<lambda>_.
             andthen (recv_response (ce_net e) (dec_WriteResponse (ce_codec e))) (\<lambda>resp c.
               (checked (wr_status resp) (Inr (wr_written resp)), c))) c1)) c0)"

end
