(* ===== verification/Loopback.thy ===== *)
theory Loopback
  imports Replies Conn
begin

text \<open>
  Client and server together. The network state \<open>world\<close> is the server (its file system and
  session) and the current stream; the server answers what the client has sent when the client first
  reads. The theorems here say what a remote call does end to end: the client's definitions, the
  frames on the wire and the server's handlers are composed, and only the operating system and the
  codec are assumed.
\<close>

record 'fs world =
  lw_fs :: 'fs
  lw_session :: session
  lw_out :: bytes
  lw_in :: "bytes option"

definition serve_world ::
  "'fs os \<Rightarrow> server_codec \<Rightarrow> (component list \<Rightarrow> u64) \<Rightarrow> string \<Rightarrow> 'fs world \<Rightarrow> 'fs world" where
  "serve_world os sc ph root w =
     (case lw_in w of
        Some _ \<Rightarrow> w
      | None \<Rightarrow>
          (case dispatch_stream os (loop_env sc ph) root ([], lw_out w) (lw_fs w, lw_session w) of
             None \<Rightarrow> w\<lparr>lw_in := Some []\<rparr>
           | Some ((out, _), fs, ss) \<Rightarrow> w\<lparr>lw_fs := fs, lw_session := ss, lw_in := Some out\<rparr>))"

definition loop_read ::
  "'fs os \<Rightarrow> server_codec \<Rightarrow> (component list \<Rightarrow> u64) \<Rightarrow> string \<Rightarrow> nat \<Rightarrow> 'fs world \<Rightarrow>
   (io_error + bytes) \<times> 'fs world" where
  "loop_read os sc ph root n w =
     (let w1 = serve_world os sc ph root w
      in case buf_read n (case lw_in w1 of Some b \<Rightarrow> b | None \<Rightarrow> []) of
           (r, b) \<Rightarrow> (r, w1\<lparr>lw_in := Some b\<rparr>))"

text \<open>The certificate the server presents is the argument \<open>cert\<close>.\<close>

definition loop_net ::
  "'fs os \<Rightarrow> server_codec \<Rightarrow> (component list \<Rightarrow> u64) \<Rightarrow> string \<Rightarrow> bytes \<Rightarrow> 'fs world net" where
  "loop_net os sc ph root cert =
     \<lparr>n_connect = (\<lambda>v sink w. case v cert sink of
                     (Inl _, s) \<Rightarrow> (Inl ''QUIC handshake'', s, w)
                   | (Inr _, s) \<Rightarrow> (Inr (), s, w)),
      n_live = (\<lambda>_. True), n_close = id,
      n_open_bi = (\<lambda>w. (Inr (), w\<lparr>lw_out := [], lw_in := None\<rparr>)),
      n_write_all = (\<lambda>d w. (Inr (), w\<lparr>lw_out := lw_out w @ d\<rparr>)),
      n_finish = (\<lambda>w. (Inr (), w)),
      n_read_exact = loop_read os sc ph root\<rparr>"

definition req_encodes :: "client_codec \<Rightarrow> request \<Rightarrow> bool" where
  "req_encodes cc r = (\<exists>b. enc_request cc r = Some b \<and> length b \<le> MAX_FRAME_SIZE)"

definition req_frame :: "client_codec \<Rightarrow> request \<Rightarrow> bytes" where
  "req_frame cc r = (case enc_request cc r of Some b \<Rightarrow> frame_bytes b | None \<Rightarrow> [])"

text \<open>The client of a connected mount over such a network.\<close>

definition loop_cenv ::
  "'fs os \<Rightarrow> server_codec \<Rightarrow> client_codec \<Rightarrow> (component list \<Rightarrow> u64) \<Rightarrow> string \<Rightarrow> bytes \<Rightarrow> crypto \<Rightarrow> 'fs world cenv" where
  "loop_cenv os sc cc ph root cert cr =
     \<lparr>ce_crypto = cr, ce_codec = cc, ce_net = loop_net os sc ph root cert, ce_client_id = []\<rparr>"

section \<open>Sending and the server's run\<close>

lemma ensure_conn_loop [simp]:
  "cm_conn c \<Longrightarrow> ensure_conn (loop_cenv os sc cc ph root cert cr) what c = (Inr (), c)"
  by (simp add: ensure_conn_def live_conn_def loop_cenv_def loop_net_def)

lemma loop_cenv_simps [simp]:
  "ce_codec (loop_cenv os sc cc ph root cert cr) = cc"
  "ce_net (loop_cenv os sc cc ph root cert cr) = loop_net os sc ph root cert"
  by (simp_all add: loop_cenv_def)

lemma send_request_loop:
  assumes "req_encodes cc r"
  shows "send_request cc (loop_net os sc ph root cert) r c =
    (Inr (), c\<lparr>cm_net := (cm_net c)\<lparr>lw_out := lw_out (cm_net c) @ req_frame cc r\<rparr>\<rparr>)"
  using assms
  by (auto simp: req_encodes_def send_request_def client_encode_def on_net_def write_frame_def
      loop_net_def req_frame_def frame_bytes_def)

lemma send_requests_loop:
  assumes "list_all (req_encodes cc) rs"
  shows "send_requests (loop_cenv os sc cc ph root cert cr) rs c =
    (Inr (), c\<lparr>cm_net := (cm_net c)\<lparr>lw_out := lw_out (cm_net c) @ concat (map (req_frame cc) rs)\<rparr>\<rparr>)"
  using assms
  by (induction rs arbitrary: c) (simp_all add: andthen_def send_request_loop)

text \<open>Reading a frame from the bytes the server has sent.\<close>

lemma recv_frame_loop:
  assumes "lw_in (cm_net c) = Some (frame_bytes b @ rest)" and "length b \<le> MAX_FRAME_SIZE"
  shows "on_net (read_frame (n_read_exact (loop_net os sc ph root cert))) c =
    (Inr b, c\<lparr>cm_net := (cm_net c)\<lparr>lw_in := Some rest\<rparr>\<rparr>)"
proof -
  let ?w = "cm_net c"
  have "loop_read os sc ph root 4 ?w = (Inr (be32 (word_of_nat (length b))), ?w\<lparr>lw_in := Some (b @ rest)\<rparr>)"
    using assms(1) by (simp add: loop_read_def serve_world_def buf_read_def frame_bytes_def)
  moreover have "loop_read os sc ph root (length b) (?w\<lparr>lw_in := Some (b @ rest)\<rparr>) =
      (Inr b, ?w\<lparr>lw_in := Some rest\<rparr>)"
    by (simp add: loop_read_def serve_world_def buf_read_def)
  ultimately show ?thesis
    using assms(2) by (simp add: on_net_def read_frame_def loop_net_def frame_length_word)
qed

text \<open>The first read of a stream makes the server answer.\<close>

lemma on_net_update: "m (cm_net c) = m w \<Longrightarrow> on_net m (c\<lparr>cm_net := w\<rparr>) = on_net m c"
  by (simp add: on_net_def split: prod.split)

lemma recv_response_serves:
  assumes "lw_in (cm_net c) = None"
  shows "recv_response (loop_net os sc ph root cert) dec c =
    recv_response (loop_net os sc ph root cert) dec
      (c\<lparr>cm_net := serve_world os sc ph root (cm_net c)\<rparr>)"
proof -
  have "serve_world os sc ph root (serve_world os sc ph root w) = serve_world os sc ph root w" for w
    by (auto simp: serve_world_def split: option.split prod.split)
  then have "loop_read os sc ph root 4 (cm_net c) = loop_read os sc ph root 4 (serve_world os sc ph root (cm_net c))"
    by (simp add: loop_read_def)
  then have "read_frame (n_read_exact (loop_net os sc ph root cert)) (cm_net c) =
      read_frame (n_read_exact (loop_net os sc ph root cert)) (serve_world os sc ph root (cm_net c))"
    by (simp add: read_frame_def loop_net_def)
  then show ?thesis
    by (simp add: recv_response_def andthen_def on_net_update)
qed

lemma recv_response_loop:
  assumes "lw_in (cm_net c) = Some (frame_bytes b @ rest)" and "length b \<le> MAX_FRAME_SIZE"
  shows "recv_response (loop_net os sc ph root cert) dec c =
    (client_decode dec b, c\<lparr>cm_net := (cm_net c)\<lparr>lw_in := Some rest\<rparr>\<rparr>)"
  using recv_frame_loop [OF assms] by (simp add: recv_response_def)

text \<open>The server reads the first frame of a stream and routes it by the request's own code.\<close>

lemma dispatch_request:
  assumes "codec_ok sc cc" and "enc_request cc r = Some b" and "length b \<le> MAX_FRAME_SIZE"
  shows "dispatch_inner os (loop_env sc ph) root \<lparr>x_fs = fs, x_send = [], x_recv = frame_bytes b @ rest, x_session = ss\<rparr> =
    run_handler os (loop_env sc ph) root (req_op r) (req_seq r) b
      (record_rx (length b) \<lparr>x_fs = fs, x_send = [], x_recv = rest, x_session = ss\<rparr>)"
proof -
  have "read_frame buf_read (frame_bytes b @ rest) = (Inr b, rest)"
    using read_frame_of_frame [OF consumes_buf_read, of "frame_bytes b @ rest" b rest] assms(3) by simp
  moreover have "dec_Envelope sc b = Some \<lparr>env_op = req_op r, env_seq = req_seq r\<rparr>"
    using codec_ok_request [OF assms(1,2)] by simp
  ultimately show ?thesis
    by (simp add: dispatch_inner_def recv_frame_def loop_env_def decode_def)
qed

section \<open>Reading\<close>

lemma serve_world_run:
  assumes "lw_in w = None"
    and "dispatch_inner os (loop_env sc ph) root
      \<lparr>x_fs = lw_fs w, x_send = [], x_recv = lw_out w, x_session = lw_session w\<rparr> = Some (r, x')"
  shows "serve_world os sc ph root w =
    w\<lparr>lw_fs := x_fs x', lw_session := x_session x', lw_in := Some (x_send x')\<rparr>"
  using assms by (simp add: serve_world_def dispatch_stream_def)

lemma enc_frame_encodes:
  assumes "codec_ok sc cc" and "encodes sc r"
  obtains b where "enc_frame sc r = frame_bytes b" and "length b \<le> MAX_FRAME_SIZE" and "decodes_response cc b r"
  using assms codec_ok_response [OF assms(1)] by (auto simp: encodes_def enc_frame_def)

text \<open>The client puts the frames of a read back together.\<close>

lemma read_frames_collect:
  assumes cc: "codec_ok sc cc" and "list_all (\<lambda>r. rr_status r = 0) rs" and "rs \<noteq> []"
    and "list_all (\<lambda>r. encodes sc (R_Read r)) rs"
    and "rr_eof (last rs)" and "list_all (\<lambda>r. \<not> rr_eof r) (butlast rs)"
    and "lw_in (cm_net c) = Some (concat (map (\<lambda>r. enc_frame sc (R_Read r)) rs))"
  shows "read_frames (loop_cenv os sc cc ph root cert cr) data c =
    Some (Inr (data @ concat (map rr_data rs)), c\<lparr>cm_net := (cm_net c)\<lparr>lw_in := Some []\<rparr>\<rparr>)"
  using assms(2-)
proof (induction rs arbitrary: data c)
  case (Cons r rs)
  obtain b where b: "enc_frame sc (R_Read r) = frame_bytes b" "length b \<le> MAX_FRAME_SIZE"
      "dec_ReadResponse cc b = Some r"
    using enc_frame_encodes [OF cc, of "R_Read r"] Cons.prems(3) by auto
  let ?rest = "concat (map (\<lambda>r. enc_frame sc (R_Read r)) rs)"
  have "recv_response (loop_net os sc ph root cert) (dec_ReadResponse cc) c =
      (Inr r, c\<lparr>cm_net := (cm_net c)\<lparr>lw_in := Some ?rest\<rparr>\<rparr>)"
    using recv_response_loop [of c b ?rest os sc ph root cert "dec_ReadResponse cc"] Cons.prems(6) b
    by (simp add: client_decode_def)
  then have step: "read_frames (loop_cenv os sc cc ph root cert cr) data c =
      (if rr_eof r then Some (Inr (data @ rr_data r), c\<lparr>cm_net := (cm_net c)\<lparr>lw_in := Some ?rest\<rparr>\<rparr>)
       else read_frames (loop_cenv os sc cc ph root cert cr) (data @ rr_data r)
         (c\<lparr>cm_net := (cm_net c)\<lparr>lw_in := Some ?rest\<rparr>\<rparr>))"
    using Cons.prems(1) by (subst read_frames.simps) (simp add: check_status_def status_from_u8_def)
  show ?case
  proof (cases "rs = []")
    case True
    then show ?thesis using step Cons.prems(4) by simp
  next
    case False
    then show ?thesis
      using step Cons.prems Cons.IH [of "c\<lparr>cm_net := (cm_net c)\<lparr>lw_in := Some ?rest\<rparr>\<rparr>" "data @ rr_data r"]
      by simp
  qed
qed simp

lemma read_frames_serves:
  assumes "lw_in (cm_net c) = None"
  shows "read_frames (loop_cenv os sc cc ph root cert cr) data c =
    read_frames (loop_cenv os sc cc ph root cert cr) data
      (c\<lparr>cm_net := serve_world os sc ph root (cm_net c)\<rparr>)"
  by (subst (1 2) read_frames.simps) (simp only: loop_cenv_simps recv_response_serves [OF assms])

lemma handle_read_dispatch:
  assumes "codec_ok sc cc" and "enc_request cc (Q_Read q) = Some b" and "length b \<le> MAX_FRAME_SIZE"
    and "rq_op q = OP_READ" and "rq_length q \<le> MAX_READ_REQUEST"
    and "get_file (ss_handles ss) (rq_handle q) = Some f"
  shows "\<exists>ss'. ss_handles ss' = ss_handles ss \<and>
    dispatch_inner os (loop_env sc ph) root \<lparr>x_fs = fs, x_send = [], x_recv = frame_bytes b @ rest, x_session = ss\<rparr> =
    Some (read_loop os (loop_env sc ph) (rq_seq q) f (unat (rq_length q)) (rq_offset q)
      \<lparr>x_fs = fs, x_send = [], x_recv = rest, x_session = ss'\<rparr>)"
proof -
  have "dec_ReadRequest sc b = Some q" using codec_ok_request [OF assms(1,2)] by simp
  then show ?thesis
    unfolding dispatch_request [OF assms(1-3)] using assms(4-)
    by (intro exI [of _ "ss\<lparr>ss_rx_bytes := ss_rx_bytes ss + word_of_nat (length b)\<rparr>"])
      (simp add: run_handler_simps handle_read_def with_decoded_def decode_def record_rx_def linorder_not_less [symmetric])
qed

text \<open>What the server puts on the stream for a read.\<close>

lemma serve_read:
  assumes "codec_ok sc cc" and "reads_encode sc" and "reads_ok os f cont pos"
    and "enc_request cc (Q_Read q) = Some b" and "length b \<le> MAX_FRAME_SIZE"
    and "rq_op q = OP_READ" and "rq_length q \<le> MAX_READ_REQUEST"
    and "get_file (ss_handles (lw_session w)) (rq_handle q) = Some f"
    and "unat (rq_offset q) + unat (rq_length q) < seek_limit"
    and "lw_in w = None" and "lw_out w = frame_bytes b"
  obtains rs w' where "serve_world os sc ph root w = w'"
    and "read_run (rq_seq q) (cont (lw_fs w)) (unat (rq_length q)) (rq_offset q) rs"
    and "list_all (\<lambda>r. encodes sc (R_Read r)) rs"
    and "lw_in w' = Some (concat (map (\<lambda>r. enc_frame sc (R_Read r)) rs))"
    and "cont (lw_fs w') = cont (lw_fs w)" and "ss_handles (lw_session w') = ss_handles (lw_session w)"
proof -
  obtain ss where ss: "ss_handles ss = ss_handles (lw_session w)"
    "dispatch_inner os (loop_env sc ph) root
       \<lparr>x_fs = lw_fs w, x_send = [], x_recv = lw_out w, x_session = lw_session w\<rparr> =
     Some (read_loop os (loop_env sc ph) (rq_seq q) f (unat (rq_length q)) (rq_offset q)
       \<lparr>x_fs = lw_fs w, x_send = [], x_recv = [], x_session = ss\<rparr>)"
    using handle_read_dispatch [OF assms(1,4-8), of os ph root "lw_fs w" "[]"] assms(11) by auto
  from read_loop_run [OF sends_ok_loop [of sc ph], of os f cont pos "rq_offset q" "unat (rq_length q)"
      "rq_seq q" "\<lparr>x_fs = lw_fs w, x_send = [], x_recv = [], x_session = ss\<rparr>"] assms(2,3,9)
  obtain rs x' where x': "read_loop os (loop_env sc ph) (rq_seq q) f (unat (rq_length q)) (rq_offset q)
       \<lparr>x_fs = lw_fs w, x_send = [], x_recv = [], x_session = ss\<rparr> = (Inr (), x')"
    and run: "read_run (rq_seq q) (cont (lw_fs w)) (unat (rq_length q)) (rq_offset q) rs"
      "list_all (\<lambda>r. encodes sc (R_Read r)) rs"
    and out: "cont (x_fs x') = cont (lw_fs w)" "ss_handles (x_session x') = ss_handles ss"
      "x_send x' = concat (map (\<lambda>r. enc_frame sc (R_Read r)) rs)"
    by (simp, blast)
  show thesis
    by (rule that [OF serve_world_run [OF assms(10)] run])
      (use ss x' out in simp_all)
qed

lemma cm_read_loop:
  assumes "codec_ok sc cc" and "reads_encode sc" and "reads_ok os f cont pos"
    and "cm_conn c" and "get_file (ss_handles (lw_session (cm_net c))) h = Some f"
    and "req_encodes cc (Q_Read \<lparr>rq_op = OP_READ, rq_seq = cm_seq c, rq_handle = h, rq_offset = off, rq_length = len\<rparr>)"
    and "0 < len" and "len \<le> MAX_READ_REQUEST" and "unat off + unat len < seek_limit"
  obtains w' where "cm_read (loop_cenv os sc cc ph root cert cr) h off len c =
      (Inr (take (unat len) (drop (unat off) (cont (lw_fs (cm_net c))))), c\<lparr>cm_seq := cm_seq c + 1, cm_net := w'\<rparr>)"
    and "cont (lw_fs w') = cont (lw_fs (cm_net c))"
    and "ss_handles (lw_session w') = ss_handles (lw_session (cm_net c))"
proof -
  let ?q = "\<lparr>rq_op = OP_READ, rq_seq = cm_seq c, rq_handle = h, rq_offset = off, rq_length = len\<rparr>"
  obtain b where b: "enc_request cc (Q_Read ?q) = Some b" "length b \<le> MAX_FRAME_SIZE"
    using assms(6) by (auto simp: req_encodes_def)
  define w where "w = (cm_net c)\<lparr>lw_in := None, lw_out := frame_bytes b\<rparr>"
  define c1 where "c1 = c\<lparr>cm_seq := cm_seq c + 1, cm_net := w\<rparr>"
  have start: "cm_read (loop_cenv os sc cc ph root cert cr) h off len c =
      deadline ''read'' c1 (read_frames (loop_cenv os sc cc ph root cert cr) [] c1)"
    using assms(4,6) b
    by (simp add: cm_read_def andthen_def context_err_def on_net_def loop_net_def next_seq_def
        send_request_loop [unfolded loop_net_def] req_frame_def c1_def w_def)
  obtain rs w' where w': "serve_world os sc ph root w = w'"
      "read_run (cm_seq c) (cont (lw_fs w)) (unat len) off rs"
      "list_all (\<lambda>r. encodes sc (R_Read r)) rs"
      "lw_in w' = Some (concat (map (\<lambda>r. enc_frame sc (R_Read r)) rs))"
      "cont (lw_fs w') = cont (lw_fs w)" "ss_handles (lw_session w') = ss_handles (lw_session w)"
    by (rule serve_read [OF assms(1-3) b, of w ph root]) (use assms in \<open>simp_all add: w_def\<close>)
  have "unat len > 0" using assms(7) by (simp add: word_less_nat_alt)
  from read_run_eof [OF w'(2) this] obtain ini l where
    rs: "rs = ini @ [l]" "rr_eof l" "list_all (\<lambda>r. \<not> rr_eof r) ini" by blast
  have st: "list_all (\<lambda>r. rr_status r = 0) rs"
    using read_run_status [OF w'(2)] by (auto simp: list_all_iff)
  have "read_frames (loop_cenv os sc cc ph root cert cr) [] c1 =
      read_frames (loop_cenv os sc cc ph root cert cr) [] (c1\<lparr>cm_net := w'\<rparr>)"
    using read_frames_serves [of c1 os sc cc ph root cert cr "[]"] w'(1) by (simp add: c1_def w_def)
  also have "\<dots> = Some (Inr (concat (map rr_data rs)), c1\<lparr>cm_net := w'\<lparr>lw_in := Some []\<rparr>\<rparr>)"
    using read_frames_collect [OF assms(1) st _ w'(3), of "c1\<lparr>cm_net := w'\<rparr>" os ph root cert cr "[]"] rs w'(4)
    by simp
  finally have "cm_read (loop_cenv os sc cc ph root cert cr) h off len c =
      (Inr (take (unat len) (drop (unat off) (cont (lw_fs (cm_net c))))),
       c\<lparr>cm_seq := cm_seq c + 1, cm_net := w'\<lparr>lw_in := Some []\<rparr>\<rparr>)"
    using start read_run_data [OF w'(2) assms(9)] by (simp add: deadline_def c1_def w_def)
  then show thesis by (rule that) (use w'(5,6) in \<open>simp_all add: w_def\<close>)
qed

text \<open>C5: A remote read is a local read. On a working connection and disk, for an open handle and a
  range of at most 16 MiB below the seek limit, \<open>read\<close> returns exactly the bytes the file holds in
  that range, cut at its end, however many frames the server sent and however short the system's
  reads were; the file and the server's handles are as before.\<close>

theorem remote_read:
  assumes "codec_ok sc cc" and "reads_encode sc" and "reads_ok os f cont pos"
    and "cm_conn c" and "get_file (ss_handles (lw_session (cm_net c))) h = Some f"
    and "req_encodes cc (Q_Read \<lparr>rq_op = OP_READ, rq_seq = cm_seq c, rq_handle = h, rq_offset = off, rq_length = len\<rparr>)"
    and "0 < len" and "len \<le> MAX_READ_REQUEST" and "unat off + unat len < seek_limit"
  shows "\<exists>c'. cm_read (loop_cenv os sc cc ph root cert cr) h off len c =
      (Inr (take (unat len) (drop (unat off) (cont (lw_fs (cm_net c))))), c') \<and>
    cont (lw_fs (cm_net c')) = cont (lw_fs (cm_net c)) \<and>
    ss_handles (lw_session (cm_net c')) = ss_handles (lw_session (cm_net c)) \<and>
    cm_conn c' \<and> cm_seq c' = cm_seq c + 1"
proof -
  obtain w' where "cm_read (loop_cenv os sc cc ph root cert cr) h off len c =
      (Inr (take (unat len) (drop (unat off) (cont (lw_fs (cm_net c))))), c\<lparr>cm_seq := cm_seq c + 1, cm_net := w'\<rparr>)"
      "cont (lw_fs w') = cont (lw_fs (cm_net c))" "ss_handles (lw_session w') = ss_handles (lw_session (cm_net c))"
    by (rule cm_read_loop [OF assms])
  with assms(4) show ?thesis by simp
qed

text \<open>The instance: one open handle, a mount with chunks of two bytes.\<close>

definition mem_world :: "bytes \<Rightarrow> string list \<Rightarrow> mem_fs world" where
  "mem_world data names =
     \<lparr>lw_fs = \<lparr>mf_data = data, mf_pos = 0, mf_dir = names\<rparr>,
      lw_session = (session_new 1 5 \<lparr>ci_subject = []\<rparr> [] 8 False False)
        \<lparr>ss_handles := \<lparr>ht_counter = 2, ht_max_handles = 8,
           ht_inner = [(1, \<lparr>oh_path = ''/srv/a'', oh_flags = 2, oh_file = 3, oh_ino_key = 7\<rparr>)]\<rparr>\<rparr>,
      lw_out = [], lw_in = None\<rparr>"

definition mem_cm :: "bytes \<Rightarrow> string list \<Rightarrow> mem_fs world cm" where
  "mem_cm data names =
     (cm_new \<lparr>mc_host_key = ''h'', mc_chunk_size = 2, mc_tofu = Strict, mc_known_hosts_path = ''/k''\<rparr>
        (mem_world data names))\<lparr>cm_conn := True\<rparr>"

lemma mem_cm_simps [simp]:
  "cm_conn (mem_cm data names)" "cm_seq (mem_cm data names) = 2"
  "cm_net (mem_cm data names) = mem_world data names"
  "mc_chunk_size (cm_cfg (mem_cm data names)) = 2"
  "lw_fs (mem_world data names) = \<lparr>mf_data = data, mf_pos = 0, mf_dir = names\<rparr>"
  "get_file (ss_handles (lw_session (mem_world data names))) 1 = Some 3"
  "get_write_ctx (ss_handles (lw_session (mem_world data names))) 1 = Some (3, 2, 7)"
  by (simp_all add: mem_cm_def cm_new_def mem_world_def get_file_def get_write_ctx_def)

theorem remote_read_witness:
  "fst (cm_read (loop_cenv mem_os wire_sc wire_cc (\<lambda>_. 0) ''/srv'' [] toy_crypto) 1 2 6
     (mem_cm [10, 11, 12, 13, 14, 15, 16] [])) = Inr [12, 13, 14, 15, 16]"
proof -
  have "req_encodes wire_cc (Q_Read \<lparr>rq_op = OP_READ, rq_seq = 2, rq_handle = 1, rq_offset = 2, rq_length = 6\<rparr>)"
    by (simp add: req_encodes_def wire_cc_def enc_req_def MAX_FRAME_SIZE_def)
  then show ?thesis
    using remote_read [OF wire_codec_ok wire_reads_encode mem_reads_ok, of "mem_cm [10, 11, 12, 13, 14, 15, 16] []" 1
        3 2 6 "\<lambda>_. 0" "''/srv''" "[]" toy_crypto]
    by (auto simp: seek_limit_def MAX_READ_REQUEST_def)
qed

section \<open>Writing\<close>

text \<open>The requests of a write from the \<open>k\<close>-th chunk on, out of \<open>n\<close>.\<close>

definition chunk_writes :: "u64 \<Rightarrow> u64 \<Rightarrow> u64 \<Rightarrow> nat \<Rightarrow> nat \<Rightarrow> nat \<Rightarrow> bytes list \<Rightarrow> WriteRequest list" where
  "chunk_writes sq h off cs n k chunks =
     map (\<lambda>(i, chunk). \<lparr>wq_op = OP_WRITE, wq_seq = sq, wq_handle = h,
           wq_offset = off + word_of_nat (i * cs), wq_data = chunk, wq_done = (i + 1 = n)\<rparr>)
       (enumerate k chunks)"

lemma write_requests_eq:
  "write_requests sq h off cs chunks = map Q_Write (chunk_writes sq h off cs (length chunks) 0 chunks)"
  by (simp add: write_requests_def chunk_writes_def split_beta)

lemma chunk_writes_simps [simp]:
  "chunk_writes sq h off cs n k [] = []"
  "chunk_writes sq h off cs n k (a # as) =
     \<lparr>wq_op = OP_WRITE, wq_seq = sq, wq_handle = h, wq_offset = off + word_of_nat (k * cs),
      wq_data = a, wq_done = (k + 1 = n)\<rparr> # chunk_writes sq h off cs n (Suc k) as"
  by (simp_all add: chunk_writes_def)

lemma chunk_writes_data: "map wq_data (chunk_writes sq h off cs n k chunks) = chunks"
  by (induction chunks arbitrary: k) simp_all

lemma chunk_writes_Nil_iff [simp]: "chunk_writes sq h off cs n k chunks = [] \<longleftrightarrow> chunks = []"
  by (cases chunks) simp_all

lemma marked_last_chunk_writes:
  "chunks \<noteq> [] \<Longrightarrow> n = k + length chunks \<Longrightarrow> marked_last (chunk_writes sq h off cs n k chunks)"
proof (induction chunks arbitrary: k)
  case (Cons a as)
  then show ?case by (cases "as = []") (auto simp: marked_last_def)
qed simp

lemma chunks_of_facts:
  assumes "0 < n"
  shows "concat (chunks_of n xs) = xs \<and> (chunks_of n xs = [] \<longleftrightarrow> xs = []) \<and>
    list_all (\<lambda>c. length c = n) (butlast (chunks_of n xs))"
  using assms
proof (induction n xs rule: chunks_of.induct)
  case (1 n xs)
  then show ?case
    by (cases "xs = []"; cases "drop n xs = []")
      (auto simp: chunks_of.simps [of n xs] chunks_of.simps [of n "[]"])
qed

lemma apply_chunk_writes:
  "list_all (\<lambda>c. length c = cs) (butlast chunks) \<Longrightarrow>
   unat off + k * cs + length (concat chunks) < seek_limit \<Longrightarrow>
   apply_writes (chunk_writes sq h off cs n k chunks) c = pwrite (unat off + k * cs) (concat chunks) c"
proof (induction chunks arbitrary: k c)
  case (Cons a as)
  have off: "unat (off + word_of_nat (k * cs)) = unat off + k * cs"
    using Cons.prems(2) by (intro unat_advance [of off "k * cs"]) simp_all
  have ap: "apply_writes (chunk_writes sq h off cs n k (a # as)) c =
      apply_writes (chunk_writes sq h off cs n (Suc k) as) (pwrite (unat off + k * cs) a c)"
    by (simp add: apply_writes_def off del: of_nat_mult)
  show ?case
  proof (cases "as = []")
    case True
    then show ?thesis unfolding ap by (simp add: apply_writes_def)
  next
    case False
    then have "length a = cs" "list_all (\<lambda>c. length c = cs) (butlast as)"
      using Cons.prems(1) by simp_all
    with Cons.IH [of "Suc k" "pwrite (unat off + k * cs) a c"] Cons.prems(2)
      pwrite_append [of "unat off + k * cs" a "concat as" c]
    show ?thesis unfolding ap by (simp add: ac_simps)
  qed
qed (simp add: apply_writes_def pwrite_def)

lemma chunk_writes_offset:
  "list_all (\<lambda>c. length c = cs) (butlast chunks) \<Longrightarrow>
   unat off + k * cs + length (concat chunks) < seek_limit \<Longrightarrow>
   list_all (\<lambda>q. unat (wq_offset q) < seek_limit) (chunk_writes sq h off cs n k chunks)"
proof (induction chunks arbitrary: k)
  case (Cons a as)
  have "unat (off + word_of_nat (k * cs)) = unat off + k * cs"
    using Cons.prems(2) by (intro unat_advance [of off "k * cs"]) simp_all
  moreover have "list_all (\<lambda>q. unat (wq_offset q) < seek_limit) (chunk_writes sq h off cs n (Suc k) as)"
  proof (cases "as = []")
    case False
    with Cons show ?thesis by (intro Cons.IH) simp_all
  qed simp
  ultimately show ?case using Cons.prems(2) by simp
qed simp

text \<open>What the server does with the frames of a write.\<close>

lemma serve_write:
  assumes cc: "codec_ok sc cc" and wr: "writes_ok os f cont pos"
    and enc: "\<And>sq t. encodes sc (write_response sq St_Ok t)"
    and req: "list_all (req_encodes cc) (map Q_Write qs)" and ml: "marked_last qs"
    and lim: "list_all (\<lambda>q. unat (wq_offset q) < seek_limit) qs"
    and op: "list_all (\<lambda>q. wq_op q = OP_WRITE \<and> wq_handle q = h \<and> wq_seq q = sq) qs"
    and h: "get_write_ctx (ss_handles (lw_session w)) h = Some (f, flags, key)" "flags AND 0x400 = 0"
    and w: "lw_in w = None" "lw_out w = concat (map (req_frame cc) (map Q_Write qs))"
  obtains w' where "serve_world os sc ph root w = w'"
    and "lw_in w' = Some (enc_frame sc (write_response sq St_Ok (total_written 0 qs)))"
    and "cont (lw_fs w') = apply_writes qs (cont (lw_fs w))"
    and "ss_handles (lw_session w') = ss_handles (lw_session w)"
proof -
  define raw where "raw q = the (enc_request cc (Q_Write q))" for q
  have raw: "enc_request cc (Q_Write q) = Some (raw q) \<and> length (raw q) \<le> MAX_FRAME_SIZE \<and>
      dec_WriteRequest sc (raw q) = Some q" if "q \<in> set qs" for q
    using req that codec_ok_request(1) [OF cc, of "Q_Write q"]
    by (auto simp: list_all_iff req_encodes_def raw_def)
  obtain q qs' where qs: "qs = q # qs'" using ml by (cases qs) (auto simp: marked_last_def)
  let ?qbs = "map (\<lambda>q. (q, raw q)) qs'"
  let ?x = "record_rx (length (raw q)) \<lparr>x_fs = lw_fs w, x_send = [],
      x_recv = concat (map (\<lambda>(q, b). frame_bytes b) ?qbs), x_session = lw_session w\<rparr>"
  have fr: "write_frames sc ((q, raw q) # ?qbs)"
    using raw lim by (auto simp: qs write_frames_def list_all_iff)
  have out: "lw_out w = frame_bytes (raw q) @ concat (map (\<lambda>(q, b). frame_bytes b) ?qbs)"
    using raw unfolding w(2) qs by (simp add: req_frame_def comp_def cong: map_cong)
  have [simp]: "map fst ?qbs = qs'" by (simp add: comp_def)
  have "req_op (Q_Write q) = OP_WRITE" "wq_handle q = h" "wq_seq q = sq"
    using op by (simp_all add: qs)
  then have disp: "dispatch_inner os (loop_env sc ph) root
      \<lparr>x_fs = lw_fs w, x_send = [], x_recv = lw_out w, x_session = lw_session w\<rparr> =
      handle_write os (loop_env sc ph) (raw q) ?x"
    using dispatch_request [OF cc, of "Q_Write q" "raw q" os ph root] raw [of q] out
    by (simp add: qs run_handler_simps)
  from handle_write_run [OF sends_ok_loop [of sc ph] consumes_loop wr, of q "raw q" ?qbs ?x flags key "[]"]
    enc fr ml h \<open>wq_handle q = h\<close> \<open>wq_seq q = sq\<close>
  obtain x' where x': "handle_write os (loop_env sc ph) (raw q) ?x = Some (Inr (), x')"
      "cont (x_fs x') = apply_writes qs (cont (lw_fs w))"
      "x_send x' = enc_frame sc (write_response sq St_Ok (total_written 0 qs))"
      "ss_handles (x_session x') = ss_handles (lw_session w)"
    by (auto simp: qs comp_def)
  show thesis
    by (rule that [OF serve_world_run [OF w(1)]]) (use disp x' in simp_all)
qed

lemma total_chunk_writes:
  assumes "length (concat chunks) < seek_limit"
  shows "total_written 0 (chunk_writes sq h off cs n k chunks) = word_of_nat (length (concat chunks))"
proof -
  let ?qs = "chunk_writes sq h off cs n k chunks"
  have "map (\<lambda>q. length (wq_data q)) ?qs = map length (map wq_data ?qs)" by simp
  then have "sum_list (map (\<lambda>q. length (wq_data q)) ?qs) = length (concat chunks)"
    by (simp only: chunk_writes_data length_concat)
  then have "unat (total_written 0 ?qs) = length (concat chunks)"
    using unat_total_written [of 0 ?qs] assms by (simp add: seek_limit_def)
  then show ?thesis by (metis of_nat_unat ucast_id)
qed

lemma cm_write_start:
  assumes "cm_conn c" and "cs = max 1 (unat (mc_chunk_size (cm_cfg c)))"
    and "list_all (req_encodes cc) (write_requests (cm_seq c) h off cs (chunks_of cs data))"
  shows "cm_write (loop_cenv os sc cc ph root cert cr) h off data c =
    andthen (recv_response (loop_net os sc ph root cert) (dec_WriteResponse cc))
      (\<lambda>resp c. (checked (wr_status resp) (Inr (wr_written resp)), c))
      (c\<lparr>cm_seq := cm_seq c + 1, cm_net := (cm_net c)\<lparr>lw_in := None,
         lw_out := concat (map (req_frame cc) (write_requests (cm_seq c) h off cs (chunks_of cs data)))\<rparr>\<rparr>)"
proof -
  let ?rs = "write_requests (cm_seq c) h off cs (chunks_of cs data)"
  let ?c = "c\<lparr>cm_net := (cm_net c)\<lparr>lw_out := [], lw_in := None\<rparr>, cm_seq := cm_seq c + 1\<rparr>"
  have cs: "max (Suc 0) (unat (mc_chunk_size (cm_cfg c))) = cs" using assms(2) by simp
  have "context_err ''open write stream'' (on_net (n_open_bi (loop_net os sc ph root cert))) c =
      (Inr (), c\<lparr>cm_net := (cm_net c)\<lparr>lw_out := [], lw_in := None\<rparr>\<rparr>)"
    by (simp add: context_err_def on_net_def loop_net_def)
  then show ?thesis
    using assms(1) send_requests_loop [OF assms(3), of os sc ph root cert cr ?c]
    by (simp add: cm_write_def next_seq_def Let_def cs)
qed

lemma cm_write_loop:
  assumes "codec_ok sc cc" and "writes_ok os f cont pos"
    and "\<And>sq t. encodes sc (write_response sq St_Ok t)"
    and "cm_conn c" and "get_write_ctx (ss_handles (lw_session (cm_net c))) h = Some (f, flags, key)"
    and "flags AND 0x400 = 0" and "data \<noteq> []" and "unat off + length data < seek_limit"
    and "cs = max 1 (unat (mc_chunk_size (cm_cfg c)))"
    and "list_all (req_encodes cc) (write_requests (cm_seq c) h off cs (chunks_of cs data))"
  obtains w' where "cm_write (loop_cenv os sc cc ph root cert cr) h off data c =
      (Inr (word_of_nat (length data)), c\<lparr>cm_seq := cm_seq c + 1, cm_net := w'\<rparr>)"
    and "cont (lw_fs w') = pwrite (unat off) data (cont (lw_fs (cm_net c)))"
    and "ss_handles (lw_session w') = ss_handles (lw_session (cm_net c))"
proof -
  define chunks where "chunks = chunks_of cs data"
  define qs where "qs = chunk_writes (cm_seq c) h off cs (length chunks) 0 chunks"
  have ch: "concat chunks = data" "chunks \<noteq> []" "list_all (\<lambda>c. length c = cs) (butlast chunks)"
    using chunks_of_facts [of cs data] assms(7,9) by (simp_all add: chunks_def)
  have qs: "map Q_Write qs = write_requests (cm_seq c) h off cs chunks" "marked_last qs"
      "list_all (\<lambda>q. unat (wq_offset q) < seek_limit) qs"
      "apply_writes qs c0 = pwrite (unat off) data c0" for c0
    using ch assms(8) chunk_writes_offset [OF ch(3), of off 0 "cm_seq c" h "length chunks"]
      apply_chunk_writes [OF ch(3), of off 0 "cm_seq c" h "length chunks" c0]
    by (simp_all add: qs_def write_requests_eq marked_last_chunk_writes)
  have op: "list_all (\<lambda>q. wq_op q = OP_WRITE \<and> wq_handle q = h \<and> wq_seq q = cm_seq c) qs"
    by (auto simp: qs_def chunk_writes_def list_all_iff)
  define w where "w = (cm_net c)\<lparr>lw_in := None, lw_out := concat (map (req_frame cc) (map Q_Write qs))\<rparr>"
  define c1 where "c1 = c\<lparr>cm_seq := cm_seq c + 1, cm_net := w\<rparr>"
  have start: "cm_write (loop_cenv os sc cc ph root cert cr) h off data c =
      andthen (recv_response (loop_net os sc ph root cert) (dec_WriteResponse cc))
        (\<lambda>resp c. (checked (wr_status resp) (Inr (wr_written resp)), c)) c1"
    using cm_write_start [OF assms(4,9,10)] by (simp add: qs(1) chunks_def c1_def w_def)
  obtain w' where w': "serve_world os sc ph root w = w'"
      "lw_in w' = Some (enc_frame sc (write_response (cm_seq c) St_Ok (total_written 0 qs)))"
      "cont (lw_fs w') = apply_writes qs (cont (lw_fs w))"
      "ss_handles (lw_session w') = ss_handles (lw_session w)"
    by (rule serve_write [OF assms(1-3) _ qs(2,3) op, where w = w and ph = ph and root = root])
      (use assms in \<open>simp_all add: w_def qs(1) chunks_def\<close>)
  obtain b where b: "enc_frame sc (write_response (cm_seq c) St_Ok (total_written 0 qs)) = frame_bytes b"
      "length b \<le> MAX_FRAME_SIZE" "decodes_response cc b (write_response (cm_seq c) St_Ok (total_written 0 qs))"
    using assms(1,3) by (rule enc_frame_encodes)
  have "recv_response (loop_net os sc ph root cert) (dec_WriteResponse cc) c1 =
      recv_response (loop_net os sc ph root cert) (dec_WriteResponse cc) (c1\<lparr>cm_net := w'\<rparr>)"
    using recv_response_serves [of c1 os sc ph root cert "dec_WriteResponse cc"] w'(1) by (simp add: c1_def w_def)
  also have "\<dots> = (client_decode (dec_WriteResponse cc) b, c1\<lparr>cm_net := w'\<lparr>lw_in := Some []\<rparr>\<rparr>)"
    using recv_response_loop [of "c1\<lparr>cm_net := w'\<rparr>" b "[]"] w'(2) b(1,2) by simp
  finally have "cm_write (loop_cenv os sc cc ph root cert cr) h off data c =
      (Inr (word_of_nat (length data)), c\<lparr>cm_seq := cm_seq c + 1, cm_net := w'\<lparr>lw_in := Some []\<rparr>\<rparr>)"
    using start b(3) total_chunk_writes [of chunks "cm_seq c" h off cs "length chunks" 0] assms(8) ch(1)
    by (simp add: client_decode_def write_response_def checked_def check_status_def status_from_u8_def
        c1_def w_def flip: qs_def)
  then show thesis by (rule that) (use w'(3,4) in \<open>simp_all add: w_def qs(4)\<close>)
qed

text \<open>C6: A remote write is a local write. On a working connection and disk, for a handle not opened
  for appending, \<open>write\<close> of a block that is not empty puts that block at the offset, in one piece
  however many chunks it travels in, extends the file with zero bytes where there is a gap, leaves
  every other byte alone, and reports the length of the block.\<close>

theorem remote_write:
  assumes "codec_ok sc cc" and "writes_ok os f cont pos"
    and "\<And>sq t. encodes sc (write_response sq St_Ok t)"
    and "cm_conn c" and "get_write_ctx (ss_handles (lw_session (cm_net c))) h = Some (f, flags, key)"
    and "flags AND 0x400 = 0" and "data \<noteq> []" and "unat off + length data < seek_limit"
    and "cs = max 1 (unat (mc_chunk_size (cm_cfg c)))"
    and "list_all (req_encodes cc) (write_requests (cm_seq c) h off cs (chunks_of cs data))"
  shows "\<exists>c'. cm_write (loop_cenv os sc cc ph root cert cr) h off data c =
      (Inr (word_of_nat (length data)), c') \<and>
    cont (lw_fs (cm_net c')) = pwrite (unat off) data (cont (lw_fs (cm_net c))) \<and>
    ss_handles (lw_session (cm_net c')) = ss_handles (lw_session (cm_net c)) \<and>
    cm_conn c' \<and> cm_seq c' = cm_seq c + 1"
proof -
  obtain w' where "cm_write (loop_cenv os sc cc ph root cert cr) h off data c =
      (Inr (word_of_nat (length data)), c\<lparr>cm_seq := cm_seq c + 1, cm_net := w'\<rparr>)"
      "cont (lw_fs w') = pwrite (unat off) data (cont (lw_fs (cm_net c)))"
      "ss_handles (lw_session w') = ss_handles (lw_session (cm_net c))"
    by (rule cm_write_loop [OF assms])
  with assms(4) show ?thesis by simp
qed

theorem remote_write_witness:
  "let c' = snd (cm_write (loop_cenv mem_os wire_sc wire_cc (\<lambda>_. 0) ''/srv'' [] toy_crypto) 1 4 [1, 2, 3]
              (mem_cm [10, 11] []))
   in mf_data (lw_fs (cm_net c')) = [10, 11, 0, 0, 1, 2, 3]"
proof -
  have chunks: "chunks_of 2 [1, 2, 3 :: u8] = [[1, 2], [3]]" by code_simp
  have "list_all (req_encodes wire_cc) (write_requests 2 1 4 2 (chunks_of 2 [1, 2, 3]))"
    unfolding chunks by (simp add: write_requests_def req_encodes_def wire_cc_def enc_req_def MAX_FRAME_SIZE_def)
  then have reqs: "list_all (req_encodes wire_cc)
      (write_requests (cm_seq (mem_cm [10, 11] [])) 1 4 2 (chunks_of 2 [1, 2, 3]))" by (simp only: mem_cm_simps)
  have h: "get_write_ctx (ss_handles (lw_session (cm_net (mem_cm [10, 11] [])))) 1 = Some (3, 2, 7)"
    by (simp only: mem_cm_simps)
  have fl: "(2 :: u32) AND 0x400 = 0" by simp
  have off: "unat (4 :: u64) + length [1 :: u8, 2, 3] < seek_limit" by (simp add: seek_limit_def)
  have cs: "2 = max 1 (unat (mc_chunk_size (cm_cfg (mem_cm [10, 11] []))))" by simp
  obtain c' where "cm_write (loop_cenv mem_os wire_sc wire_cc (\<lambda>_. 0) ''/srv'' [] toy_crypto) 1 4 [1, 2, 3]
        (mem_cm [10, 11] []) = (Inr (word_of_nat (length [1 :: u8, 2, 3])), c')"
      "mf_data (lw_fs (cm_net c')) = pwrite (unat (4 :: u64)) [1, 2, 3] (mf_data (lw_fs (cm_net (mem_cm [10, 11] []))))"
    using remote_write [OF wire_codec_ok mem_writes_ok wire_writes_encode mem_cm_simps(1) h fl _ off cs reqs] by blast
  moreover have "replicate 2 (0 :: u8) = [0, 0]" by (simp add: numeral_2_eq_2)
  ultimately show ?thesis by (simp add: pwrite_def)
qed

section \<open>Calls with one reply\<close>

lemma serve_request:
  assumes "codec_ok sc cc" and "enc_request cc r = Some b" and "length b \<le> MAX_FRAME_SIZE"
    and "lw_in w = None" and "lw_out w = frame_bytes b"
    and "run_handler os (loop_env sc ph) root (req_op r) (req_seq r) b
      (record_rx (length b) \<lparr>x_fs = lw_fs w, x_send = [], x_recv = [], x_session = lw_session w\<rparr>) = Some (res, x')"
  shows "serve_world os sc ph root w =
    w\<lparr>lw_fs := x_fs x', lw_session := x_session x', lw_in := Some (x_send x')\<rparr>"
  by (rule serve_world_run [OF assms(4)])
    (simp add: assms(5,6) dispatch_request [OF assms(1-3), where rest = "[]", simplified])

lemma rpc_loop:
  assumes "codec_ok sc cc" and "cm_conn c" and "enc_request cc r = Some b" and "length b \<le> MAX_FRAME_SIZE"
    and "run_handler os (loop_env sc ph) root (req_op r) (req_seq r) b
      (record_rx (length b) \<lparr>x_fs = lw_fs (cm_net c), x_send = [], x_recv = [], x_session = lw_session (cm_net c)\<rparr>) =
      Some (res, x')"
    and "x_send x' = frame_bytes rb" and "length rb \<le> MAX_FRAME_SIZE"
  shows "rpc (loop_cenv os sc cc ph root cert cr) dec r c = (client_decode dec rb,
    c\<lparr>cm_net := \<lparr>lw_fs = x_fs x', lw_session = x_session x', lw_out = frame_bytes b, lw_in = Some []\<rparr>\<rparr>)"
proof -
  define w where "w = (cm_net c)\<lparr>lw_in := None, lw_out := frame_bytes b\<rparr>"
  have "context_err ''open RPC stream'' (on_net (n_open_bi (loop_net os sc ph root cert))) c =
      (Inr (), c\<lparr>cm_net := (cm_net c)\<lparr>lw_out := [], lw_in := None\<rparr>\<rparr>)"
    by (simp add: context_err_def on_net_def loop_net_def)
  moreover have "context_err ''finish RPC send'' (on_net (n_finish (loop_net os sc ph root cert))) c0 = (Inr (), c0)" for c0
    by (simp add: context_err_def on_net_def loop_net_def)
  ultimately have "rpc (loop_cenv os sc cc ph root cert cr) dec r c =
      recv_response (loop_net os sc ph root cert) dec (c\<lparr>cm_net := w\<rparr>)"
    using assms(2-4) send_request_loop [of cc r os sc ph root cert]
    by (simp add: rpc_def req_encodes_def req_frame_def w_def)
  also have "\<dots> = recv_response (loop_net os sc ph root cert) dec (c\<lparr>cm_net := serve_world os sc ph root w\<rparr>)"
    using recv_response_serves [of "c\<lparr>cm_net := w\<rparr>" os sc ph root cert dec] by (simp add: w_def)
  also have "serve_world os sc ph root w = w\<lparr>lw_fs := x_fs x', lw_session := x_session x', lw_in := Some (x_send x')\<rparr>"
    using assms(1,3,4) by (rule serve_request) (use assms(5) in \<open>simp_all add: w_def\<close>)
  finally show ?thesis
    using recv_response_loop [of "c\<lparr>cm_net := w\<lparr>lw_fs := x_fs x', lw_session := x_session x', lw_in := Some (x_send x')\<rparr>\<rparr>"
        rb "[]" os sc ph root cert dec] assms(6,7)
    by (simp add: w_def)
qed

end
