(* ===== verification/Remote_Meta.thy ===== *)
theory Remote_Meta
  imports Loopback
begin

text \<open>
  Metadata calls end to end, as in Loopback: listing a directory page by page, and removing names.
\<close>

section \<open>Listing a directory\<close>

text \<open>The entries of a directory in the order the system gives them, without the failed ones.\<close>

fun listing :: "(io_error + string \<times> (io_error + metadata)) list \<Rightarrow> DirEntry list" where
  "listing [] = []"
| "listing (Inl _ # es) = listing es"
| "listing (Inr e # es) = dir_entry e # listing es"

lemma readdir_loop_eq:
  "length out < READDIR_PAGE \<Longrightarrow>
   readdir_loop skip out dir = out @ take (READDIR_PAGE - length out) (drop skip (listing dir))"
proof (induction skip out dir rule: readdir_loop.induct)
  case (4 out e es)
  show ?case
  proof (cases "Suc (length out) \<ge> READDIR_PAGE")
    case True
    then have "READDIR_PAGE - length out = 1" using 4(2) by simp
    with True show ?thesis by simp
  next
    case False
    then have "READDIR_PAGE - length out = Suc (READDIR_PAGE - Suc (length out))" by simp
    with False 4(1) [of "out @ [dir_entry e]"] show ?thesis by simp
  qed
qed simp_all

definition page :: "DirEntry list \<Rightarrow> u64 \<Rightarrow> DirEntry list" where
  "page es cursor = take READDIR_PAGE (drop (unat cursor) es)"

definition page_response :: "DirEntry list \<Rightarrow> u64 \<Rightarrow> u64 \<Rightarrow> ReadDirResponse" where
  "page_response es sq cursor =
     \<lparr>rdr_op = OP_READ_DIR, rdr_seq = sq, rdr_status = 0, rdr_entries = page es cursor,
      rdr_cursor = cursor + word_of_nat (length (page es cursor)),
      rdr_eof = (length (page es cursor) < READDIR_PAGE)\<rparr>"

lemma handle_readdir_ok:
  assumes "dec_ReadDirRequest sc b = Some q" and "resolve os (x_fs x) root (rdq_path q) = Inr p"
    and "os_read_dir os (x_fs x) p = Inr dir"
    and "encodes sc (R_ReadDir (page_response (listing dir) (rdq_seq q) (rdq_cursor q)))"
  obtains w where "handle_readdir os (loop_env sc ph) root b x = (Inr (), x\<lparr>x_send := w\<rparr>)"
    and "w = x_send x @ enc_frame sc (R_ReadDir (page_response (listing dir) (rdq_seq q) (rdq_cursor q)))"
proof -
  let ?r = "R_ReadDir (page_response (listing dir) (rdq_seq q) (rdq_cursor q))"
  have "readdir_loop (unat (rdq_cursor q)) [] dir = page (listing dir) (rdq_cursor q)"
    using readdir_loop_eq [of "[]"] by (simp add: page_def READDIR_PAGE_def)
  then have "handle_readdir os (loop_env sc ph) root b x = reply (loop_env sc ph) ?r x"
    using assms(1-3)
    by (simp add: handle_readdir_def with_decoded_def decode_def reply_0_eq page_response_def status_of_def Let_def)
  moreover obtain w where "reply (loop_env sc ph) ?r x = (Inr (), x\<lparr>x_send := w\<rparr>)"
      "id w = id (x_send x) @ enc_frame sc ?r"
    using reply_ok [OF sends_ok_loop, of sc ph ?r x] assms(4) by auto
  ultimately show thesis by (intro that [of w]) simp_all
qed

text \<open>One page over the wire.\<close>

lemma readdir_page:
  assumes cc: "codec_ok sc cc" and "cm_conn c"
    and req: "req_encodes cc (Q_ReadDir \<lparr>rdq_op = OP_READ_DIR, rdq_seq = cm_seq c, rdq_path = path, rdq_cursor = cur\<rparr>)"
    and "resolve os (lw_fs (cm_net c)) root path = Inr p" and "os_read_dir os (lw_fs (cm_net c)) p = Inr dir"
    and enc: "encodes sc (R_ReadDir (page_response (listing dir) (cm_seq c) cur))"
  obtains c' where "rpc_seq (\<lambda>sq. Q_ReadDir \<lparr>rdq_op = OP_READ_DIR, rdq_seq = sq, rdq_path = path, rdq_cursor = cur\<rparr>)
      (loop_cenv os sc cc ph root cert cr) (dec_ReadDirResponse cc) (\<lambda>resp. checked (rdr_status resp) (Inr resp)) c =
      (Inr (page_response (listing dir) (cm_seq c) cur), c')"
    and "cm_conn c'" and "lw_fs (cm_net c') = lw_fs (cm_net c)"
    and "ss_handles (lw_session (cm_net c')) = ss_handles (lw_session (cm_net c))" and "cm_seq c' = cm_seq c + 1"
proof -
  let ?q = "\<lparr>rdq_op = OP_READ_DIR, rdq_seq = cm_seq c, rdq_path = path, rdq_cursor = cur\<rparr>"
  let ?resp = "page_response (listing dir) (cm_seq c) cur"
  let ?c = "c\<lparr>cm_seq := cm_seq c + 1\<rparr>"
  obtain b where b: "enc_request cc (Q_ReadDir ?q) = Some b" "length b \<le> MAX_FRAME_SIZE"
    using req by (auto simp: req_encodes_def)
  let ?x = "record_rx (length b) \<lparr>x_fs = lw_fs (cm_net ?c), x_send = [] :: bytes,
      x_recv = [] :: bytes, x_session = lw_session (cm_net ?c)\<rparr>"
  obtain rb where rb: "enc_frame sc (R_ReadDir ?resp) = frame_bytes rb" "length rb \<le> MAX_FRAME_SIZE"
      "decodes_response cc rb (R_ReadDir ?resp)"
    using cc enc by (rule enc_frame_encodes)
  have "dec_ReadDirRequest sc b = Some ?q" using codec_ok_request [OF cc b(1)] by simp
  then obtain w where w: "handle_readdir os (loop_env sc ph) root b ?x = (Inr (), ?x\<lparr>x_send := w\<rparr>)"
      "w = frame_bytes rb"
    using handle_readdir_ok [of sc b ?q os ?x root p dir ph] assms(4,5) enc rb(1) by auto
  have "rpc (loop_cenv os sc cc ph root cert cr) (dec_ReadDirResponse cc) (Q_ReadDir ?q) ?c =
      (client_decode (dec_ReadDirResponse cc) rb, ?c\<lparr>cm_net := \<lparr>lw_fs = x_fs (?x\<lparr>x_send := w\<rparr>),
         lw_session = x_session (?x\<lparr>x_send := w\<rparr>), lw_out = frame_bytes b, lw_in = Some []\<rparr>\<rparr>)"
    using rpc_loop [OF cc _ b, where c = ?c and x' = "?x\<lparr>x_send := w\<rparr>" and res = "Inr ()" and rb = rb
        and os = os and ph = ph and root = root and cert = cert and cr = cr
        and dec = "dec_ReadDirResponse cc"]
      assms(2) w rb(2) by (simp add: run_handler_simps)
  then show thesis
    using rb(3) assms(2)
    by (intro that [of "?c\<lparr>cm_net := \<lparr>lw_fs = x_fs (?x\<lparr>x_send := w\<rparr>), lw_session = x_session (?x\<lparr>x_send := w\<rparr>),
         lw_out = frame_bytes b, lw_in = Some []\<rparr>\<rparr>"])
      (simp_all add: rpc_seq_def next_seq_def client_decode_def checked_def page_response_def check_status_def
        status_from_u8_def)
qed

lemma readdir_pages_run:
  assumes cc: "codec_ok sc cc"
    and req: "\<And>sq cur. req_encodes cc (Q_ReadDir \<lparr>rdq_op = OP_READ_DIR, rdq_seq = sq, rdq_path = path, rdq_cursor = cur\<rparr>)"
    and enc: "\<And>sq cur. encodes sc (R_ReadDir (page_response (listing dir) sq cur))"
    and "length (listing dir) < 2 ^ 64"
    and "cm_conn c" and "resolve os (lw_fs (cm_net c)) root path = Inr p" and "os_read_dir os (lw_fs (cm_net c)) p = Inr dir"
    and "unat cur \<le> length (listing dir)"
  shows "\<exists>c'. readdir_pages (loop_cenv os sc cc ph root cert cr) path acc cur c =
      Some (Inr (acc @ drop (unat cur) (listing dir)), c') \<and> cm_conn c' \<and>
    lw_fs (cm_net c') = lw_fs (cm_net c) \<and>
    ss_handles (lw_session (cm_net c')) = ss_handles (lw_session (cm_net c))"
  using assms(5-)
proof (induction "length (listing dir) - unat cur" arbitrary: acc cur c rule: less_induct)
  case less
  let ?es = "listing dir"
  obtain c1 where c1: "rpc_seq (\<lambda>sq. Q_ReadDir \<lparr>rdq_op = OP_READ_DIR, rdq_seq = sq, rdq_path = path, rdq_cursor = cur\<rparr>)
      (loop_cenv os sc cc ph root cert cr) (dec_ReadDirResponse cc) (\<lambda>resp. checked (rdr_status resp) (Inr resp)) c =
      (Inr (page_response ?es (cm_seq c) cur), c1)"
    "cm_conn c1" "lw_fs (cm_net c1) = lw_fs (cm_net c)"
    "ss_handles (lw_session (cm_net c1)) = ss_handles (lw_session (cm_net c))"
    by (rule readdir_page [OF cc less.prems(1) req less.prems(2,3) enc])
  have step: "readdir_pages (loop_cenv os sc cc ph root cert cr) path acc cur c =
      (if length (page ?es cur) < READDIR_PAGE then Some (Inr (acc @ page ?es cur), c1)
       else readdir_pages (loop_cenv os sc cc ph root cert cr) path (acc @ page ?es cur)
         (cur + word_of_nat (length (page ?es cur))) c1)"
    using c1(1) by (subst readdir_pages.simps) (simp add: page_response_def)
  show ?case
  proof (cases "length (page ?es cur) < READDIR_PAGE")
    case True
    then have "page ?es cur = drop (unat cur) ?es" by (simp add: page_def)
    with step True c1 show ?thesis by simp
  next
    case False
    then have len: "length (page ?es cur) = READDIR_PAGE" "unat cur + READDIR_PAGE \<le> length ?es"
      by (auto simp: page_def READDIR_PAGE_def)
    have adv: "unat (cur + word_of_nat READDIR_PAGE) = unat cur + READDIR_PAGE"
      using len(2) assms(4) by (subst unat_add_no_overflow) (simp_all add: READDIR_PAGE_def)
    have "length ?es - unat (cur + word_of_nat READDIR_PAGE) < length ?es - unat cur"
      using len(2) adv by (simp add: READDIR_PAGE_def)
    from less.hyps [OF this c1(2), of "acc @ page ?es cur"] less.prems c1(3,4) adv len(2)
    obtain c' where c': "readdir_pages (loop_cenv os sc cc ph root cert cr) path (acc @ page ?es cur)
          (cur + word_of_nat READDIR_PAGE) c1 = Some (Inr (acc @ page ?es cur @ drop (unat cur + READDIR_PAGE) ?es), c')"
        "cm_conn c'" "lw_fs (cm_net c') = lw_fs (cm_net c)"
        "ss_handles (lw_session (cm_net c')) = ss_handles (lw_session (cm_net c))"
      by auto
    moreover have "page ?es cur @ drop (unat cur + READDIR_PAGE) ?es = drop (unat cur) ?es"
      unfolding page_def by (metis add.commute append_take_drop_id drop_drop)
    ultimately show ?thesis using step False len(1) by simp
  qed
qed

text \<open>C8: A remote listing is complete and ends. If the path resolves to a directory that the server
  can read and that does not change meanwhile, the client's paging loop ends, whatever the number
  of entries, and returns all of them once, in the order of the system, leaving out only those the
  system failed to read.\<close>

theorem remote_readdir:
  assumes "codec_ok sc cc"
    and "\<And>sq cur. req_encodes cc (Q_ReadDir \<lparr>rdq_op = OP_READ_DIR, rdq_seq = sq, rdq_path = path, rdq_cursor = cur\<rparr>)"
    and "\<And>sq cur. encodes sc (R_ReadDir (page_response (listing dir) sq cur))"
    and "length (listing dir) < 2 ^ 64" and "cm_conn c"
    and "resolve os (lw_fs (cm_net c)) root path = Inr p" and "os_read_dir os (lw_fs (cm_net c)) p = Inr dir"
  shows "\<exists>c'. cm_readdir (loop_cenv os sc cc ph root cert cr) path c = Some (Inr (listing dir), c') \<and>
    cm_conn c' \<and> lw_fs (cm_net c') = lw_fs (cm_net c)"
  using readdir_pages_run [OF assms(1-7), of 0 ph cert cr "[]"] by (auto simp: cm_readdir_def)

text \<open>The instance: names of at most 255 bytes fit a page into a frame.\<close>

lemma length_put_entries:
  "list_all (\<lambda>d. length (de_name d) \<le> 255) ds \<Longrightarrow> length (concat (map put_entry ds)) \<le> 275 * length ds"
  by (induction ds) (simp_all add: put_entry_def put_str_def)

lemma wire_pages_encode:
  assumes "list_all (\<lambda>d. length (de_name d) \<le> 255) es"
  shows "encodes wire_sc (R_ReadDir (page_response es sq cur))"
proof -
  have p: "list_all (\<lambda>d. length (de_name d) \<le> 255) (page es cur)"
    using assms by (auto simp: page_def list_all_iff dest: in_set_takeD in_set_dropD)
  have n: "length (page es cur) \<le> 256" by (simp add: page_def READDIR_PAGE_def)
  have "list_all (\<lambda>d. small (de_name d)) (page es cur)"
    using p by (auto simp: list_all_iff small_def)
  moreover have "length (concat (map put_entry (page es cur))) \<le> 275 * 256"
    using length_put_entries [OF p] n by linarith
  ultimately show ?thesis
    using n by (simp add: encodes_def wire_sc_def enc_resp_def page_response_def small_def put_entries_def
        MAX_FRAME_SIZE_def)
qed

lemma wire_readdir_request:
  assumes "length path \<le> 4096"
  shows "req_encodes wire_cc (Q_ReadDir \<lparr>rdq_op = OP_READ_DIR, rdq_seq = sq, rdq_path = path, rdq_cursor = cur\<rparr>)"
  using assms by (simp add: req_encodes_def wire_cc_def enc_req_def small_def put_str_def MAX_FRAME_SIZE_def)

lemma listing_map_Inr: "listing (map (\<lambda>n. Inr (f n)) ns) = map (\<lambda>n. dir_entry (f n)) ns"
  by (induction ns) simp_all

theorem remote_readdir_witness:
  "\<exists>c'. cm_readdir (loop_cenv mem_os wire_sc wire_cc (\<lambda>_. 0) ''/srv'' [] toy_crypto) ''/d''
     (mem_cm [] (replicate 300 ''a'')) =
   Some (Inr (replicate 300 \<lparr>de_name = ''a'', de_ino = 0, de_mode = 0\<rparr>), c')"
proof -
  let ?c = "mem_cm [] (replicate 300 ''a'')"
  let ?dir = "map (\<lambda>n. Inr (n, Inl (OsError ENOENT))) (replicate 300 ''a'')"
  have "to_string_lossy ''a'' = ''a''" by code_simp
  then have l: "listing ?dir = replicate 300 \<lparr>de_name = ''a'', de_ino = 0, de_mode = 0\<rparr>"
    unfolding listing_map_Inr by (simp add: dir_entry_def)
  have res: "resolve mem_os (lw_fs (cm_net ?c)) ''/srv'' ''/d'' = Inr ''/srv/d''"
    by (simp add: mem_os_def) code_simp
  have dir: "os_read_dir mem_os (lw_fs (cm_net ?c)) ''/srv/d'' = Inr ?dir"
    by (simp add: mem_os_def)
  have enc: "encodes wire_sc (R_ReadDir (page_response (listing ?dir) sq cur))" for sq cur
    unfolding l by (rule wire_pages_encode) (simp add: list_all_iff)
  have "length (listing ?dir) < 2 ^ 64" unfolding l by simp
  moreover have "length ''/d'' \<le> 4096" by simp
  ultimately show ?thesis
    using remote_readdir [OF wire_codec_ok wire_readdir_request enc _ mem_cm_simps(1) res dir]
    unfolding l by blast
qed

section \<open>Removing names\<close>

text \<open>A call that is answered with a status.\<close>

definition status_reply :: "u8 \<Rightarrow> u64 \<Rightarrow> Status \<Rightarrow> response" where
  "status_reply op sq st = R_Status \<lparr>sr_op = op, sr_seq = sq, sr_status = status_u8 st\<rparr>"

lemma status_call:
  assumes cc: "codec_ok sc cc" and conn: "cm_conn c" and req: "req_encodes cc (r (cm_seq c))"
    and run: "\<And>b x. enc_request cc (r (cm_seq c)) = Some b \<Longrightarrow> x_fs x = lw_fs (cm_net c) \<Longrightarrow> x_send x = [] \<Longrightarrow>
      ss_sync_metadata (x_session x) = ss_sync_metadata (lw_session (cm_net c)) \<Longrightarrow>
      run_handler os (loop_env sc ph) root (req_op (r (cm_seq c))) (req_seq (r (cm_seq c))) b x =
        Some (reply (loop_env sc ph) (status_reply op sq st) (x\<lparr>x_fs := fs'\<rparr>))"
    and enc: "encodes sc (status_reply op sq st)"
  shows "\<exists>c'. rpc_seq r (loop_cenv os sc cc ph root cert cr) (dec_StatusResponse cc)
      (\<lambda>resp. check_status (sr_status resp)) c = (check_status (status_u8 st), c') \<and>
    cm_conn c' \<and> lw_fs (cm_net c') = fs'"
proof -
  let ?c = "c\<lparr>cm_seq := cm_seq c + 1\<rparr>"
  obtain b where b: "enc_request cc (r (cm_seq c)) = Some b" "length b \<le> MAX_FRAME_SIZE"
    using req by (auto simp: req_encodes_def)
  define x :: "(_, bytes, bytes) srv" where "x = record_rx (length b)
      \<lparr>x_fs = lw_fs (cm_net ?c), x_send = [], x_recv = [], x_session = lw_session (cm_net ?c)\<rparr>"
  obtain rb where rb: "enc_frame sc (status_reply op sq st) = frame_bytes rb" "length rb \<le> MAX_FRAME_SIZE"
      "decodes_response cc rb (status_reply op sq st)"
    using cc enc by (rule enc_frame_encodes)
  obtain w where w: "reply (loop_env sc ph) (status_reply op sq st) (x\<lparr>x_fs := fs'\<rparr>) = (Inr (), x\<lparr>x_fs := fs', x_send := w\<rparr>)"
      "id w = id (x_send (x\<lparr>x_fs := fs'\<rparr>)) @ enc_frame sc (status_reply op sq st)"
    using reply_ok [OF sends_ok_loop, of sc ph "status_reply op sq st" "x\<lparr>x_fs := fs'\<rparr>"] enc by auto
  have "run_handler os (loop_env sc ph) root (req_op (r (cm_seq c))) (req_seq (r (cm_seq c))) b x =
      Some (Inr (), x\<lparr>x_fs := fs', x_send := w\<rparr>)"
    using run [OF b(1), of x] w(1) by (simp add: x_def record_rx_def)
  with rpc_loop [OF cc _ b, where c = ?c and x' = "x\<lparr>x_fs := fs', x_send := w\<rparr>" and res = "Inr ()" and rb = rb
        and os = os and ph = ph and root = root and cert = cert and cr = cr and dec = "dec_StatusResponse cc"]
    conn w(2) rb(1,2)
  have "rpc (loop_cenv os sc cc ph root cert cr) (dec_StatusResponse cc) (r (cm_seq c)) ?c =
      (client_decode (dec_StatusResponse cc) rb, ?c\<lparr>cm_net := \<lparr>lw_fs = fs', lw_session = x_session x,
         lw_out = frame_bytes b, lw_in = Some []\<rparr>\<rparr>)"
    by (simp add: x_def)
  then show ?thesis
    using rb(3) conn by (simp add: rpc_seq_def next_seq_def client_decode_def status_reply_def)
qed

text \<open>What a removal is on the server's disk: the path is resolved, the name removed below the root,
  and the directory synchronised if the server is told to.\<close>

definition local_remove ::
  "'fs os \<Rightarrow> string \<Rightarrow> bool \<Rightarrow> bool \<Rightarrow> string \<Rightarrow> 'fs \<Rightarrow> Status \<times> 'fs" where
  "local_remove os root sync is_dir path fs =
     (case resolve os fs root path of
        Inl _ \<Rightarrow> (St_Permission, fs)
      | Inr p \<Rightarrow>
          (case remove_confined os root p is_dir fs of
             (Inl e, fs1) \<Rightarrow> (status_from_io e, fs1)
           | (Inr _, fs1) \<Rightarrow> (St_Ok, if sync then sync_parent_dir os root p fs1 else fs1)))"

lemma handle_remove_eq:
  assumes "dec_PathRequest (e_codec env) b = Some q"
    and "local_remove os root (ss_sync_metadata (x_session x)) is_dir (pq_path q) (x_fs x) = (st, fs')"
  shows "(if is_dir then handle_rmdir os env root b x else handle_unlink os env root b x) =
    reply env (status_reply (if is_dir then OP_RMDIR else OP_UNLINK) (pq_seq q) st) (x\<lparr>x_fs := fs'\<rparr>)"
proof (cases "resolve os (x_fs x) root (pq_path q)")
  case (Inl e)
  with assms show ?thesis
    by (cases is_dir)
      (auto simp: handle_rmdir_def handle_unlink_def with_decoded_def decode_def local_remove_def
        send_status_def status_reply_def)
next
  case (Inr p)
  obtain r fs1 where rm: "remove_confined os root p is_dir (x_fs x) = (r, fs1)" by fastforce
  show ?thesis
  proof (cases r)
    case (Inl e)
    with rm Inr assms show ?thesis
      by (cases is_dir)
        (auto simp: handle_rmdir_def handle_unlink_def with_decoded_def decode_def local_remove_def on_fs_def
          send_status_def status_reply_def then_record_0_eq sync_if_ok_def status_of_def)
  next
    case (Inr u)
    with rm \<open>resolve os (x_fs x) root (pq_path q) = Inr p\<close> assms show ?thesis
      by (cases is_dir)
        (auto simp: handle_rmdir_def handle_unlink_def with_decoded_def decode_def local_remove_def on_fs_def
          send_status_def status_reply_def then_record_0_eq sync_if_ok_def status_of_def)
  qed
qed

text \<open>C20: Removing a name remotely is removing it on the server: \<open>unlink\<close> and \<open>rmdir\<close> succeed exactly
  if the path resolves inside the export and the confined removal succeeds, leave the disk as that
  removal leaves it, and otherwise report its status.\<close>

theorem remote_remove:
  assumes "codec_ok sc cc" and "cm_conn c"
    and "req_encodes cc (Q_Path \<lparr>pq_op = (if is_dir then OP_RMDIR else OP_UNLINK), pq_seq = cm_seq c, pq_path = path\<rparr>)"
    and "encodes sc (status_reply (if is_dir then OP_RMDIR else OP_UNLINK) (cm_seq c) st)"
    and "local_remove os root (ss_sync_metadata (lw_session (cm_net c))) is_dir path (lw_fs (cm_net c)) = (st, fs')"
  shows "\<exists>c'. (if is_dir then cm_rmdir else cm_unlink) (loop_cenv os sc cc ph root cert cr) path c =
      (if st = St_Ok then Inr () else Inl (''server error: '' @ status_debug st), c') \<and>
    cm_conn c' \<and> lw_fs (cm_net c') = fs'"
proof -
  define op where "op = (if is_dir then OP_RMDIR else OP_UNLINK)"
  define r where "r sq = Q_Path \<lparr>pq_op = op, pq_seq = sq, pq_path = path\<rparr>" for sq
  have run: "run_handler os (loop_env sc ph) root (req_op (r (cm_seq c))) (req_seq (r (cm_seq c))) b x =
      Some (reply (loop_env sc ph) (status_reply op (cm_seq c) st) (x\<lparr>x_fs := fs'\<rparr>))"
    if "enc_request cc (r (cm_seq c)) = Some b" "x_fs x = lw_fs (cm_net c)"
      "ss_sync_metadata (x_session x) = ss_sync_metadata (lw_session (cm_net c))" for b x
  proof -
    have "dec_PathRequest sc b = Some \<lparr>pq_op = op, pq_seq = cm_seq c, pq_path = path\<rparr>"
      using codec_ok_request [OF assms(1) that(1)] by (simp add: r_def)
    from handle_remove_eq [of "loop_env sc ph" b _ os root x is_dir st fs', simplified, OF this] that assms(5)
    show ?thesis by (cases is_dir) (simp_all add: r_def op_def run_handler_simps)
  qed
  have "\<exists>c'. rpc_seq r (loop_cenv os sc cc ph root cert cr) (dec_StatusResponse cc)
      (\<lambda>resp. check_status (sr_status resp)) c = (check_status (status_u8 st), c') \<and>
    cm_conn c' \<and> lw_fs (cm_net c') = fs'"
    by (rule status_call [OF assms(1,2)]) (use assms(3,4) run in \<open>simp_all add: r_def op_def\<close>)
  moreover have "(if is_dir then cm_rmdir else cm_unlink) (loop_cenv os sc cc ph root cert cr) path =
      rpc_seq r (loop_cenv os sc cc ph root cert cr) (dec_StatusResponse cc) (\<lambda>resp. check_status (sr_status resp))"
    by (simp add: cm_rmdir_def cm_unlink_def r_def [abs_def] op_def)
  ultimately show ?thesis by (simp add: check_status_u8)
qed

theorem remote_remove_witness:
  "\<exists>c'. cm_unlink (loop_cenv mem_os wire_sc wire_cc (\<lambda>_. 0) ''/srv'' [] toy_crypto) ''/a''
      (mem_cm [] [''a'', ''b'']) = (Inr (), c') \<and> mf_dir (lw_fs (cm_net c')) = [''b'']"
proof -
  let ?c = "mem_cm [] [''a'', ''b'']"
  have "local_remove mem_os ''/srv'' False False ''/a'' \<lparr>mf_data = [], mf_pos = 0, mf_dir = [''a'', ''b'']\<rparr> =
      (St_Ok, \<lparr>mf_data = [], mf_pos = 0, mf_dir = [''b'']\<rparr>)"
    by code_simp
  moreover have "\<not> ss_sync_metadata (lw_session (cm_net ?c))"
    by (simp add: mem_world_def session_new_def)
  ultimately have loc: "local_remove mem_os ''/srv'' (ss_sync_metadata (lw_session (cm_net ?c))) False ''/a'' (lw_fs (cm_net ?c)) =
      (St_Ok, \<lparr>mf_data = [], mf_pos = 0, mf_dir = [''b'']\<rparr>)"
    by simp
  have "req_encodes wire_cc (Q_Path \<lparr>pq_op = if False then OP_RMDIR else OP_UNLINK, pq_seq = cm_seq ?c, pq_path = ''/a''\<rparr>)"
    by (simp add: req_encodes_def wire_cc_def enc_req_def small_def put_str_def MAX_FRAME_SIZE_def)
  moreover have "encodes wire_sc (status_reply (if False then OP_RMDIR else OP_UNLINK) (cm_seq ?c) St_Ok)"
    by (simp add: encodes_def wire_sc_def enc_resp_def status_reply_def MAX_FRAME_SIZE_def)
  ultimately show ?thesis
    using remote_remove [OF wire_codec_ok mem_cm_simps(1) _ _ loc, of "\<lambda>_. 0" "[]" toy_crypto] by auto
qed

end
