(* ===== verification/Tofu.thy ===== *)
theory Tofu
  imports Conn
begin

text \<open>
  Trust on first use and reconnection: what a connection that comes about says of the server's key,
  and how long the client tries.
\<close>

text \<open>What rustls promises: a handshake that succeeds has shown a certificate to the verifier, which
  accepted it; the sink is what the verifier left in it.\<close>

definition tls_checks :: "'n net \<Rightarrow> bool" where
  "tls_checks net =
     (\<forall>v sink n sink' n'. n_connect net v sink n = (Inr (), sink', n') \<longrightarrow>
        (\<exists>cert. v cert sink = (Inr (), sink')))"

text \<open>A handshake that succeeded under the verifier of the given mode and showed a certificate whose key
  has the fingerprint \<open>fp\<close>.\<close>

definition met_key :: "crypto \<Rightarrow> 'n net \<Rightarrow> PinMode \<Rightarrow> string option \<Rightarrow> 'n \<Rightarrow> string \<Rightarrow> bool" where
  "met_key cr net mode sink n fp =
     (\<exists>cert sink' n'. n_connect net (verify_server_cert cr mode) sink n = (Inr (), sink', n') \<and>
        verify_server_cert cr mode cert sink = (Inr (), sink') \<and> cert_fingerprint cr cert = Inr fp)"

section \<open>First contact\<close>

lemma met_key_fingerprint: "met_key cr net mode sink n fp \<Longrightarrow> \<exists>cert. cert_fingerprint cr cert = Inr fp"
  by (auto simp: met_key_def)

lemma establish_Ok:
  assumes "tls_checks net" and "establish cr net c = (Inr (), c')"
  obtains fp where "met_key cr net (pin_mode c) (cm_sink c) (cm_net c) fp"
    and "case cm_expected_fp c of Some pin \<Rightarrow> fp = pin \<and> cm_sink c' = cm_sink c | None \<Rightarrow> cm_sink c' = Some fp"
    and "cm_expected_fp c' = cm_expected_fp c" and "cm_cfg c' = cm_cfg c" and "cm_gen c' = cm_gen c"
proof -
  obtain sink n where n: "n_connect net (verify_server_cert cr (pin_mode c)) (cm_sink c) (cm_net c) = (Inr (), sink, n)"
    and c': "c' = c\<lparr>cm_sink := sink, cm_net := n\<rparr>"
    using assms(2) by (auto simp: establish_def split: prod.splits)
  obtain cert where v: "verify_server_cert cr (pin_mode c) cert (cm_sink c) = (Inr (), sink)"
    using assms(1) n unfolding tls_checks_def by blast
  then obtain fp where fp: "cert_fingerprint cr cert = Inr fp"
      "case pin_mode c of Enforce pin \<Rightarrow> fp = pin \<and> sink = cm_sink c | Capture \<Rightarrow> sink = Some fp"
    unfolding verify_server_cert_Ok by (cases "pin_mode c") auto
  with n v have "met_key cr net (pin_mode c) (cm_sink c) (cm_net c) fp" unfolding met_key_def by blast
  then show thesis
    by (rule that) (use fp(2) in \<open>auto simp: pin_mode_def c' split: option.splits\<close>)
qed

text \<open>The application handshake keeps the pin.\<close>

definition cm_pin :: "'n cm \<Rightarrow> string option \<times> u64" where
  "cm_pin c = (cm_expected_fp c, cm_gen c)"

lemma on_net_pin: "cm_pin (snd (on_net m c)) = cm_pin c"
  by (simp add: on_net_def cm_pin_def split: prod.split)

lemma context_err_snd: "snd (context_err what m s) = snd (m s)"
  by (simp add: context_err_def split: prod.split sum.split)

lemma send_request_pin: "cm_pin (snd (send_request cc net req c)) = cm_pin c"
  by (simp add: send_request_def on_net_pin split: sum.split)

lemma recv_response_pin: "cm_pin (snd (recv_response net dec c)) = cm_pin c"
  unfolding recv_response_def by (rule snd_andthen) (simp_all add: on_net_pin)

lemma app_handshake_pin: "cm_pin (snd (app_handshake cc net cid c)) = cm_pin c"
  unfolding app_handshake_def
  by (intro snd_andthen) (simp_all add: on_net_pin context_err_snd send_request_pin recv_response_pin)

lemma pin_first_contact_Ok:
  assumes "pin_first_contact uf net tty ls known c fs = (Inr (), c', fs')"
  obtains fp where "cm_sink c = Some fp" and "decide_first_contact tty ls (mc_tofu (cm_cfg c)) = Inr True"
    and "known_hosts_save uf (known_hosts_insert (mc_host_key (cm_cfg c)) fp known) fs = (Inr (), fs')"
    and "cm_expected_fp c' = Some fp"
  using assms
  by (auto simp: pin_first_contact_def context_err_def Let_def intro: that
      split: option.splits sum.splits prod.splits bool.splits)

lemma decide_first_contact_True:
  "decide_first_contact tty ls policy = Inr True \<longleftrightarrow>
   policy \<noteq> Strict \<and> (policy = Prompt \<longrightarrow> tty \<and> prompt_yes_no ls = Inr True)"
  by (cases policy) (simp_all add: decide_first_contact_def)

text \<open>What a successful \<open>connect\<close> means.\<close>

lemma connect_Ok:
  assumes tls: "tls_checks net" and load: "known_hosts_load uf fs (mc_known_hosts_path cfg) = Inr known"
    and conn: "connect cr uf cc net tty ls cid cfg n fs = (Inr c, fs')"
  obtains fp where "met_key cr net (case known_hosts_get known (mc_host_key cfg) of Some pin \<Rightarrow> Enforce pin | None \<Rightarrow> Capture) None n fp"
    and "cm_expected_fp c = Some fp"
    and "case known_hosts_get known (mc_host_key cfg) of
           Some pin \<Rightarrow> fp = pin \<and> fs' = fs
         | None \<Rightarrow> decide_first_contact tty ls (mc_tofu cfg) = Inr True \<and>
             known_hosts_save uf (known_hosts_insert (mc_host_key cfg) fp known) fs = (Inr (), fs')"
proof -
  let ?pinned = "known_hosts_get known (mc_host_key cfg)"
  let ?c0 = "(cm_new cfg n)\<lparr>cm_expected_fp := ?pinned\<rparr>"
  obtain r1 c1 where est: "establish cr net ?c0 = (r1, c1)" by fastforce
  obtain u1 where "r1 = Inr u1"
    using conn unfolding connect_def load by (cases r1) (simp_all only: sum.case Let_def est prod.case, simp)
  with est have c1: "establish cr net ?c0 = (Inr (), c1)" by simp
  let ?step = "if ?pinned = None then pin_first_contact uf net tty ls known c1 fs else (Inr (), c1, fs)"
  have conn1: "(case ?step of
        (Inl e, _, fs1) \<Rightarrow> (Inl e, fs1)
      | (Inr _, c2, fs1) \<Rightarrow>
          (case context_err ''QuicFS handshake'' (app_handshake cc net cid) c2 of
             (Inl e, _) \<Rightarrow> (Inl e, fs1)
           | (Inr _, c3) \<Rightarrow> (Inr (c3\<lparr>cm_conn := True\<rparr>), fs1))) = (Inr c, fs')"
    using conn unfolding connect_def load by (simp only: sum.case Let_def c1 prod.case)
  obtain r c2 fs2 where step: "?step = (r, c2, fs2)" by (cases ?step) auto
  obtain u where r: "r = Inr u" using conn1 unfolding step by (cases r) simp_all
  have "(case context_err ''QuicFS handshake'' (app_handshake cc net cid) c2 of
           (Inl e, _) \<Rightarrow> (Inl e, fs2)
         | (Inr _, c3) \<Rightarrow> (Inr (c3\<lparr>cm_conn := True\<rparr>), fs2)) = (Inr c, fs')"
    using conn1 unfolding step r by simp
  then obtain c3 where "snd (context_err ''QuicFS handshake'' (app_handshake cc net cid) c2) = c3"
      "c = c3\<lparr>cm_conn := True\<rparr>" "fs2 = fs'"
    by (auto split: prod.splits sum.splits)
  then have c2: "?step = (Inr (), c2, fs')" and c: "cm_expected_fp c = cm_expected_fp c2"
    using step r app_handshake_pin [of cc net cid c2] by (simp_all add: context_err_snd cm_pin_def)
  obtain fp where "met_key cr net (pin_mode ?c0) (cm_sink ?c0) (cm_net ?c0) fp"
    and fp2: "case cm_expected_fp ?c0 of Some pin \<Rightarrow> fp = pin \<and> cm_sink c1 = cm_sink ?c0 | None \<Rightarrow> cm_sink c1 = Some fp"
    and fp3: "cm_expected_fp c1 = cm_expected_fp ?c0" "cm_cfg c1 = cm_cfg ?c0"
    using tls c1 by (rule establish_Ok)
  then have fp: "met_key cr net (case ?pinned of Some pin \<Rightarrow> Enforce pin | None \<Rightarrow> Capture) None n fp"
    by (simp add: pin_mode_def cm_new_def)
  show thesis
  proof (cases ?pinned)
    case None
    then have pin: "pin_first_contact uf net tty ls known c1 fs = (Inr (), c2, fs')" and sink: "cm_sink c1 = Some fp"
      using c2 fp2 by simp_all
    from pin show thesis
      by (rule pin_first_contact_Ok) (use None sink fp fp3 c in \<open>auto simp: cm_new_def intro: that\<close>)
  next
    case (Some pin)
    with c2 fp fp2 fp3 c show thesis by (auto simp: cm_new_def intro: that)
  qed
qed

text \<open>C10: Trust on first use. Whenever \<open>connect\<close> succeeds, the server has shown a certificate whose
  key has the fingerprint that the connection will enforce from then on. For a host with a pin that
  fingerprint is the pin, and the files are as before; for a new host the policy or the user has
  accepted it (never under the strict policy, nor without a terminal under the prompting one), and
  the pin has been saved beside the old ones.\<close>

theorem connect_trust:
  assumes "tls_checks net" and "known_hosts_load uf fs (mc_known_hosts_path cfg) = Inr known"
    and "connect cr uf cc net tty ls cid cfg n fs = (Inr c, fs')"
  shows "\<exists>fp. cm_expected_fp c = Some fp \<and>
    met_key cr net (case known_hosts_get known (mc_host_key cfg) of Some pin \<Rightarrow> Enforce pin | None \<Rightarrow> Capture) None n fp \<and>
    (case known_hosts_get known (mc_host_key cfg) of
       Some pin \<Rightarrow> fp = pin \<and> fs' = fs
     | None \<Rightarrow> mc_tofu cfg \<noteq> Strict \<and> (mc_tofu cfg = Prompt \<longrightarrow> tty \<and> prompt_yes_no ls = Inr True) \<and>
         known_hosts_save uf (known_hosts_insert (mc_host_key cfg) fp known) fs = (Inr (), fs'))"
proof -
  obtain fp where c: "met_key cr net (case known_hosts_get known (mc_host_key cfg) of Some pin \<Rightarrow> Enforce pin | None \<Rightarrow> Capture) None n fp"
      "cm_expected_fp c = Some fp"
      "case known_hosts_get known (mc_host_key cfg) of
         Some pin \<Rightarrow> fp = pin \<and> fs' = fs
       | None \<Rightarrow> decide_first_contact tty ls (mc_tofu cfg) = Inr True \<and>
           known_hosts_save uf (known_hosts_insert (mc_host_key cfg) fp known) fs = (Inr (), fs')"
    using assms by (rule connect_Ok)
  show ?thesis
  proof (intro exI conjI)
    show "case known_hosts_get known (mc_host_key cfg) of
        Some pin \<Rightarrow> fp = pin \<and> fs' = fs
      | None \<Rightarrow> mc_tofu cfg \<noteq> Strict \<and> (mc_tofu cfg = Prompt \<longrightarrow> tty \<and> prompt_yes_no ls = Inr True) \<and>
          known_hosts_save uf (known_hosts_insert (mc_host_key cfg) fp known) fs = (Inr (), fs')"
      using c(3) decide_first_contact_True [of tty ls "mc_tofu cfg"]
      by (cases "known_hosts_get known (mc_host_key cfg)") simp_all
  qed (rule c)+
qed

text \<open>C11: The pin holds over restarts. After a first connection to a host, whatever the policy, any
  later run of the client with the same configuration that connects has met the same key, and leaves
  the files alone: another key is refused even if the user would accept it.\<close>

theorem pin_survives:
  assumes "tls_checks net" and "tls_checks net'" and "files_ok uf"
    and "known_hosts_load uf fs (mc_known_hosts_path cfg) = Inr known" and "bt_ok (kh_entries known)"
    and "list_all (\<lambda>(h, f). key_word h \<and> graphic_word f) (kh_entries known)" and "key_word (mc_host_key cfg)"
    and "\<forall>cert fp. cert_fingerprint cr cert = Inr fp \<longrightarrow> graphic_word fp"
    and "connect cr uf cc net tty ls cid cfg n fs = (Inr c1, fs1)"
    and "connect cr uf cc net' tty' ls' cid' cfg n' fs1 = (Inr c2, fs2)"
  shows "cm_expected_fp c1 \<noteq> None \<and> cm_expected_fp c2 = cm_expected_fp c1 \<and> fs2 = fs1"
proof -
  let ?h = "mc_host_key cfg"
  obtain fp where c1: "met_key cr net (case known_hosts_get known ?h of Some pin \<Rightarrow> Enforce pin | None \<Rightarrow> Capture) None n fp"
      "cm_expected_fp c1 = Some fp"
      "case known_hosts_get known ?h of
         Some pin \<Rightarrow> fp = pin \<and> fs1 = fs
       | None \<Rightarrow> decide_first_contact tty ls (mc_tofu cfg) = Inr True \<and>
           known_hosts_save uf (known_hosts_insert ?h fp known) fs = (Inr (), fs1)"
    using assms(1,4,9) by (rule connect_Ok)
  obtain known1 where k1: "known_hosts_load uf fs1 (mc_known_hosts_path cfg) = Inr known1"
      "known_hosts_get known1 ?h = Some fp"
  proof (cases "known_hosts_get known ?h")
    case (Some pin)
    with c1(3) assms(4) show thesis by (auto intro: that)
  next
    case None
    let ?k = "known_hosts_insert ?h fp known"
    have path: "kh_path ?k = mc_known_hosts_path cfg"
      using assms(4) by (auto simp: known_hosts_load_def known_hosts_insert_def split: if_splits sum.splits)
    have "bt_ok (kh_entries ?k)" "list_all (\<lambda>(h, f). key_word h \<and> graphic_word f) (kh_entries ?k)"
      using assms(5-8) met_key_fingerprint [OF c1(1)] set_bt_insert_subset [of ?h fp "kh_entries known"]
      by (auto simp: known_hosts_insert_def bt_ok_insert list_all_iff)
    then have "known_hosts_load uf fs1 (mc_known_hosts_path cfg) = Inr ?k"
      using known_hosts_save_load [OF assms(3), of ?k fs fs1] None c1(3) path by simp
    moreover have "known_hosts_get ?k ?h = Some fp"
      by (simp add: known_hosts_get_def known_hosts_insert_def map_of_bt_insert)
    ultimately show thesis by (rule that)
  qed
  obtain fp2 where "cm_expected_fp c2 = Some fp2" "fp2 = fp" "fs2 = fs1"
    using assms(2) k1(1) assms(10) by (rule connect_Ok) (use k1(2) in auto)
  with c1(2) show ?thesis by simp
qed

section \<open>The instance\<close>

text \<open>A network whose server shows the certificate \<open>cert\<close> and answers every stream with one frame,
  a codec that reads it as a handshake, and a digest that prints.\<close>

definition shows_net :: "bytes \<Rightarrow> bytes net" where
  "shows_net cert =
     \<lparr>n_connect = (\<lambda>v sink n. case v cert sink of (Inl _, s) \<Rightarrow> (Inl ''QUIC handshake'', s, n) | (Inr _, s) \<Rightarrow> (Inr (), s, n)),
      n_live = (\<lambda>_. True), n_close = id, n_open_bi = (\<lambda>_. (Inr (), frame_bytes [7])),
      n_write_all = (\<lambda>_ n. (Inr (), n)), n_finish = (\<lambda>n. (Inr (), n)), n_read_exact = buf_read\<rparr>"

definition hello_cc :: client_codec where
  "hello_cc =
     \<lparr>enc_request = (\<lambda>_. Some [1]),
      dec_HandshakeResponse = (\<lambda>_. Some \<lparr>hsr_op = OP_HANDSHAKE, hsr_seq = 1, hsr_status = 0, hsr_version = 1,
        hsr_features = [], hsr_chunk_size = 4096, hsr_server_id = [], hsr_export_root = []\<rparr>),
      dec_PingResponse = (\<lambda>_. None), dec_GetAttrResponse = (\<lambda>_. None), dec_SetAttrResponse = (\<lambda>_. None),
      dec_ReadDirResponse = (\<lambda>_. None), dec_OpenResponse = (\<lambda>_. None), dec_ReleaseResponse = (\<lambda>_. None),
      dec_ReadResponse = (\<lambda>_. None), dec_WriteResponse = (\<lambda>_. None), dec_StatusResponse = (\<lambda>_. None),
      dec_ReadLinkResponse = (\<lambda>_. None), dec_StatFsResponse = (\<lambda>_. None), dec_RenameResponse = (\<lambda>_. None)\<rparr>"

definition print_crypto :: crypto where
  "print_crypto = toy_crypto\<lparr>cr_base64 := map (\<lambda>w. if w = 0 then CHR ''A'' else CHR ''B'')\<rparr>"

definition hello_cfg :: MountConfig where
  "hello_cfg = \<lparr>mc_host_key = ''h:9001'', mc_chunk_size = 4096, mc_tofu = AcceptNew, mc_known_hosts_path = ''/k''\<rparr>"

definition hello :: "(anyhow + bytes cm) \<times> ((string \<rightharpoonup> string) \<times> string)" where
  "hello = connect print_crypto mem_files hello_cc (shows_net [0, 1]) False [] ''me'' hello_cfg [] (Map.empty, [])"

lemma tls_checks_shows: "tls_checks (shows_net cert)"
  by (auto simp: tls_checks_def shows_net_def split: prod.splits sum.splits)

lemma shows_handshake:
  "app_handshake hello_cc (shows_net cert) cid c = (Inr (), c\<lparr>cm_net := []\<rparr>)"
proof -
  let ?net = "shows_net cert"
  let ?c = "c\<lparr>cm_net := frame_bytes [7]\<rparr>"
  have "context_err ''open handshake stream'' (on_net (n_open_bi ?net)) c = (Inr (), ?c)"
    by (simp add: context_err_def on_net_def shows_net_def)
  moreover have "send_request hello_cc ?net r c' = (Inr (), c')" for r c'
    by (simp add: send_request_def client_encode_def hello_cc_def on_net_def write_frame_def shows_net_def MAX_FRAME_SIZE_def)
  moreover have "context_err ''finish handshake send'' (on_net (n_finish ?net)) c' = (Inr (), c')" for c'
    by (simp add: context_err_def on_net_def shows_net_def)
  moreover have "read_frame buf_read (frame_bytes [7]) = (Inr [7], [])"
    using read_frame_of_frame [OF consumes_buf_read, of "frame_bytes [7]" "[7]" "[]"] by (simp add: MAX_FRAME_SIZE_def)
  then have "on_net (read_frame (n_read_exact ?net)) ?c = (Inr [7], c\<lparr>cm_net := []\<rparr>)"
    by (simp add: on_net_def shows_net_def)
  then have "recv_response ?net (dec_HandshakeResponse hello_cc) ?c =
      (client_decode (dec_HandshakeResponse hello_cc) [7], c\<lparr>cm_net := []\<rparr>)"
    by (simp add: recv_response_def)
  ultimately show ?thesis
    by (simp add: app_handshake_def client_decode_def hello_cc_def)
qed

lemma print_fingerprint: "cert_fingerprint print_crypto [0, 1] = Inr ''SHA256:AB''"
  by (simp add: cert_fingerprint_def fingerprint_of_spki_def print_crypto_def toy_crypto_def)

lemma hello_load:
  "known_hosts_load mem_files (Map.empty, []) (mc_known_hosts_path hello_cfg) = Inr \<lparr>kh_path = ''/k'', kh_entries = []\<rparr>"
  by (simp add: known_hosts_load_def mem_files_def hello_cfg_def)

definition hello_known :: KnownHosts where
  "hello_known = \<lparr>kh_path = ''/k'', kh_entries = [(''h:9001'', ''SHA256:AB'')]\<rparr>"

lemma hello_Ok:
  "\<exists>c. hello = (Inr c, snd hello)" "known_hosts_save mem_files hello_known (Map.empty, []) = (Inr (), snd hello)"
proof -
  let ?k = "\<lparr>kh_path = ''/k'', kh_entries = []\<rparr>"
  let ?c = "cm_new hello_cfg []"
  have get: "known_hosts_get ?k (mc_host_key hello_cfg) = None" by (simp add: known_hosts_get_def)
  have est: "establish print_crypto (shows_net [0, 1]) (?c\<lparr>cm_expected_fp := None\<rparr>) =
      (Inr (), ?c\<lparr>cm_sink := Some ''SHA256:AB''\<rparr>)"
    by (simp add: establish_def shows_net_def pin_mode_def verify_server_cert_def print_fingerprint cm_new_def)
  obtain fs1 where save: "known_hosts_save mem_files hello_known (Map.empty, []) = (Inr (), fs1)"
    by (simp add: known_hosts_save_def save_text_mem)
  have "known_hosts_insert ''h:9001'' ''SHA256:AB'' ?k = hello_known"
    by (simp add: known_hosts_insert_def hello_known_def)
  then obtain c2 where pin: "pin_first_contact mem_files (shows_net [0, 1]) False [] ?k
      (?c\<lparr>cm_sink := Some ''SHA256:AB''\<rparr>) (Map.empty, []) =
      (Inr (), c2, fs1)"
    using save
    by (simp add: pin_first_contact_def decide_first_contact_def context_err_def cm_new_def hello_cfg_def Let_def)
  then show "\<exists>c. hello = (Inr c, snd hello)"
    and "known_hosts_save mem_files hello_known (Map.empty, []) = (Inr (), snd hello)"
    using save by (simp_all add: hello_def connect_def hello_load get est shows_handshake context_err_def)
qed

theorem connect_trust_witness:
  "\<exists>fp. known_hosts_save mem_files (known_hosts_insert ''h:9001'' fp \<lparr>kh_path = ''/k'', kh_entries = []\<rparr>) (Map.empty, []) =
     (Inr (), snd hello)"
proof -
  obtain c where c: "hello = (Inr c, snd hello)" using hello_Ok(1) by blast
  from connect_trust [OF tls_checks_shows hello_load c [unfolded hello_def]] show ?thesis
    by (auto simp: known_hosts_get_def hello_cfg_def hello_def)
qed

text \<open>The second run.\<close>

definition hello_again :: "(anyhow + bytes cm) \<times> ((string \<rightharpoonup> string) \<times> string)" where
  "hello_again = connect print_crypto mem_files hello_cc (shows_net [0, 1]) False [] ''me'' hello_cfg [] (snd hello)"

lemma print_graphic: "cert_fingerprint print_crypto cert = Inr fp \<Longrightarrow> graphic_word fp"
  by (auto simp: cert_fingerprint_def fingerprint_of_spki_def print_crypto_def toy_crypto_def graphic_word_def
      graphic_def list_all_iff split: if_splits)

lemma hello_again_Ok: "\<exists>c. hello_again = (Inr c, snd hello)"
proof -
  let ?c = "cm_new hello_cfg []"
  have load: "known_hosts_load mem_files (snd hello) (mc_known_hosts_path hello_cfg) = Inr hello_known"
    using known_hosts_save_load [OF files_ok_mem _ _ hello_Ok(2)]
    by (simp add: hello_known_def hello_cfg_def bt_ok_def key_word_def graphic_word_def graphic_def)
  have get: "known_hosts_get hello_known (mc_host_key hello_cfg) = Some ''SHA256:AB''"
    by (simp add: known_hosts_get_def hello_known_def hello_cfg_def)
  have "establish print_crypto (shows_net [0, 1]) (?c\<lparr>cm_expected_fp := Some ''SHA256:AB''\<rparr>) =
      (Inr (), ?c\<lparr>cm_expected_fp := Some ''SHA256:AB''\<rparr>)"
    by (simp add: establish_def shows_net_def pin_mode_def verify_server_cert_def print_fingerprint cm_new_def)
  then show ?thesis
    by (simp add: hello_again_def connect_def load get shows_handshake context_err_def)
qed

theorem pin_survives_witness:
  "\<exists>c1 c2. hello = (Inr c1, snd hello) \<and> hello_again = (Inr c2, snd hello) \<and>
     cm_expected_fp c1 \<noteq> None \<and> cm_expected_fp c2 = cm_expected_fp c1"
proof -
  obtain c1 where c1: "hello = (Inr c1, snd hello)" using hello_Ok(1) by blast
  obtain c2 where c2: "hello_again = (Inr c2, snd hello)" using hello_again_Ok by blast
  have "key_word (mc_host_key hello_cfg)" by (simp add: hello_cfg_def key_word_def graphic_word_def graphic_def)
  with pin_survives [OF tls_checks_shows tls_checks_shows files_ok_mem hello_load _ _ _ _ c1 [unfolded hello_def]
      c2 [unfolded hello_again_def hello_def]] print_graphic
  have "cm_expected_fp c1 \<noteq> None \<and> cm_expected_fp c2 = cm_expected_fp c1"
    by (auto simp: bt_ok_def)
  with c1 c2 show ?thesis by blast
qed

section \<open>Reconnection\<close>

text \<open>The state after a number of failed attempts, and the time slept until then.\<close>

primrec after_failures :: "'n cenv \<Rightarrow> nat \<Rightarrow> 'n cm \<Rightarrow> 'n cm" where
  "after_failures e 0 c = c"
| "after_failures e (Suc k) c =
     after_failures e k (snd (do_connect (ce_crypto e) (ce_codec e) (ce_net e) (ce_client_id e) c))"

primrec slept :: "nat \<Rightarrow> nat" where
  "slept 0 = 0"
| "slept (Suc k) = slept k + retry_sleep (Suc k) (backoff k)"

definition attempt :: "'n cenv \<Rightarrow> nat \<Rightarrow> 'n cm \<Rightarrow> (anyhow + unit) \<times> 'n cm" where
  "attempt e k c = do_connect (ce_crypto e) (ce_codec e) (ce_net e) (ce_client_id e) (after_failures e k c)"

lemma attempt_Suc: "attempt e (Suc k) c = attempt e k (snd (attempt e 0 c))"
  by (simp add: attempt_def)

lemma after_failures_Suc: "after_failures e (Suc k) c = after_failures e k (snd (attempt e 0 c))"
  by (simp add: attempt_def)

lemma slept_numeral:
  "slept (numeral v) = slept (pred_numeral v) + retry_sleep (numeral v) (backoff (pred_numeral v))"
  by (simp only: numeral_eq_Suc [of v] slept.simps backoff.simps)

lemma backoff_numeral: "backoff (numeral v) = min (backoff (pred_numeral v) * 2) 30000"
  by (simp only: numeral_eq_Suc [of v] slept.simps backoff.simps)

lemma slept_values: "slept 7 = 15425" "slept 8 = 34625"
  by (simp_all add: slept_numeral backoff_numeral retry_sleep_def saturating_mul_def usize_max_def)

lemma slept_mono: "k \<le> l \<Longrightarrow> slept k \<le> slept l"
  by (rule lift_Suc_mono_le) simp_all

lemma slept_less: "k < 8 \<Longrightarrow> slept k < RPC_TIMEOUT"
  using slept_mono [of k 7] by (simp add: slept_values RPC_TIMEOUT_def)

text \<open>The loop, resumed after \<open>k\<close> failures with \<open>m\<close> attempts left.\<close>

lemma reconnect_loop_attempts:
  "k + m = 8 \<Longrightarrow>
   (\<exists>j<m. (\<forall>i<j. \<not> is_ok (fst (attempt e i c))) \<and> is_ok (fst (attempt e j c)) \<and>
      reconnect_loop e what k (slept k) c =
        (Inr (), (snd (attempt e j c))\<lparr>cm_gen := cm_gen (snd (attempt e j c)) + 1\<rparr>)) \<or>
   (\<forall>i<m. \<not> is_ok (fst (attempt e i c))) \<and>
      reconnect_loop e what k (slept k) c = (Inl (timed_out what), after_failures e m c)"
proof (induction m arbitrary: k c)
  case 0
  then show ?case by (simp add: reconnect_loop.simps slept_values RPC_TIMEOUT_def)
next
  case (Suc m)
  have lt: "\<not> RPC_TIMEOUT \<le> slept k" using slept_less [of k] Suc.prems by simp
  obtain r c1 where a: "attempt e 0 c = (r, c1)" by fastforce
  show ?case
  proof (cases r)
    case (Inr u)
    then have "reconnect_loop e what k (slept k) c = (Inr (), c1\<lparr>cm_gen := cm_gen c1 + 1\<rparr>)"
      using lt a by (subst reconnect_loop.simps) (simp add: attempt_def)
    with a Inr show ?thesis by (intro disjI1 exI [of _ 0]) simp
  next
    case (Inl err)
    then have step: "reconnect_loop e what k (slept k) c = reconnect_loop e what (Suc k) (slept (Suc k)) c1"
      using lt a by (subst reconnect_loop.simps) (simp add: attempt_def)
    have c1: "snd (attempt e 0 c) = c1" "\<not> is_ok (fst (attempt e 0 c))" using a Inl by simp_all
    have all: "(\<forall>i<Suc j. \<not> is_ok (fst (attempt e i c))) \<longleftrightarrow> (\<forall>i<j. \<not> is_ok (fst (attempt e i c1)))" for j
      using c1 by (auto simp: less_Suc_eq_0_disj attempt_Suc)
    have "Suc k + m = 8" using Suc.prems by simp
    from Suc.IH [OF this, of c1] show ?thesis
    proof (elim disjE exE conjE)
      fix j assume j: "j < m" "\<forall>i<j. \<not> is_ok (fst (attempt e i c1))" "is_ok (fst (attempt e j c1))"
        "reconnect_loop e what (Suc k) (slept (Suc k)) c1 =
          (Inr (), (snd (attempt e j c1))\<lparr>cm_gen := cm_gen (snd (attempt e j c1)) + 1\<rparr>)"
      then show ?thesis
        by (intro disjI1 exI [of _ "Suc j"]) (simp add: all [of j] attempt_Suc c1(1) step)
    next
      assume "\<forall>i<m. \<not> is_ok (fst (attempt e i c1))"
        "reconnect_loop e what (Suc k) (slept (Suc k)) c1 = (Inl (timed_out what), after_failures e m c1)"
      then show ?thesis
        by (intro disjI2) (simp add: all [of m] after_failures_Suc [of e m c] c1(1) step del: after_failures.simps)
    qed
  qed
qed


lemma establish_pin: "cm_pin (snd (establish cr net c)) = cm_pin c"
  by (simp add: establish_def cm_pin_def split: prod.split)

lemma do_connect_pin: "cm_pin (snd (do_connect cr cc net cid c)) = cm_pin c"
  unfolding do_connect_def
  by (intro snd_andthen) (simp_all add: establish_pin app_handshake_pin, simp add: cm_pin_def)

lemma after_failures_pin: "cm_pin (after_failures e k c) = cm_pin c"
  by (induction k arbitrary: c) (simp_all add: do_connect_pin)


text \<open>C12: A reconnection is to the pinned key. If the connection is lost and \<open>reconnect\<close> succeeds for a
  connection with a pin, some server has shown a certificate with exactly that fingerprint in the
  attempt that succeeded; the pin is unchanged and the generation counter has moved by one.\<close>

theorem reconnect_pinned:
  assumes "tls_checks (ce_net e)" and "cm_expected_fp c = Some fp" and "reconnect e what c = (Inr (), c')"
  shows "(\<exists>j<8. met_key (ce_crypto e) (ce_net e) (Enforce fp) (cm_sink (after_failures e j c)) (cm_net (after_failures e j c)) fp) \<and>
    cm_expected_fp c' = Some fp \<and> cm_gen c' = cm_gen c + 1"
proof -
  obtain j where j8: "j < 8" and j: "is_ok (fst (attempt e j c))"
      "c' = (snd (attempt e j c))\<lparr>cm_gen := cm_gen (snd (attempt e j c)) + 1\<rparr>"
    using reconnect_loop_attempts [of 0 8 e c what] assms(3) by (auto simp: reconnect_def)
  let ?c = "after_failures e j c"
  have pin: "cm_expected_fp ?c = Some fp" "cm_gen ?c = cm_gen c"
    using after_failures_pin [of e j c] assms(2) by (simp_all add: cm_pin_def)
  obtain r c1 where est: "establish (ce_crypto e) (ce_net e) ?c = (r, c1)" by fastforce
  with j(1) have "r = Inr ()" by (cases r) (auto simp: attempt_def do_connect_def)
  with est have "establish (ce_crypto e) (ce_net e) ?c = (Inr (), c1)" by simp
  with assms(1) obtain fp' where "met_key (ce_crypto e) (ce_net e) (pin_mode ?c) (cm_sink ?c) (cm_net ?c) fp'"
      "case cm_expected_fp ?c of Some pin \<Rightarrow> fp' = pin \<and> cm_sink c1 = cm_sink ?c | None \<Rightarrow> cm_sink c1 = Some fp'"
    by (rule establish_Ok)
  then have "met_key (ce_crypto e) (ce_net e) (Enforce fp) (cm_sink ?c) (cm_net ?c) fp"
    using pin by (simp add: pin_mode_def)
  moreover have "cm_pin (snd (attempt e j c)) = cm_pin ?c"
    unfolding attempt_def by (rule do_connect_pin)
  ultimately show ?thesis
    using pin j8 j(2) by (auto simp: cm_pin_def)
qed

theorem reconnect_pinned_witness:
  "let e = \<lparr>ce_crypto = print_crypto, ce_codec = hello_cc, ce_net = shows_net [0, 1], ce_client_id = []\<rparr>;
       c = (cm_new hello_cfg [])\<lparr>cm_expected_fp := Some ''SHA256:AB''\<rparr>
   in cm_gen (snd (reconnect e ''read'' c)) = 1"
proof -
  let ?e = "\<lparr>ce_crypto = print_crypto, ce_codec = hello_cc, ce_net = shows_net [0, 1], ce_client_id = []\<rparr>"
  let ?c = "(cm_new hello_cfg ([] :: bytes))\<lparr>cm_expected_fp := Some ''SHA256:AB''\<rparr>"
  have "establish print_crypto (shows_net [0, 1]) ?c = (Inr (), ?c)"
    by (simp add: establish_def shows_net_def pin_mode_def verify_server_cert_def print_fingerprint cm_new_def)
  then obtain c' where c': "reconnect ?e ''read'' ?c = (Inr (), c')"
    by (simp add: reconnect_def reconnect_loop.simps RPC_TIMEOUT_def do_connect_def shows_handshake)
  have "tls_checks (ce_net ?e)" by (simp add: tls_checks_shows)
  moreover have "cm_expected_fp ?c = Some ''SHA256:AB''" by simp
  ultimately have "cm_gen c' = cm_gen ?c + 1" using reconnect_pinned c' by blast
  with c' show ?thesis by (simp add: cm_new_def)
qed

end
