(* ===== verification/Write_Buf.thy ===== *)
theory Write_Buf
  imports File_IO "HOL-Library.AList"
begin

text \<open>
  The client's write buffer (\<open>client/src/writebuf.rs\<close>): writes are queued per open file and kept until
  the server has acknowledged them. The hash map of the handles is an association list; its order
  stands for the iteration order of the map, which the standard library leaves open, and no lemma
  depends on it. Points and lengths of time are in nanoseconds, the current one is an argument
  \<open>now\<close>. The byte counters are natural numbers: they count bytes that are in memory.
\<close>

section \<open>The buffer and its operations\<close>

record PendingWrite =
  pw_offset :: u64
  pw_data :: bytes
  pw_queued_at :: nat

record HandleBuf =
  hb_chunks :: "PendingWrite list"
  hb_sending :: bool

definition hb_bytes :: "HandleBuf \<Rightarrow> nat" where
  "hb_bytes hb = sum_list (map (\<lambda>w. length (pw_data w)) (hb_chunks hb))"

record WriteBuffer =
  wb_per_handle :: "(u64 \<times> HandleBuf) list"
  wb_total_bytes :: nat
  wb_max_per_handle_bytes :: nat
  wb_max_total_bytes :: nat
  wb_hard_total_bytes :: nat
  wb_window :: nat

definition write_buffer_new :: "nat \<Rightarrow> nat \<Rightarrow> u64 \<Rightarrow> WriteBuffer" where
  "write_buffer_new max_per_handle_bytes max_total_bytes window_ms =
     \<lparr>wb_per_handle = [], wb_total_bytes = 0, wb_max_per_handle_bytes = max_per_handle_bytes,
      wb_max_total_bytes = max_total_bytes, wb_hard_total_bytes = saturating_mul max_total_bytes 2,
      wb_window = unat window_ms * 1000000\<rparr>"

datatype PushDecision = Buffered | FlushThis u64 | FlushOther u64 | Reject

text \<open>\<open>Iterator::max_by_key\<close>: the last of the largest.\<close>

fun max_by_key :: "('a \<Rightarrow> nat) \<Rightarrow> 'a list \<Rightarrow> 'a option" where
  "max_by_key f [] = None"
| "max_by_key f (x # xs) =
     (case max_by_key f xs of None \<Rightarrow> Some x | Some y \<Rightarrow> Some (if f y < f x then x else y))"

text \<open>\<open>or_default\<close>.\<close>

definition handle_buf :: "WriteBuffer \<Rightarrow> u64 \<Rightarrow> HandleBuf" where
  "handle_buf wb handle =
     (case map_of (wb_per_handle wb) handle of Some hb \<Rightarrow> hb | None \<Rightarrow> \<lparr>hb_chunks = [], hb_sending = False\<rparr>)"

definition push :: "u64 \<Rightarrow> u64 \<Rightarrow> bytes \<Rightarrow> nat \<Rightarrow> WriteBuffer \<Rightarrow> PushDecision \<times> WriteBuffer" where
  "push handle offset data now wb =
     (let n = length data
      in if wb_total_bytes wb + n > wb_hard_total_bytes wb then (Reject, wb)
         else
           let hb = handle_buf wb handle;
               entry = hb\<lparr>hb_chunks := hb_chunks hb @ [\<lparr>pw_offset = offset, pw_data = data, pw_queued_at = now\<rparr>]\<rparr>;
               wb1 = wb\<lparr>wb_per_handle := AList.update handle entry (wb_per_handle wb),
                        wb_total_bytes := wb_total_bytes wb + n\<rparr>
           in (if hb_bytes entry \<ge> wb_max_per_handle_bytes wb then FlushThis handle
               else if wb_total_bytes wb1 \<ge> wb_max_total_bytes wb
                 then FlushOther (case max_by_key (hb_bytes \<circ> snd) (wb_per_handle wb1) of
                        Some (h, _) \<Rightarrow> h | None \<Rightarrow> handle)
               else Buffered,
               wb1))"

record FlushBatch =
  fb_chunks :: "(u64 \<times> bytes) list"
  fb_sent_count :: nat

text \<open>The loop that merges a run with the one before it when they touch.\<close>

definition coalesce_step :: "(u64 \<times> bytes) list \<Rightarrow> u64 \<times> bytes \<Rightarrow> (u64 \<times> bytes) list" where
  "coalesce_step merged p =
     (case p of
        (off, data) \<Rightarrow>
          if merged \<noteq> [] \<and> fst (last merged) + word_of_nat (length (snd (last merged))) = off
          then butlast merged @ [(fst (last merged), snd (last merged) @ data)]
          else merged @ [(off, data)])"

definition chunk_pairs :: "HandleBuf \<Rightarrow> (u64 \<times> bytes) list" where
  "chunk_pairs hb = map (\<lambda>w. (pw_offset w, pw_data w)) (hb_chunks hb)"

definition begin_flush :: "u64 \<Rightarrow> WriteBuffer \<Rightarrow> FlushBatch option \<times> WriteBuffer" where
  "begin_flush handle wb =
     (case map_of (wb_per_handle wb) handle of
        None \<Rightarrow> (None, wb)
      | Some hb \<Rightarrow>
          if hb_sending hb \<or> hb_chunks hb = [] then (None, wb)
          else
            (Some \<lparr>fb_chunks = foldl coalesce_step [] (sort_key fst (chunk_pairs hb)),
                   fb_sent_count = length (hb_chunks hb)\<rparr>,
             wb\<lparr>wb_per_handle := AList.update handle (hb\<lparr>hb_sending := True\<rparr>) (wb_per_handle wb)\<rparr>))"

definition ack_flush :: "u64 \<Rightarrow> nat \<Rightarrow> WriteBuffer \<Rightarrow> WriteBuffer" where
  "ack_flush handle sent_count wb =
     (case map_of (wb_per_handle wb) handle of
        None \<Rightarrow> wb
      | Some hb \<Rightarrow>
          let n = min sent_count (length (hb_chunks hb));
              removed = sum_list (map (\<lambda>w. length (pw_data w)) (take n (hb_chunks hb)));
              hb1 = hb\<lparr>hb_chunks := drop n (hb_chunks hb), hb_sending := False\<rparr>
          in wb\<lparr>wb_total_bytes := wb_total_bytes wb - removed,
                wb_per_handle := (if hb_chunks hb1 = [] then AList.delete handle (wb_per_handle wb)
                                  else AList.update handle hb1 (wb_per_handle wb))\<rparr>)"

definition fail_flush :: "u64 \<Rightarrow> WriteBuffer \<Rightarrow> WriteBuffer" where
  "fail_flush handle wb =
     (case map_of (wb_per_handle wb) handle of
        None \<Rightarrow> wb
      | Some hb \<Rightarrow> wb\<lparr>wb_per_handle := AList.update handle (hb\<lparr>hb_sending := False\<rparr>) (wb_per_handle wb)\<rparr>)"

definition drop_handle :: "u64 \<Rightarrow> WriteBuffer \<Rightarrow> nat \<times> WriteBuffer" where
  "drop_handle handle wb =
     (case map_of (wb_per_handle wb) handle of
        None \<Rightarrow> (0, wb)
      | Some hb \<Rightarrow>
          (hb_bytes hb, wb\<lparr>wb_per_handle := AList.delete handle (wb_per_handle wb),
                           wb_total_bytes := wb_total_bytes wb - hb_bytes hb\<rparr>))"

definition older_than :: "nat \<Rightarrow> nat \<Rightarrow> WriteBuffer \<Rightarrow> u64 list" where
  "older_than now deadline wb =
     map fst (filter (\<lambda>(_, hb). case hb_chunks hb of [] \<Rightarrow> False | w # _ \<Rightarrow> now - pw_queued_at w \<ge> deadline)
       (wb_per_handle wb))"

definition expired_handles :: "nat \<Rightarrow> WriteBuffer \<Rightarrow> u64 list" where
  "expired_handles now wb = older_than now (wb_window wb) wb"

definition handles :: "WriteBuffer \<Rightarrow> u64 list" where
  "handles wb = map fst (wb_per_handle wb)"

definition has_buffered :: "WriteBuffer \<Rightarrow> u64 \<Rightarrow> bool" where
  "has_buffered wb handle =
     (case map_of (wb_per_handle wb) handle of None \<Rightarrow> False | Some hb \<Rightarrow> hb_chunks hb \<noteq> [])"

definition total_bytes :: "WriteBuffer \<Rightarrow> nat" where
  "total_bytes wb = wb_total_bytes wb"

section \<open>Memory\<close>

text \<open>The counter is the sum of what is queued, and it never passes the hard limit.\<close>

definition wb_ok :: "WriteBuffer \<Rightarrow> bool" where
  "wb_ok wb =
     (distinct (map fst (wb_per_handle wb)) \<and>
      wb_total_bytes wb = entry_sum hb_bytes (map_of (wb_per_handle wb)) \<and>
      wb_total_bytes wb \<le> wb_hard_total_bytes wb)"

datatype buf_op =
  Push u64 u64 bytes nat
| Begin_Flush u64
| Ack_Flush u64 nat
| Fail_Flush u64
| Drop_Handle u64

primrec buf_step :: "buf_op \<Rightarrow> WriteBuffer \<Rightarrow> WriteBuffer" where
  "buf_step (Push h off data now) wb = snd (push h off data now wb)"
| "buf_step (Begin_Flush h) wb = snd (begin_flush h wb)"
| "buf_step (Ack_Flush h n) wb = ack_flush h n wb"
| "buf_step (Fail_Flush h) wb = fail_flush h wb"
| "buf_step (Drop_Handle h) wb = snd (drop_handle h wb)"

lemma entry_sum_map_of: "distinct (map fst al) \<Longrightarrow> entry_sum f (map_of al) = sum_list (map (f \<circ> snd) al)"
proof (induction al)
  case (Cons a al)
  then have "map_of al (fst a) = None" by (simp add: map_of_eq_None_iff)
  with Cons entry_sum_insert_new [of "map_of al" "fst a" f "snd a"] show ?case
    by (simp add: finite_dom_map_of fun_upd_def)
qed simp

lemma wb_ok_new: "wb_ok (write_buffer_new a b w)"
  by (simp add: wb_ok_def write_buffer_new_def)

lemma finite_per_handle: "finite (dom (map_of (wb_per_handle wb)))"
  by (rule finite_dom_map_of)

lemma hb_bytes_handle_buf:
  "entry_sum hb_bytes (map_of (wb_per_handle wb)) + hb_bytes hb =
   entry_sum hb_bytes ((map_of (wb_per_handle wb))(h \<mapsto> hb)) + hb_bytes (handle_buf wb h)"
proof (cases "map_of (wb_per_handle wb) h")
  case None
  then show ?thesis
    using entry_sum_insert_new [OF finite_per_handle None, of hb_bytes hb]
    by (simp add: handle_buf_def hb_bytes_def)
next
  case (Some hb')
  then show ?thesis
    using entry_sum_update [OF finite_per_handle Some, of hb_bytes hb] by (simp add: handle_buf_def)
qed

lemma push_wb_ok: "wb_ok wb \<Longrightarrow> wb_ok (snd (push h off data now wb))"
proof -
  assume ok: "wb_ok wb"
  let ?hb = "handle_buf wb h"
  let ?e = "?hb\<lparr>hb_chunks := hb_chunks ?hb @ [\<lparr>pw_offset = off, pw_data = data, pw_queued_at = now\<rparr>]\<rparr>"
  have "hb_bytes ?e = hb_bytes ?hb + length data" by (simp add: hb_bytes_def)
  with ok hb_bytes_handle_buf [of wb ?e h] show ?thesis
    by (auto simp: wb_ok_def push_def Let_def update_conv' distinct_update)
qed

lemma entry_sum_same_bytes:
  assumes "map_of (wb_per_handle wb) h = Some hb" and "hb_bytes hb' = hb_bytes hb"
  shows "entry_sum hb_bytes ((map_of (wb_per_handle wb))(h \<mapsto> hb')) = entry_sum hb_bytes (map_of (wb_per_handle wb))"
  using entry_sum_update [OF finite_per_handle assms(1), of hb_bytes hb'] assms(2) by simp

lemma begin_flush_wb_ok: "wb_ok wb \<Longrightarrow> wb_ok (snd (begin_flush h wb))"
  by (auto simp: wb_ok_def begin_flush_def update_conv' distinct_update entry_sum_same_bytes hb_bytes_def
      split: option.split)

lemma fail_flush_wb_ok: "wb_ok wb \<Longrightarrow> wb_ok (fail_flush h wb)"
  by (auto simp: wb_ok_def fail_flush_def update_conv' distinct_update entry_sum_same_bytes hb_bytes_def
      split: option.split)

lemma drop_handle_wb_ok: "wb_ok wb \<Longrightarrow> wb_ok (snd (drop_handle h wb))"
proof (cases "map_of (wb_per_handle wb) h")
  case (Some hb)
  moreover assume "wb_ok wb"
  ultimately show ?thesis
    using entry_sum_remove [OF finite_per_handle Some, of hb_bytes]
    by (auto simp: wb_ok_def drop_handle_def delete_conv' distinct_delete)
qed (simp add: drop_handle_def)

lemma ack_flush_wb_ok: "wb_ok wb \<Longrightarrow> wb_ok (ack_flush h n wb)"
proof (cases "map_of (wb_per_handle wb) h")
  case (Some hb)
  assume ok: "wb_ok wb"
  let ?n = "min n (length (hb_chunks hb))"
  let ?hb = "hb\<lparr>hb_chunks := drop ?n (hb_chunks hb), hb_sending := False\<rparr>"
  let ?gone = "sum_list (map (\<lambda>w. length (pw_data w)) (take ?n (hb_chunks hb)))"
  have split: "?gone + hb_bytes ?hb = hb_bytes hb"
    using sum_list_take_drop [of "\<lambda>w. length (pw_data w)" ?n "hb_chunks hb"] by (simp add: hb_bytes_def)
  show ?thesis
  proof (cases "drop ?n (hb_chunks hb) = []")
    case True
    then have "?gone = hb_bytes hb" using split by (simp add: hb_bytes_def)
    with True Some ok entry_sum_remove [OF finite_per_handle Some, of hb_bytes] show ?thesis
      by (auto simp: wb_ok_def ack_flush_def Let_def delete_conv' distinct_delete)
  next
    case False
    with Some ok split entry_sum_update [OF finite_per_handle Some, of hb_bytes ?hb] show ?thesis
      by (auto simp: wb_ok_def ack_flush_def Let_def update_conv' distinct_update)
  qed
qed (simp add: ack_flush_def)

lemmas wb_ok_steps = push_wb_ok begin_flush_wb_ok ack_flush_wb_ok fail_flush_wb_ok drop_handle_wb_ok

lemma buf_step_wb_ok: "wb_ok wb \<Longrightarrow> wb_ok (buf_step op wb)"
  by (cases op) (simp_all add: wb_ok_steps)

lemma buf_step_limit: "wb_hard_total_bytes (buf_step op wb) = wb_hard_total_bytes wb"
  by (cases op) (simp_all add: push_def begin_flush_def ack_flush_def fail_flush_def drop_handle_def Let_def
      split: option.split)

lemma buf_steps_ok: "wb_ok wb \<Longrightarrow> wb_ok (fold buf_step ops wb) \<and>
   wb_hard_total_bytes (fold buf_step ops wb) = wb_hard_total_bytes wb"
  by (induction ops arbitrary: wb) (simp_all add: buf_step_wb_ok buf_step_limit)

text \<open>C30: Memory stays bounded. Whatever sequence of pushes, flushes, acknowledgements, failures and
  discards a new buffer goes through, its byte counter is exactly the number of bytes queued over all
  handles, and that is at most twice the soft limit it was made with.\<close>

theorem write_buffer_bounded:
  "let wb = fold buf_step ops (write_buffer_new per_handle soft window)
   in total_bytes wb = sum_list (map (hb_bytes \<circ> snd) (wb_per_handle wb)) \<and> total_bytes wb \<le> 2 * soft"
proof -
  let ?wb = "fold buf_step ops (write_buffer_new per_handle soft window)"
  have ok: "wb_ok ?wb" "wb_hard_total_bytes ?wb \<le> 2 * soft"
    using buf_steps_ok [OF wb_ok_new, of ops] by (simp_all add: write_buffer_new_def saturating_mul_def)
  then have "entry_sum hb_bytes (map_of (wb_per_handle ?wb)) = sum_list (map (hb_bytes \<circ> snd) (wb_per_handle ?wb))"
    by (simp add: wb_ok_def entry_sum_map_of)
  with ok show ?thesis by (simp add: wb_ok_def total_bytes_def)
qed

section \<open>What a flush sends\<close>

text \<open>The effect of a list of writes on a file.\<close>

definition write_pairs :: "(u64 \<times> bytes) list \<Rightarrow> bytes \<Rightarrow> bytes" where
  "write_pairs ps = fold (\<lambda>(off, d). pwrite (unat off) d) ps"

definition in_range :: "u64 \<times> bytes \<Rightarrow> bool" where
  "in_range p = (unat (fst p) + length (snd p) < seek_limit)"

text \<open>No write starts below an earlier one and reaches into it.\<close>

definition reorder_safe :: "(u64 \<times> bytes) list \<Rightarrow> bool" where
  "reorder_safe = sorted_wrt (\<lambda>p q. fst q < fst p \<longrightarrow> unat (fst q) + length (snd q) \<le> unat (fst p))"

lemma write_pairs_simps [simp]:
  "write_pairs [] c = c"
  "write_pairs (p # ps) c = write_pairs ps (pwrite (unat (fst p)) (snd p) c)"
  "write_pairs (ps @ qs) c = write_pairs qs (write_pairs ps c)"
  by (simp_all add: write_pairs_def split_beta)

lemma length_pwrite: "length (pwrite off d c) = (if d = [] then length c else max (length c) (off + length d))"
  by (auto simp: pwrite_def)

lemma nth_pwrite:
  "i < length (pwrite off d c) \<Longrightarrow>
   pwrite off d c ! i = (if off \<le> i \<and> i < off + length d then d ! (i - off) else if i < length c then c ! i else 0)"
  by (auto simp: pwrite_def nth_append not_less min_def add.commute)

lemma pwrite_commute:
  assumes "off' + length d' \<le> off"
  shows "pwrite off d (pwrite off' d' c) = pwrite off' d' (pwrite off d c)"
  by (rule nth_equalityI) (use assms in \<open>auto simp: nth_pwrite length_pwrite\<close>)

lemma write_pairs_insort:
  "(\<forall>q\<in>set ps. fst q < fst p \<longrightarrow> unat (fst q) + length (snd q) \<le> unat (fst p)) \<Longrightarrow>
   write_pairs (insort_key fst p ps) c = write_pairs (p # ps) c"
  by (induction ps arbitrary: c) (auto simp: pwrite_commute not_le)

lemma write_pairs_sort: "reorder_safe ps \<Longrightarrow> write_pairs (sort_key fst ps) c = write_pairs ps c"
  by (induction ps arbitrary: c) (simp_all add: reorder_safe_def write_pairs_insort)

lemma coalesce_step_writes:
  assumes "list_all in_range merged" and "in_range p"
  shows "write_pairs (coalesce_step merged p) c = write_pairs (merged @ [p]) c \<and> list_all in_range (coalesce_step merged p)"
proof (cases "merged \<noteq> [] \<and> fst (last merged) + word_of_nat (length (snd (last merged))) = fst p")
  case True
  then obtain ini o1 d1 where m: "merged = ini @ [(o1, d1)]" by (cases merged rule: rev_cases) auto
  have "unat (o1 + word_of_nat (length d1)) = unat o1 + length d1"
    using assms(1) by (intro unat_advance [of o1 "length d1"]) (simp_all add: m in_range_def)
  then have "unat (fst p) = unat o1 + length d1" using True by (simp add: m)
  then show ?thesis
    using True assms by (simp add: m coalesce_step_def split_beta pwrite_append in_range_def)
next
  case False
  then show ?thesis using assms by (auto simp: coalesce_step_def split_beta)
qed

lemma coalesce_writes:
  "list_all in_range merged \<Longrightarrow> list_all in_range ps \<Longrightarrow>
   write_pairs (foldl coalesce_step merged ps) c = write_pairs (merged @ ps) c \<and>
   list_all in_range (foldl coalesce_step merged ps)"
proof (induction ps arbitrary: merged c)
  case (Cons p ps)
  then show ?case using coalesce_step_writes [of merged p] by simp
qed simp

lemma begin_flush_batch:
  assumes "begin_flush h wb = (Some batch, wb')"
  obtains hb where "map_of (wb_per_handle wb) h = Some hb" and "\<not> hb_sending hb" and "hb_chunks hb \<noteq> []"
    and "fb_chunks batch = foldl coalesce_step [] (sort_key fst (chunk_pairs hb))"
    and "fb_sent_count batch = length (hb_chunks hb)"
    and "wb' = wb\<lparr>wb_per_handle := AList.update h (hb\<lparr>hb_sending := True\<rparr>) (wb_per_handle wb)\<rparr>"
  using assms by (auto simp: begin_flush_def split: option.splits if_splits)

text \<open>What is queued for a handle, oldest first.\<close>

definition queued :: "WriteBuffer \<Rightarrow> u64 \<Rightarrow> (u64 \<times> bytes) list" where
  "queued wb h = chunk_pairs (handle_buf wb h)"

lemma begin_flush_writes:
  assumes "begin_flush h wb = (Some batch, wb')" and "list_all in_range (queued wb h)" and "reorder_safe (queued wb h)"
  shows "write_pairs (fb_chunks batch) c = write_pairs (queued wb h) c" "list_all in_range (fb_chunks batch)"
proof -
  obtain hb where hb: "map_of (wb_per_handle wb) h = Some hb"
      "fb_chunks batch = foldl coalesce_step [] (sort_key fst (chunk_pairs hb))"
    using assms(1) by (rule begin_flush_batch)
  then have q: "queued wb h = chunk_pairs hb" by (simp add: queued_def handle_buf_def)
  have "list_all in_range (sort_key fst (chunk_pairs hb))" using assms(2) by (simp add: q list_all_iff)
  from coalesce_writes [OF _ this, of "[]" c] assms(3)
  show "write_pairs (fb_chunks batch) c = write_pairs (queued wb h) c" "list_all in_range (fb_chunks batch)"
    by (simp_all add: hb(2) q write_pairs_sort)
qed

text \<open>C15: A flush sends what was written. If no buffered write reaches from below into an earlier one,
  then sending the sorted and merged runs of the batch one after the other leaves a file with the
  same contents as carrying out the buffered writes one by one in the order the application made
  them, whatever the file held before. (Writes at the same offset keep their order, so overwriting
  in place is covered.)\<close>

theorem flush_equals_writes:
  assumes "begin_flush h wb = (Some batch, wb')"
    and "\<forall>p\<in>set (queued wb h). unat (fst p) + length (snd p) < 2 ^ 63"
    and "reorder_safe (queued wb h)"
  shows "write_pairs (fb_chunks batch) content = write_pairs (queued wb h) content"
  by (rule begin_flush_writes(1) [OF assms(1) _ assms(3)])
    (use assms(2) in \<open>simp add: list_all_iff in_range_def seek_limit_def\<close>)

text \<open>Three writes, the last one over the first: one block of six bytes is sent.\<close>

definition three_writes :: WriteBuffer where
  "three_writes = fold buf_step [Push 7 0 [1, 2, 3] 0, Push 7 3 [4, 5, 6] 1, Push 7 0 [9] 2] (write_buffer_new 100 100 10)"

lemma three_writes_buf:
  "map_of (wb_per_handle three_writes) 7 = Some \<lparr>hb_chunks =
     [\<lparr>pw_offset = 0, pw_data = [1, 2, 3], pw_queued_at = 0\<rparr>, \<lparr>pw_offset = 3, pw_data = [4, 5, 6], pw_queued_at = 1\<rparr>,
      \<lparr>pw_offset = 0, pw_data = [9], pw_queued_at = 2\<rparr>], hb_sending = False\<rparr>"
  by (simp add: three_writes_def push_def write_buffer_new_def saturating_mul_def usize_max_def handle_buf_def Let_def)

lemma three_writes_size: "wb_total_bytes three_writes = 7" "wb_hard_total_bytes three_writes = 200"
  by (simp_all add: three_writes_def push_def write_buffer_new_def saturating_mul_def usize_max_def handle_buf_def Let_def)

lemma three_writes_queue: "queued three_writes 7 = [(0, [1, 2, 3]), (3, [4, 5, 6]), (0, [9])]"
  by (simp add: queued_def handle_buf_def chunk_pairs_def three_writes_buf)

theorem flush_equals_writes_witness:
  "\<exists>batch wb'. begin_flush 7 three_writes = (Some batch, wb') \<and>
     write_pairs (fb_chunks batch) [] = [9, 2, 3, 4, 5, 6]"
proof -
  let ?q = "queued three_writes 7"
  note q = three_writes_queue
  have "fst (begin_flush 7 three_writes) \<noteq> None" by (simp add: begin_flush_def three_writes_buf)
  then obtain batch wb' where b: "begin_flush 7 three_writes = (Some batch, wb')"
    by (cases "begin_flush 7 three_writes") auto
  have "\<forall>p\<in>set ?q. unat (fst p) + length (snd p) < 2 ^ 63" by (simp add: q)
  moreover have "reorder_safe ?q" by (simp add: q reorder_safe_def)
  ultimately have "write_pairs (fb_chunks batch) [] = write_pairs ?q []" using b flush_equals_writes by blast
  also have "\<dots> = [9, 2, 3, 4, 5, 6]" by (simp add: q pwrite_def)
  finally show ?thesis using b by blast
qed

text \<open>C39: Overlapping writes can come out in the wrong order. When the application writes a block and then
  a second one that starts below the first and reaches into it, the flush sends the second block
  first: at the offset of the first block the file then holds the older byte, although carrying out
  the writes in order would leave the newer one there.\<close>

theorem flush_reorders_overlap:
  assumes "begin_flush h wb = (Some batch, wb')" and "queued wb h = [(off, d), (off', d')]"
    and "off' < off" and "unat off < unat off' + length d'" and "d \<noteq> []"
    and "unat off + length d < 2 ^ 63" and "unat off' + length d' < 2 ^ 63"
  shows "write_pairs (fb_chunks batch) content ! unat off = hd d \<and>
    write_pairs (queued wb h) content ! unat off = d' ! (unat off - unat off')"
proof -
  obtain hb where hb: "map_of (wb_per_handle wb) h = Some hb"
      "fb_chunks batch = foldl coalesce_step [] (sort_key fst (chunk_pairs hb))"
    using assms(1) by (rule begin_flush_batch)
  then have q: "chunk_pairs hb = [(off, d), (off', d')]" using assms(2) by (simp add: queued_def handle_buf_def)
  have "unat (off' + word_of_nat (length d')) = unat off' + length d'"
    using assms(7) by (intro unat_advance [of off' "length d'"]) (simp_all add: seek_limit_def)
  then have "off' + word_of_nat (length d') \<noteq> off" using assms(4) by auto
  moreover have "\<not> off \<le> off'" using assms(3) by (simp add: not_le)
  ultimately have "fb_chunks batch = [(off', d'), (off, d)]" by (simp add: hb(2) q coalesce_step_def)
  moreover have "unat off' < unat off" using assms(3) by (simp add: word_less_nat_alt)
  ultimately show ?thesis
    using assms(2,4,5) by (cases "d' = []") (simp_all add: nth_pwrite length_pwrite hd_conv_nth)
qed

definition overlapping :: WriteBuffer where
  "overlapping = fold buf_step [Push 7 1 [10, 11] 0, Push 7 0 [20, 21] 1] (write_buffer_new 100 100 10)"

theorem flush_reorders_overlap_witness:
  "\<exists>batch wb'. begin_flush 7 overlapping = (Some batch, wb') \<and>
     write_pairs (fb_chunks batch) [] ! 1 = 10 \<and> write_pairs (queued overlapping 7) [] ! 1 = 21"
proof -
  have wb: "map_of (wb_per_handle overlapping) 7 = Some \<lparr>hb_chunks =
      [\<lparr>pw_offset = 1, pw_data = [10, 11], pw_queued_at = 0\<rparr>, \<lparr>pw_offset = 0, pw_data = [20, 21], pw_queued_at = 1\<rparr>],
      hb_sending = False\<rparr>"
    by (simp add: overlapping_def push_def write_buffer_new_def saturating_mul_def usize_max_def handle_buf_def Let_def)
  then have q: "queued overlapping 7 = [(1, [10, 11]), (0, [20, 21])]"
    by (simp add: queued_def handle_buf_def chunk_pairs_def)
  obtain batch wb' where "begin_flush 7 overlapping = (Some batch, wb')" by (simp add: begin_flush_def wb)
  with flush_reorders_overlap [OF this q, of "[]"] show ?thesis by (auto simp: q)
qed

section \<open>Kept until acknowledged\<close>

text \<open>The queue of a handle as the operations change it.\<close>

lemma handle_buf_push:
  "handle_buf (snd (push h off data now wb)) k =
     (if k = h \<and> fst (push h off data now wb) \<noteq> Reject
      then (handle_buf wb h)\<lparr>hb_chunks := hb_chunks (handle_buf wb h) @
              [\<lparr>pw_offset = off, pw_data = data, pw_queued_at = now\<rparr>]\<rparr>
      else handle_buf wb k)"
  by (simp add: push_def Let_def handle_buf_def [of "_\<lparr>wb_per_handle := _, wb_total_bytes := _\<rparr>"] update_conv')
    (simp add: handle_buf_def)

lemma handle_buf_begin:
  assumes "begin_flush h wb = (Some batch, wb')"
  shows "handle_buf wb' k = (if k = h then (handle_buf wb h)\<lparr>hb_sending := True\<rparr> else handle_buf wb k)"
    and "fb_sent_count batch = length (hb_chunks (handle_buf wb h))" and "hb_chunks (handle_buf wb h) \<noteq> []"
  using assms by (auto simp: handle_buf_def update_conv' elim: begin_flush_batch)

lemma handle_buf_ack:
  "handle_buf (ack_flush h n wb) k =
     (if k = h then (handle_buf wb h)\<lparr>hb_chunks := drop n (hb_chunks (handle_buf wb h)), hb_sending := False\<rparr>
      else handle_buf wb k)"
proof (cases "map_of (wb_per_handle wb) h")
  case (Some hb)
  then show ?thesis
    by (simp add: ack_flush_def handle_buf_def Let_def update_conv' delete_conv' min_def)
qed (simp add: ack_flush_def handle_buf_def)

lemma handle_buf_fail:
  "handle_buf (fail_flush h wb) k = (if k = h then (handle_buf wb h)\<lparr>hb_sending := False\<rparr> else handle_buf wb k)"
  by (cases "map_of (wb_per_handle wb) h") (simp_all add: fail_flush_def handle_buf_def update_conv')

lemma handle_buf_drop:
  "handle_buf (snd (drop_handle h wb)) k = (if k = h then \<lparr>hb_chunks = [], hb_sending = False\<rparr> else handle_buf wb k)"
  by (cases "map_of (wb_per_handle wb) h") (simp_all add: drop_handle_def handle_buf_def delete_conv')

lemma begin_flush_None_iff:
  "fst (begin_flush h wb) = None \<longleftrightarrow> hb_sending (handle_buf wb h) \<or> hb_chunks (handle_buf wb h) = []"
  by (auto simp: begin_flush_def handle_buf_def split: option.split)

lemma has_buffered_queued: "has_buffered wb h \<longleftrightarrow> queued wb h \<noteq> []"
  by (simp add: has_buffered_def queued_def chunk_pairs_def handle_buf_def split: option.split)

text \<open>Any number of pushes, and the writes that were accepted.\<close>

primrec push_all :: "(u64 \<times> u64 \<times> bytes \<times> nat) list \<Rightarrow> WriteBuffer \<Rightarrow> (u64 \<times> u64 \<times> bytes) list \<times> WriteBuffer" where
  "push_all [] wb = ([], wb)"
| "push_all (p # ps) wb =
     (case p of
        (h, off, data, now) \<Rightarrow>
          (case push h off data now wb of
             (d, wb1) \<Rightarrow>
               (case push_all ps wb1 of
                  (acc, wb2) \<Rightarrow> ((if d = Reject then [] else [(h, off, data)]) @ acc, wb2))))"

definition of_handle :: "u64 \<Rightarrow> (u64 \<times> u64 \<times> bytes) list \<Rightarrow> (u64 \<times> bytes) list" where
  "of_handle h acc = map snd (filter (\<lambda>x. fst x = h) acc)"

lemma push_all_queue:
  "push_all ps wb = (acc, wb') \<Longrightarrow> queued wb' k = queued wb k @ of_handle k acc \<and>
     hb_sending (handle_buf wb' k) = hb_sending (handle_buf wb k)"
proof (induction ps arbitrary: wb acc)
  case (Cons p ps)
  obtain h off data now where p: "p = (h, off, data, now)" by (cases p)
  obtain d wb1 where d: "push h off data now wb = (d, wb1)" by fastforce
  obtain acc2 where rest: "push_all ps wb1 = (acc2, wb')" "acc = (if d = Reject then [] else [(h, off, data)]) @ acc2"
    using Cons.prems by (auto simp: p d split: prod.splits)
  have "handle_buf wb1 k = (if k = h \<and> d \<noteq> Reject
      then (handle_buf wb h)\<lparr>hb_chunks := hb_chunks (handle_buf wb h) @ [\<lparr>pw_offset = off, pw_data = data, pw_queued_at = now\<rparr>]\<rparr>
      else handle_buf wb k)"
    using handle_buf_push [of h off data now wb k] by (simp add: d)
  with Cons.IH [OF rest(1)] show ?case by (auto simp: rest(2) queued_def chunk_pairs_def of_handle_def)
qed (simp add: of_handle_def)

text \<open>C14: Nothing is forgotten before it is acknowledged. While a batch of a handle is under way no second
  batch of it can start, and the application may go on writing to any handle. If the server
  acknowledges the batch, exactly the writes of the batch leave the queue and those accepted meanwhile
  stay, in order; if it fails, every write is still queued, in order, for the next attempt. The queues
  of the other handles only grow.\<close>

theorem kept_until_acknowledged:
  assumes "begin_flush h wb = (Some batch, wb1)" and "push_all ps wb1 = (acc, wb2)"
  shows "fst (begin_flush h wb2) = None \<and>
    queued (ack_flush h (fb_sent_count batch) wb2) k = (if k = h then [] else queued wb k) @ of_handle k acc \<and>
    queued (fail_flush h wb2) k = queued wb k @ of_handle k acc"
proof -
  note b = handle_buf_begin [OF assms(1)]
  have q1: "queued wb1 k = queued wb k" for k by (simp add: queued_def b(1) chunk_pairs_def)
  have q2: "queued wb2 k = queued wb k @ of_handle k acc" "hb_sending (handle_buf wb2 k) = hb_sending (handle_buf wb1 k)" for k
    using push_all_queue [OF assms(2), of k] by (simp_all add: q1)
  have "length (hb_chunks (handle_buf wb h)) = length (queued wb h)" by (simp add: queued_def chunk_pairs_def)
  then have "queued (ack_flush h (fb_sent_count batch) wb2) k =
      (if k = h then drop (length (queued wb h)) (queued wb2 h) else queued wb2 k)"
    by (simp add: queued_def handle_buf_ack b(2) chunk_pairs_def drop_map)
  moreover have "queued (fail_flush h wb2) k = queued wb2 k"
    by (simp add: queued_def handle_buf_fail chunk_pairs_def)
  moreover have "fst (begin_flush h wb2) = None" by (simp add: begin_flush_None_iff q2(2) b(1))
  ultimately show ?thesis by (simp add: q2(1))
qed

theorem kept_until_acknowledged_witness:
  "\<exists>batch wb1 wb2. begin_flush 7 three_writes = (Some batch, wb1) \<and>
     push_all [(7, 6, [8], 5), (9, 0, [1], 6)] wb1 = ([(7, 6, [8]), (9, 0, [1])], wb2) \<and>
     queued (ack_flush 7 (fb_sent_count batch) wb2) 7 = [(6, [8])] \<and>
     queued (fail_flush 7 wb2) 7 = [(0, [1, 2, 3]), (3, [4, 5, 6]), (0, [9]), (6, [8])]"
proof -
  obtain batch wb1 where b: "begin_flush 7 three_writes = (Some batch, wb1)"
    by (simp add: begin_flush_def three_writes_buf)
  have "wb_total_bytes wb1 = 7 \<and> wb_hard_total_bytes wb1 = 200"
    using b three_writes_size by (auto simp: begin_flush_def three_writes_buf)
  then have small: "wb_total_bytes wb1 = 7" "wb_hard_total_bytes wb1 = 200" by simp_all
  obtain wb2 where p: "push_all [(7, 6, [8], 5), (9, 0, [1], 6)] wb1 = ([(7, 6, [8]), (9, 0, [1])], wb2)"
    by (simp add: push_def small Let_def)
  from kept_until_acknowledged [OF b p, of 7] b p show ?thesis
    by (auto simp: of_handle_def three_writes_queue)
qed

text \<open>C40: A discard during a flush loses the next write. If the queue of a handle is discarded while a batch
  of it is under way (as happens to an appending handle after a reconnection) and the application
  writes again, the acknowledgement of the old batch removes the new write: it was accepted, it was in
  no batch, and it is not queued any more.\<close>

theorem ack_after_drop:
  assumes "begin_flush h wb = (Some batch, wb1)"
    and "push h off data now (snd (drop_handle h wb1)) = (decision, wb2)" and "decision \<noteq> Reject"
  shows "queued wb2 h = [(off, data)] \<and> queued (ack_flush h (fb_sent_count batch) wb2) h = []"
proof -
  have chunks: "hb_chunks (handle_buf wb2 h) = [\<lparr>pw_offset = off, pw_data = data, pw_queued_at = now\<rparr>]"
    using handle_buf_push [of h off data now "snd (drop_handle h wb1)" h] assms(2,3) by (simp add: handle_buf_drop)
  have "fb_sent_count batch \<noteq> 0" using handle_buf_begin(2,3) [OF assms(1)] by simp
  then obtain n where "fb_sent_count batch = Suc n" by (cases "fb_sent_count batch") simp_all
  then show ?thesis by (simp add: queued_def handle_buf_ack chunks chunk_pairs_def)
qed

theorem ack_after_drop_witness:
  "\<exists>batch wb1. begin_flush 7 three_writes = (Some batch, wb1) \<and>
     queued (ack_flush 7 (fb_sent_count batch) (snd (push 7 6 [8] 5 (snd (drop_handle 7 wb1))))) 7 = []"
proof -
  obtain batch wb1 where b: "begin_flush 7 three_writes = (Some batch, wb1)"
    by (simp add: begin_flush_def three_writes_buf)
  have "wb_total_bytes (snd (drop_handle 7 wb1)) \<le> 7 \<and> wb_hard_total_bytes (snd (drop_handle 7 wb1)) = 200"
    using b three_writes_size by (auto simp: begin_flush_def drop_handle_def three_writes_buf update_conv')
  then have "fst (push 7 6 [8] 5 (snd (drop_handle 7 wb1))) \<noteq> Reject" by (simp add: push_def Let_def)
  with ack_after_drop [OF b, of 6 "[8]" 5] b show ?thesis by (metis prod.collapse)
qed

end
