(* ===== verification/Meta_Cache.thy ===== *)
theory Meta_Cache
  imports Frames Rust_Path Rust_Utf8 "HOL-Library.AList"
begin

text \<open>
  The client's metadata cache (\<open>client/src/cache.rs\<close>). The \<open>lru\<close> crate is a parameter: the record
  \<open>lru\<close> has one field per call, and \<open>lru_ok\<close> states what the crate documents. Times are in
  nanoseconds; the current one is an argument \<open>now\<close>.
\<close>

section \<open>The cache and its operations\<close>

record CacheConfig =
  cc_max_entries :: nat
  cc_pos_ttl :: nat
  cc_neg_ttl :: nat
  cc_dir_ttl :: nat

definition cache_config_default :: CacheConfig where
  "cache_config_default = \<lparr>cc_max_entries = 8192, cc_pos_ttl = 2000 * 1000000, cc_neg_ttl = 500 * 1000000,
     cc_dir_ttl = 1000 * 1000000\<rparr>"

datatype Entry = Found Stat nat | NotFound nat

record 'l lru =
  lru_new :: "nat \<Rightarrow> 'l"
  lru_peek :: "string \<Rightarrow> 'l \<Rightarrow> Entry option"
  lru_get :: "string \<Rightarrow> 'l \<Rightarrow> Entry option \<times> 'l"
  lru_put :: "string \<Rightarrow> Entry \<Rightarrow> 'l \<Rightarrow> 'l"
  lru_pop :: "string \<Rightarrow> 'l \<Rightarrow> 'l"
  lru_clear :: "'l \<Rightarrow> 'l"

record 'l MetaCache =
  mca_lru :: 'l
  mca_cfg :: CacheConfig

definition meta_cache_new :: "'l lru \<Rightarrow> CacheConfig \<Rightarrow> 'l MetaCache" where
  "meta_cache_new lr cfg =
     \<lparr>mca_lru = lru_new lr (if cc_max_entries cfg = 0 then 8192 else cc_max_entries cfg), mca_cfg = cfg\<rparr>"

definition cache_get :: "'l lru \<Rightarrow> nat \<Rightarrow> string \<Rightarrow> 'l MetaCache \<Rightarrow> (unit + Stat) option \<times> 'l MetaCache" where
  "cache_get lr now path mc =
     (case lru_peek lr path (mca_lru mc) of
        None \<Rightarrow> (None, mc)
      | Some entry \<Rightarrow>
          let expired = (case entry of Found _ expires \<Rightarrow> now \<ge> expires | NotFound expires \<Rightarrow> now \<ge> expires)
          in if expired then (None, mc\<lparr>mca_lru := lru_pop lr path (mca_lru mc)\<rparr>)
             else case lru_get lr path (mca_lru mc) of
                    (r, l) \<Rightarrow> (case r of Some (Found stat _) \<Rightarrow> Some (Inr stat) | Some (NotFound _) \<Rightarrow> Some (Inl ())
                                | None \<Rightarrow> None, mc\<lparr>mca_lru := l\<rparr>))"

definition cache_insert :: "'l lru \<Rightarrow> nat \<Rightarrow> string \<Rightarrow> Stat \<Rightarrow> bool \<Rightarrow> 'l MetaCache \<Rightarrow> 'l MetaCache" where
  "cache_insert lr now path stat is_dir mc =
     (let ttl = (if is_dir then cc_dir_ttl (mca_cfg mc) else cc_pos_ttl (mca_cfg mc))
      in mc\<lparr>mca_lru := lru_put lr path (Found stat (now + ttl)) (mca_lru mc)\<rparr>)"

definition cache_insert_negative :: "'l lru \<Rightarrow> nat \<Rightarrow> string \<Rightarrow> 'l MetaCache \<Rightarrow> 'l MetaCache" where
  "cache_insert_negative lr now path mc =
     mc\<lparr>mca_lru := lru_put lr path (NotFound (now + cc_neg_ttl (mca_cfg mc))) (mca_lru mc)\<rparr>"

definition cache_invalidate :: "'l lru \<Rightarrow> string \<Rightarrow> 'l MetaCache \<Rightarrow> 'l MetaCache" where
  "cache_invalidate lr path mc =
     (let l = lru_pop lr path (mca_lru mc)
      in mc\<lparr>mca_lru := (case path_parent path of
           Some parent \<Rightarrow> lru_pop lr (to_string_lossy parent) l | None \<Rightarrow> l)\<rparr>)"

definition cache_clear :: "'l lru \<Rightarrow> 'l MetaCache \<Rightarrow> 'l MetaCache" where
  "cache_clear lr mc = mc\<lparr>mca_lru := lru_clear lr (mca_lru mc)\<rparr>"

section \<open>What the crate promises\<close>

text \<open>A map that may forget other entries when one is put.\<close>

definition lru_ok :: "'l lru \<Rightarrow> bool" where
  "lru_ok lr =
     ((\<forall>n k. lru_peek lr k (lru_new lr n) = None) \<and>
      (\<forall>k l. fst (lru_get lr k l) = lru_peek lr k l) \<and>
      (\<forall>k j l. lru_peek lr j (snd (lru_get lr k l)) = lru_peek lr j l) \<and>
      (\<forall>k v l. lru_peek lr k (lru_put lr k v l) = Some v) \<and>
      (\<forall>k j v l. j \<noteq> k \<longrightarrow> lru_peek lr j (lru_put lr k v l) \<in> {lru_peek lr j l, None}) \<and>
      (\<forall>k j l. lru_peek lr j (lru_pop lr k l) = (if j = k then None else lru_peek lr j l)) \<and>
      (\<forall>k l. lru_peek lr k (lru_clear lr l) = None))"

lemma lru_okD:
  assumes "lru_ok lr"
  shows "lru_peek lr k (lru_new lr n) = None" "fst (lru_get lr k l) = lru_peek lr k l"
    "lru_peek lr j (snd (lru_get lr k l)) = lru_peek lr j l" "lru_peek lr k (lru_put lr k v l) = Some v"
    "j \<noteq> k \<Longrightarrow> lru_peek lr j (lru_put lr k v l) = lru_peek lr j l \<or> lru_peek lr j (lru_put lr k v l) = None"
    "lru_peek lr j (lru_pop lr k l) = (if j = k then None else lru_peek lr j l)"
    "lru_peek lr k (lru_clear lr l) = None"
  using assms by (simp_all add: lru_ok_def)

section \<open>The cache is a lossy map with expiry times\<close>

datatype cache_op =
  Get nat string
| Insert nat string Stat bool
| Insert_Negative nat string
| Invalidate string
| Clear

primrec cache_step :: "'l lru \<Rightarrow> cache_op \<Rightarrow> 'l MetaCache \<Rightarrow> 'l MetaCache" where
  "cache_step lr (Get now p) mc = snd (cache_get lr now p mc)"
| "cache_step lr (Insert now p st d) mc = cache_insert lr now p st d mc"
| "cache_step lr (Insert_Negative now p) mc = cache_insert_negative lr now p mc"
| "cache_step lr (Invalidate p) mc = cache_invalidate lr p mc"
| "cache_step lr Clear mc = cache_clear lr mc"

text \<open>The specification: the last answer recorded for a path and when it expires. Nothing is ever
  evicted here, and looking a path up changes nothing.\<close>

type_synonym answers = "string \<rightharpoonup> (unit + Stat) \<times> nat"

primrec answer_step :: "CacheConfig \<Rightarrow> cache_op \<Rightarrow> answers \<Rightarrow> answers" where
  "answer_step cfg (Get now p) m = m"
| "answer_step cfg (Insert now p st d) m =
     m(p \<mapsto> (Inr st, now + (if d then cc_dir_ttl cfg else cc_pos_ttl cfg)))"
| "answer_step cfg (Insert_Negative now p) m = m(p \<mapsto> (Inl (), now + cc_neg_ttl cfg))"
| "answer_step cfg (Invalidate p) m =
     (case path_parent p of Some q \<Rightarrow> m(p := None, to_string_lossy q := None) | None \<Rightarrow> m(p := None))"
| "answer_step cfg Clear m = Map.empty"

primrec entry_answer :: "Entry \<Rightarrow> (unit + Stat) \<times> nat" where
  "entry_answer (Found st t) = (Inr st, t)"
| "entry_answer (NotFound t) = (Inl (), t)"

definition cache_refines :: "'l lru \<Rightarrow> 'l MetaCache \<Rightarrow> answers \<Rightarrow> bool" where
  "cache_refines lr mc m =
     (\<forall>p e. lru_peek lr p (mca_lru mc) = Some e \<longrightarrow> m p = Some (entry_answer e))"

lemma cache_refinesI:
  "(\<And>p e. lru_peek lr p (mca_lru mc) = Some e \<Longrightarrow> m p = Some (entry_answer e)) \<Longrightarrow> cache_refines lr mc m"
  by (simp add: cache_refines_def)

lemma cache_refinesD: "cache_refines lr mc m \<Longrightarrow> lru_peek lr p (mca_lru mc) = Some e \<Longrightarrow> m p = Some (entry_answer e)"
  by (simp add: cache_refines_def)

lemma cache_get_peek:
  assumes "lru_ok lr"
  shows "lru_peek lr j (mca_lru (snd (cache_get lr now p mc))) \<in> {lru_peek lr j (mca_lru mc), None}"
    and "mca_cfg (snd (cache_get lr now p mc)) = mca_cfg mc"
proof -
  obtain r l where get: "lru_get lr p (mca_lru mc) = (r, l)" by fastforce
  then have "lru_peek lr j l = lru_peek lr j (mca_lru mc)"
    using lru_okD(3) [OF assms, where j = j and k = p and l = "mca_lru mc"] by simp
  then show "lru_peek lr j (mca_lru (snd (cache_get lr now p mc))) \<in> {lru_peek lr j (mca_lru mc), None}"
    by (cases "lru_peek lr p (mca_lru mc)") (simp_all add: cache_get_def Let_def lru_okD(6) [OF assms] get)
  show "mca_cfg (snd (cache_get lr now p mc)) = mca_cfg mc"
    by (simp add: cache_get_def Let_def split: option.split prod.split)
qed

lemma put_refines:
  assumes "lru_ok lr" and "cache_refines lr mc m"
  shows "cache_refines lr (mc\<lparr>mca_lru := lru_put lr p e (mca_lru mc)\<rparr>) (m(p \<mapsto> entry_answer e))"
proof (rule cache_refinesI)
  fix q e'
  assume peek: "lru_peek lr q (mca_lru (mc\<lparr>mca_lru := lru_put lr p e (mca_lru mc)\<rparr>)) = Some e'"
  show "(m(p \<mapsto> entry_answer e)) q = Some (entry_answer e')"
  proof (cases "q = p")
    case True
    with peek show ?thesis by (simp add: lru_okD(4) [OF assms(1)])
  next
    case False
    with peek lru_okD(5) [OF assms(1) False, where v = e and l = "mca_lru mc"] have "lru_peek lr q (mca_lru mc) = Some e'" by auto
    with False assms(2) show ?thesis by (simp add: cache_refines_def)
  qed
qed

lemma cache_step_refines:
  assumes "lru_ok lr" and "cache_refines lr mc m"
  shows "cache_refines lr (cache_step lr op mc) (answer_step (mca_cfg mc) op m) \<and>
    mca_cfg (cache_step lr op mc) = mca_cfg mc"
proof (cases op)
  case (Get now p)
  have "lru_peek lr j (mca_lru mc) = Some e" if "lru_peek lr j (mca_lru (snd (cache_get lr now p mc))) = Some e" for j e
    using cache_get_peek(1) [OF assms(1), where now = now and p = p and mc = mc and j = j] that by simp
  with Get assms(2) cache_get_peek(2) [OF assms(1), where now = now and p = p and mc = mc] show ?thesis
    by (simp add: cache_refines_def)
next
  case (Insert now p st d)
  then show ?thesis
    using put_refines [OF assms, of p "Found st (now + (if d then cc_dir_ttl (mca_cfg mc) else cc_pos_ttl (mca_cfg mc)))"]
    by (simp add: cache_insert_def Let_def)
next
  case (Insert_Negative now p)
  then show ?thesis
    using put_refines [OF assms, of p "NotFound (now + cc_neg_ttl (mca_cfg mc))"]
    by (simp add: cache_insert_negative_def)
next
  case (Invalidate p)
  then show ?thesis
    using assms(2)
    by (auto simp: cache_refines_def cache_invalidate_def Let_def lru_okD(6) [OF assms(1)] split: option.split if_splits)
next
  case Clear
  then show ?thesis by (simp add: cache_refines_def cache_clear_def lru_okD(7) [OF assms(1)])
qed

lemma cache_steps_refine:
  "lru_ok lr \<Longrightarrow> cache_refines lr mc m \<Longrightarrow>
   cache_refines lr (fold (cache_step lr) ops mc) (fold (answer_step (mca_cfg mc)) ops m) \<and>
   mca_cfg (fold (cache_step lr) ops mc) = mca_cfg mc"
proof (induction ops arbitrary: mc m)
  case (Cons op ops)
  note step = cache_step_refines [OF Cons.prems, of op]
  from Cons.IH [OF Cons.prems(1) step [THEN conjunct1]] step show ?case by simp
qed simp

lemma cache_get_hit:
  assumes "lru_ok lr"
  shows "fst (cache_get lr now p mc) = Some r \<longleftrightarrow>
    (\<exists>e. lru_peek lr p (mca_lru mc) = Some e \<and> fst (entry_answer e) = r \<and> now < snd (entry_answer e))"
proof (cases "lru_peek lr p (mca_lru mc)")
  case (Some e)
  obtain l where "lru_get lr p (mca_lru mc) = (Some e, l)"
    using lru_okD(2) [OF assms, where k = p] Some by (metis prod.collapse)
  with Some show ?thesis by (cases e) (auto simp: cache_get_def Let_def)
qed (simp add: cache_get_def)

lemma cache_get_insert:
  assumes "lru_ok lr"
  shows "fst (cache_get lr now p (cache_insert lr t p st d mc)) =
    (if now < t + (if d then cc_dir_ttl (mca_cfg mc) else cc_pos_ttl (mca_cfg mc)) then Some (Inr st) else None)"
proof -
  let ?ttl = "if d then cc_dir_ttl (mca_cfg mc) else cc_pos_ttl (mca_cfg mc)"
  let ?mc = "cache_insert lr t p st d mc"
  have "lru_peek lr p (mca_lru ?mc) = Some (Found st (t + ?ttl))"
    by (simp add: cache_insert_def Let_def lru_okD(4) [OF assms])
  then have hit: "fst (cache_get lr now p ?mc) = Some r \<longleftrightarrow> r = Inr st \<and> now < t + ?ttl" for r
    unfolding cache_get_hit [OF assms] by auto
  show ?thesis
  proof (cases "now < t + ?ttl")
    case True
    with hit [of "Inr st"] show ?thesis by simp
  next
    case False
    then have "fst (cache_get lr now p ?mc) \<noteq> Some r" for r using hit [of r] by simp
    with False show ?thesis by (cases "fst (cache_get lr now p ?mc)") auto
  qed
qed

text \<open>C21: The cache answers only what it was told, and not for too long. After any sequence of calls on a
  new cache, an answer for a path is the last one recorded for it since the path, one of its children
  or the whole cache was last invalidated, and it is given only before its time to live has run out.
  An answer that has just been recorded is given until then.\<close>

theorem cache_never_stale:
  assumes "lru_ok lr"
  shows "(case fst (cache_get lr now p (fold (cache_step lr) ops (meta_cache_new lr cfg))) of
      None \<Rightarrow> True
    | Some r \<Rightarrow> \<exists>expires. fold (answer_step cfg) ops Map.empty p = Some (r, expires) \<and> now < expires) \<and>
    fst (cache_get lr now p (cache_insert lr t p st d (fold (cache_step lr) ops (meta_cache_new lr cfg)))) =
      (if now < t + (if d then cc_dir_ttl cfg else cc_pos_ttl cfg) then Some (Inr st) else None)"
proof -
  let ?mc = "fold (cache_step lr) ops (meta_cache_new lr cfg)"
  have "cache_refines lr (meta_cache_new lr cfg) Map.empty"
    by (simp add: cache_refines_def meta_cache_new_def lru_okD(1) [OF assms])
  from cache_steps_refine [OF assms this, of ops]
  have ref: "cache_refines lr ?mc (fold (answer_step cfg) ops Map.empty)" and cfg: "mca_cfg ?mc = cfg"
    by (simp_all add: meta_cache_new_def)
  have "\<exists>expires. fold (answer_step cfg) ops Map.empty p = Some (r, expires) \<and> now < expires"
    if hit: "fst (cache_get lr now p ?mc) = Some r" for r
  proof -
    obtain e where "lru_peek lr p (mca_lru ?mc) = Some e" "fst (entry_answer e) = r" "now < snd (entry_answer e)"
      using hit unfolding cache_get_hit [OF assms] by blast
    with cache_refinesD [OF ref, of p e] show ?thesis by (intro exI [of _ "snd (entry_answer e)"]) auto
  qed
  moreover have "fst (cache_get lr now p (cache_insert lr t p st d ?mc)) =
      (if now < t + (if d then cc_dir_ttl cfg else cc_pos_ttl cfg) then Some (Inr st) else None)"
    by (rule cache_get_insert [OF assms, of now p t st d ?mc, unfolded cfg])
  ultimately show ?thesis by (simp split: option.split)
qed

text \<open>A list with the most recent entry first is such a cache.\<close>

definition list_lru :: "(nat \<times> (string \<times> Entry) list) lru" where
  "list_lru =
     \<lparr>lru_new = (\<lambda>n. (n, [])),
      lru_peek = (\<lambda>k l. map_of (snd l) k),
      lru_get = (\<lambda>k l. case map_of (snd l) k of None \<Rightarrow> (None, l)
                   | Some v \<Rightarrow> (Some v, (fst l, (k, v) # AList.delete k (snd l)))),
      lru_put = (\<lambda>k v l. (fst l, (k, v) # take (fst l - 1) (AList.delete k (snd l)))),
      lru_pop = (\<lambda>k l. (fst l, AList.delete k (snd l))),
      lru_clear = (\<lambda>l. (fst l, []))\<rparr>"

lemma map_of_take: "map_of (take n al) k \<in> {map_of al k, None}"
proof (induction al arbitrary: n)
  case (Cons a al)
  then show ?case by (cases n) auto
qed simp

lemma lru_ok_list: "lru_ok list_lru"
proof -
  have "map_of (take n (AList.delete k al)) j \<in> {map_of al j, None}" if "j \<noteq> k" for n k j and al :: "(string \<times> Entry) list"
    using map_of_take [of n "AList.delete k al" j] that by (simp add: delete_conv')
  then show ?thesis
    by (auto simp: lru_ok_def list_lru_def delete_conv' split: option.split)
qed

theorem cache_never_stale_witness:
  "fst (cache_get list_lru 5 ''/a'' (cache_insert list_lru 3 ''/a''
     \<lparr>st_ino = 9, st_mode = 0x81A4, st_nlink = 1, st_uid = 0, st_gid = 0, st_size = 4, st_atime = 0, st_mtime = 0,
      st_ctime = 0, st_blksz = 4096, st_blocks = 8\<rparr> False
     (fold (cache_step list_lru) [Insert_Negative 1 ''/a''] (meta_cache_new list_lru cache_config_default)))) \<noteq> None"
  using cache_never_stale [OF lru_ok_list, where now = 5 and p = "''/a''" and t = 3 and d = False
      and ops = "[Insert_Negative 1 ''/a'']" and cfg = cache_config_default]
  by (simp add: cache_config_default_def)

end
