(* ===== verification/Inodes.thy ===== *)
theory Inodes
  imports Rust_Path Rust_Utf8 Prelude
begin

text \<open>
  The client's inode table (\<open>InodeTable\<close> of \<open>client/src/fuse_ops.rs\<close>): the numbers the kernel knows
  files by, and the remote paths behind them. A \<open>PathBuf\<close> as the key of a hash map stands for its
  components, which is what its equality compares.
\<close>

section \<open>The table and its operations\<close>

definition ROOT_INO :: u64 where "ROOT_INO = 1"

record InodeTable =
  it_ino_to_path :: "u64 \<rightharpoonup> string"
  it_path_to_ino :: "component list \<rightharpoonup> u64"
  it_next :: u64

definition normalize_root :: "string \<Rightarrow> string" where
  "normalize_root root =
     (let r = trim_str root;
          r = (if r = [] then ''/'' else r);
          with_lead = (if starts_with ''/'' r then r else CHR ''/'' # r);
          trimmed = trim_end_matches (CHR ''/'') with_lead
      in if trimmed = [] then ''/'' else trimmed)"

definition inode_table_new :: "string \<Rightarrow> InodeTable" where
  "inode_table_new root =
     (let r = normalize_root root
      in \<lparr>it_ino_to_path = [ROOT_INO \<mapsto> r], it_path_to_ino = [components r \<mapsto> ROOT_INO], it_next = ROOT_INO + 1\<rparr>)"

definition get_or_alloc :: "string \<Rightarrow> InodeTable \<Rightarrow> u64 \<times> InodeTable" where
  "get_or_alloc path t =
     (case it_path_to_ino t (components path) of
        Some ino \<Rightarrow> (ino, t)
      | None \<Rightarrow>
          (it_next t,
           t\<lparr>it_next := it_next t + 1,
             it_ino_to_path := (it_ino_to_path t)(it_next t \<mapsto> path),
             it_path_to_ino := (it_path_to_ino t)(components path \<mapsto> it_next t)\<rparr>))"

definition path_of :: "u64 \<Rightarrow> InodeTable \<Rightarrow> string option" where
  "path_of ino t = it_ino_to_path t ino"

definition remove_path :: "string \<Rightarrow> InodeTable \<Rightarrow> InodeTable" where
  "remove_path path t =
     (case it_path_to_ino t (components path) of
        None \<Rightarrow> t
      | Some ino \<Rightarrow>
          t\<lparr>it_path_to_ino := (it_path_to_ino t)(components path := None),
            it_ino_to_path := (it_ino_to_path t)(ino := None)\<rparr>)"

definition rename_ino :: "string \<Rightarrow> string \<Rightarrow> InodeTable \<Rightarrow> InodeTable" where
  "rename_ino old new t =
     (case it_path_to_ino t (components old) of
        None \<Rightarrow> t
      | Some ino \<Rightarrow>
          t\<lparr>it_ino_to_path := (it_ino_to_path t)(ino \<mapsto> new),
            it_path_to_ino := (it_path_to_ino t)(components old := None, components new \<mapsto> ino)\<rparr>)"

section \<open>Consistency\<close>

text \<open>The number of a path leads back to the path, and every number in use has been handed out.\<close>

definition inodes_ok :: "InodeTable \<Rightarrow> bool" where
  "inodes_ok t =
     ((\<forall>k ino. it_path_to_ino t k = Some ino \<longrightarrow> (\<exists>p. it_ino_to_path t ino = Some p \<and> components p = k)) \<and>
      (\<forall>ino. it_ino_to_path t ino \<noteq> None \<longrightarrow> ino < it_next t))"

datatype inode_op = Alloc string | Remove string | Rename string string

primrec inode_step :: "inode_op \<Rightarrow> InodeTable \<Rightarrow> InodeTable" where
  "inode_step (Alloc p) t = snd (get_or_alloc p t)"
| "inode_step (Remove p) t = remove_path p t"
| "inode_step (Rename p q) t = rename_ino p q t"

lemma inodes_okD:
  assumes "inodes_ok t" and "it_path_to_ino t k = Some ino"
  obtains p where "it_ino_to_path t ino = Some p" and "components p = k"
  using assms by (auto simp: inodes_ok_def)

lemma inodes_ok_inj:
  "inodes_ok t \<Longrightarrow> it_path_to_ino t k = Some ino \<Longrightarrow> it_path_to_ino t j = Some ino \<Longrightarrow> j = k"
  by (metis inodes_okD option.inject)

lemma inodes_ok_bound: "inodes_ok t \<Longrightarrow> it_path_to_ino t k = Some ino \<Longrightarrow> ino < it_next t"
  by (metis inodes_ok_def option.distinct(1))

lemma inodes_ok_new: "inodes_ok (inode_table_new root)"
  by (simp add: inodes_ok_def inode_table_new_def ROOT_INO_def Let_def)

lemma next_ino: "unat (it_next t) + 1 < 2 ^ 64 \<Longrightarrow> unat (it_next t + 1) = unat (it_next t) + 1"
  by (simp add: unat_add_no_overflow)

lemma get_or_alloc_ok:
  assumes "inodes_ok t" and "unat (it_next t) + 1 < 2 ^ 64"
  shows "inodes_ok (snd (get_or_alloc p t))"
proof (cases "it_path_to_ino t (components p)")
  case None
  have lt: "it_next t < it_next t + 1" using next_ino [OF assms(2)] by (simp add: word_less_nat_alt)
  have "it_ino_to_path t (it_next t) = None" using assms(1) by (auto simp: inodes_ok_def)
  with lt show ?thesis
    using assms(1) None by (auto simp: get_or_alloc_def inodes_ok_def dest: less_trans [OF _ lt])
qed (use assms in \<open>simp add: get_or_alloc_def\<close>)

lemma inodes_okI:
  assumes "\<And>k ino. it_path_to_ino t k = Some ino \<Longrightarrow> \<exists>p. it_ino_to_path t ino = Some p \<and> components p = k"
    and "\<And>ino p. it_ino_to_path t ino = Some p \<Longrightarrow> ino < it_next t"
  shows "inodes_ok t"
  using assms by (auto simp: inodes_ok_def)

lemma remove_path_ok:
  assumes "inodes_ok t"
  shows "inodes_ok (remove_path p t)"
proof (cases "it_path_to_ino t (components p)")
  case (Some ino)
  show ?thesis
  proof (rule inodes_okI)
    fix k i
    assume "it_path_to_ino (remove_path p t) k = Some i"
    with Some have k: "k \<noteq> components p" "it_path_to_ino t k = Some i"
      by (auto simp: remove_path_def split: if_splits)
    with inodes_ok_inj [OF assms Some] have "i \<noteq> ino" by blast
    moreover obtain q where "it_ino_to_path t i = Some q" "components q = k" using assms k(2) by (rule inodes_okD)
    ultimately show "\<exists>q. it_ino_to_path (remove_path p t) i = Some q \<and> components q = k"
      using Some by (simp add: remove_path_def)
  next
    fix i q
    assume "it_ino_to_path (remove_path p t) i = Some q"
    with Some have "it_ino_to_path t i = Some q" by (auto simp: remove_path_def split: if_splits)
    with assms Some show "i < it_next (remove_path p t)" by (simp add: inodes_ok_def remove_path_def)
  qed
qed (use assms in \<open>simp add: remove_path_def\<close>)

lemma rename_ino_ok:
  assumes "inodes_ok t"
  shows "inodes_ok (rename_ino p q t)"
proof (cases "it_path_to_ino t (components p)")
  case (Some ino)
  show ?thesis
  proof (rule inodes_okI)
    fix k i
    assume a: "it_path_to_ino (rename_ino p q t) k = Some i"
    show "\<exists>r. it_ino_to_path (rename_ino p q t) i = Some r \<and> components r = k"
    proof (cases "k = components q")
      case True
      with a Some show ?thesis by (simp add: rename_ino_def)
    next
      case False
      with a Some have k: "k \<noteq> components p" "it_path_to_ino t k = Some i"
        by (auto simp: rename_ino_def split: if_splits)
      with inodes_ok_inj [OF assms Some] have "i \<noteq> ino" by blast
      moreover obtain r where "it_ino_to_path t i = Some r" "components r = k" using assms k(2) by (rule inodes_okD)
      ultimately show ?thesis using Some by (simp add: rename_ino_def)
    qed
  next
    fix i r
    assume "it_ino_to_path (rename_ino p q t) i = Some r"
    with Some have "i = ino \<or> it_ino_to_path t i = Some r" by (auto simp: rename_ino_def split: if_splits)
    with assms Some inodes_ok_bound [OF assms Some] show "i < it_next (rename_ino p q t)"
      by (auto simp: inodes_ok_def rename_ino_def)
  qed
qed (use assms in \<open>simp add: rename_ino_def\<close>)

lemma inode_step_next:
  "it_next (remove_path p t) = it_next t" "it_next (rename_ino p q t) = it_next t"
  "unat (it_next t) + 1 < 2 ^ 64 \<Longrightarrow> unat (it_next (snd (get_or_alloc p t))) \<le> unat (it_next t) + 1"
  by (simp_all add: remove_path_def rename_ino_def get_or_alloc_def next_ino split: option.split)

lemma inode_steps_ok:
  "inodes_ok t \<Longrightarrow> unat (it_next t) + length ops < 2 ^ 64 \<Longrightarrow>
   inodes_ok (fold inode_step ops t) \<and> unat (it_next (fold inode_step ops t)) \<le> unat (it_next t) + length ops"
proof (induction ops arbitrary: t)
  case (Cons op ops)
  have "inodes_ok (inode_step op t) \<and> unat (it_next (inode_step op t)) \<le> unat (it_next t) + 1"
    using Cons.prems inode_step_next(3) [of t]
    by (cases op) (simp_all add: get_or_alloc_ok remove_path_ok rename_ino_ok inode_step_next)
  with Cons.IH [of "inode_step op t"] Cons.prems(2) show ?case by simp
qed simp

lemma get_or_alloc_path:
  assumes "inodes_ok t" and "get_or_alloc p t = (ino, t')"
  shows "it_path_to_ino t' (components p) = Some ino" and "\<exists>q. path_of ino t' = Some q \<and> path_eq q p"
proof -
  show "it_path_to_ino t' (components p) = Some ino"
    using assms(2) by (auto simp: get_or_alloc_def split: option.splits)
  show "\<exists>q. path_of ino t' = Some q \<and> path_eq q p"
  proof (cases "it_path_to_ino t (components p)")
    case (Some i)
    with assms obtain q where "it_ino_to_path t i = Some q" "components q = components p"
      by (auto elim: inodes_okD)
    with assms(2) Some show ?thesis by (auto simp: get_or_alloc_def path_of_def path_eq_def)
  qed (use assms(2) in \<open>auto simp: get_or_alloc_def path_of_def path_eq_def\<close>)
qed



text \<open>A rename changes the path of the renamed entry only: the entries below a renamed directory keep
  numbers that lead to their old paths.\<close>

lemma rename_leaves_descendants:
  "it_path_to_ino t (components old) \<noteq> Some ino \<Longrightarrow> path_of ino (rename_ino old new t) = path_of ino t"
  by (auto simp: rename_ino_def path_of_def split: option.split)

end
