(* ===== verification/Fuse_Ops.thy ===== *)
theory Fuse_Ops
  imports Conn Write_Buf Meta_Cache Inodes
begin

text \<open>
  The FUSE side of the client (\<open>client/src/fuse_ops.rs\<close>): the state \<open>QuicFs\<close>, the helpers, and one
  definition per callback of \<open>fuser::Filesystem\<close>. A callback returns what it replies, an error number
  on the left, and the new state. The callbacks come one at a time, as fuser drives them; what other
  tasks do while a callback sleeps is the parameter \<open>fe_sleep\<close>. The clocks are read off the world.
\<close>

section \<open>State and parameters\<close>

definition MAX_UNACKED_AGE :: nat where "MAX_UNACKED_AGE = 120 * 1000000000"

definition fuse_ttl_from_cache_ms :: "nat \<Rightarrow> nat" where
  "fuse_ttl_from_cache_ms _ = 1 * 1000000"

record WriteBufConfig =
  wc_max_per_handle_bytes :: nat
  wc_max_total_bytes :: nat
  wc_window_ms :: u64

definition write_buf_config_default :: WriteBufConfig where
  "write_buf_config_default =
     \<lparr>wc_max_per_handle_bytes = 4 * 1024 * 1024, wc_max_total_bytes = 32 * 1024 * 1024, wc_window_ms = 10\<rparr>"

definition flush_reply :: "nat option \<Rightarrow> bool \<Rightarrow> nat + unit" where
  "flush_reply flush_err had_sticky =
     (case flush_err of
        Some errno \<Rightarrow> Inl errno
      | None \<Rightarrow> if had_sticky then Inl EIO else Inr ())"

record OpenFile =
  of_path :: string
  of_flags :: u32
  of_server_handle :: u64
  of_opened_gen :: u64
  of_is_append :: bool

record ('n, 'l) QuicFs =
  qf_conn :: "'n cm"
  qf_cache :: "'l MetaCache"
  qf_inodes :: InodeTable
  qf_fuse_ttl :: nat
  qf_write_buf :: WriteBuffer
  qf_write_errors :: "u64 set"
  qf_open_files :: "u64 \<rightharpoonup> OpenFile"
  qf_next_client_fh :: u64
  qf_uid_override :: "u32 option"
  qf_gid_override :: "u32 option"
  qf_last_reconnect_gen :: u64

text \<open>\<open>fe_now\<close>: the monotonic clock; \<open>fe_wall\<close>: nanoseconds since 1970.\<close>

record ('n, 'l) fenv =
  fe_conn :: "'n cenv"
  fe_lru :: "'l lru"
  fe_now :: "'n \<Rightarrow> nat"
  fe_wall :: "'n \<Rightarrow> int"
  fe_sleep :: "nat \<Rightarrow> ('n, 'l) QuicFs \<Rightarrow> ('n, 'l) QuicFs"

definition on_conn :: "('n cm \<Rightarrow> 'a \<times> 'n cm) \<Rightarrow> ('n, 'l) QuicFs \<Rightarrow> 'a \<times> ('n, 'l) QuicFs" where
  "on_conn m s = (case m (qf_conn s) of (a, c) \<Rightarrow> (a, s\<lparr>qf_conn := c\<rparr>))"

definition on_cache :: "('l MetaCache \<Rightarrow> 'a \<times> 'l MetaCache) \<Rightarrow> ('n, 'l) QuicFs \<Rightarrow> 'a \<times> ('n, 'l) QuicFs" where
  "on_cache m s = (case m (qf_cache s) of (a, c) \<Rightarrow> (a, s\<lparr>qf_cache := c\<rparr>))"

definition on_inodes :: "(InodeTable \<Rightarrow> 'a \<times> InodeTable) \<Rightarrow> ('n, 'l) QuicFs \<Rightarrow> 'a \<times> ('n, 'l) QuicFs" where
  "on_inodes m s = (case m (qf_inodes s) of (a, t) \<Rightarrow> (a, s\<lparr>qf_inodes := t\<rparr>))"

definition instant :: "('n, 'l) fenv \<Rightarrow> ('n, 'l) QuicFs \<Rightarrow> nat" where
  "instant e s = fe_now e (cm_net (qf_conn s))"

definition quicfs_new ::
  "'l lru \<Rightarrow> 'n cm \<Rightarrow> CacheConfig \<Rightarrow> WriteBufConfig \<Rightarrow> u32 option \<Rightarrow> u32 option \<Rightarrow> string \<Rightarrow> ('n, 'l) QuicFs" where
  "quicfs_new lr conn cache_cfg wbuf_cfg uid_override gid_override remote_root =
     \<lparr>qf_conn = conn, qf_cache = meta_cache_new lr cache_cfg, qf_inodes = inode_table_new remote_root,
      qf_fuse_ttl = fuse_ttl_from_cache_ms (cc_pos_ttl cache_cfg div 1000000),
      qf_write_buf = write_buffer_new (wc_max_per_handle_bytes wbuf_cfg) (wc_max_total_bytes wbuf_cfg)
        (wc_window_ms wbuf_cfg),
      qf_write_errors = {}, qf_open_files = Map.empty, qf_next_client_fh = 1,
      qf_uid_override = uid_override, qf_gid_override = gid_override,
      qf_last_reconnect_gen = reconnect_gen conn\<rparr>"

section \<open>Live handles and flushing\<close>

text \<open>\<open>drop_handle\<close>, with the sticky error when anything was dropped.\<close>

definition drop_sticky :: "u64 \<Rightarrow> ('n, 'l) QuicFs \<Rightarrow> ('n, 'l) QuicFs" where
  "drop_sticky fh s =
     (case drop_handle fh (qf_write_buf s) of
        (dropped, wb) \<Rightarrow>
          s\<lparr>qf_write_buf := wb,
            qf_write_errors := (if dropped > 0 then insert fh (qf_write_errors s) else qf_write_errors s)\<rparr>)"

definition ensure_live ::
  "('n, 'l) fenv \<Rightarrow> u64 \<Rightarrow> bool \<Rightarrow> ('n, 'l) QuicFs \<Rightarrow> u64 option \<times> ('n, 'l) QuicFs" where
  "ensure_live e client_fh allow_reopen s =
     (let cur = reconnect_gen (qf_conn s)
      in case qf_open_files s client_fh of
           None \<Rightarrow> (None, s)
         | Some f \<Rightarrow>
             if of_opened_gen f = cur then (Some (of_server_handle f), s)
             else if \<not> allow_reopen then (None, s)
             else
               let reopen_flags = (of_flags f AND 0x3) OR (of_flags f AND O_APPEND)
               in case on_conn (cm_open (fe_conn e) (of_path f) reopen_flags) s of
                    (Inl _, s1) \<Rightarrow> (None, s1)
                  | (Inr (new_handle, _), s1) \<Rightarrow>
                      let s2 = s1\<lparr>qf_open_files := (qf_open_files s1)(client_fh \<mapsto>
                                 f\<lparr>of_server_handle := new_handle, of_opened_gen := cur\<rparr>)\<rparr>
                      in (Some new_handle,
                          if of_is_append f \<and> has_buffered (qf_write_buf s2) client_fh
                          then drop_sticky client_fh s2 else s2))"

text \<open>The send loop of \<open>flush_one\<close>: it stops at the first error.\<close>

fun send_chunks ::
  "('n, 'l) fenv \<Rightarrow> u64 \<Rightarrow> (u64 \<times> bytes) list \<Rightarrow> ('n, 'l) QuicFs \<Rightarrow> (anyhow + unit) \<times> ('n, 'l) QuicFs" where
  "send_chunks e server_handle [] s = (Inr (), s)"
| "send_chunks e server_handle ((offset, data) # chunks) s =
     andthen (on_conn (cm_write (fe_conn e) server_handle offset data)) (\<lambda>_. send_chunks e server_handle chunks) s"

text \<open>The loop of \<open>flush_one\<close> with the attempts that are left and the last error.\<close>

primrec flush_attempts ::
  "nat \<Rightarrow> ('n, 'l) fenv \<Rightarrow> u64 \<Rightarrow> bool \<Rightarrow> anyhow option \<Rightarrow> ('n, 'l) QuicFs \<Rightarrow> (anyhow + unit) \<times> ('n, 'l) QuicFs" where
  "flush_attempts 0 e client_fh allow_reopen last_err s =
     (Inl (case last_err of Some err \<Rightarrow> err | None \<Rightarrow> ''flush failed for '' @ show_nat (unat client_fh)), s)"
| "flush_attempts (Suc n) e client_fh allow_reopen last_err s =
     (case ensure_live e client_fh allow_reopen s of
        (None, s1) \<Rightarrow>
          (if has_buffered (qf_write_buf s1) client_fh
           then Inl (''handle '' @ show_nat (unat client_fh) @ '' not live for flush'') else Inr (), s1)
      | (Some server_handle, s1) \<Rightarrow>
          (case begin_flush client_fh (qf_write_buf s1) of
             (None, wb) \<Rightarrow> (Inr (), s1\<lparr>qf_write_buf := wb\<rparr>)
           | (Some batch, wb) \<Rightarrow>
               (let s2 = s1\<lparr>qf_write_buf := wb\<rparr>; gen_before = reconnect_gen (qf_conn s2)
                in case send_chunks e server_handle (fb_chunks batch) s2 of
                     (Inr _, s3) \<Rightarrow>
                       (Inr (), s3\<lparr>qf_write_buf := ack_flush client_fh (fb_sent_count batch) (qf_write_buf s3)\<rparr>)
                   | (Inl err, s3) \<Rightarrow>
                       if (case qf_open_files s3 client_fh of Some f \<Rightarrow> of_is_append f | None \<Rightarrow> False)
                       then (Inl err, s3\<lparr>qf_write_buf := snd (drop_handle client_fh (qf_write_buf s3)),
                                         qf_write_errors := insert client_fh (qf_write_errors s3)\<rparr>)
                       else
                         let s4 = s3\<lparr>qf_write_buf := fail_flush client_fh (qf_write_buf s3)\<rparr>
                         in if allow_reopen \<and> reconnect_gen (qf_conn s4) \<noteq> gen_before
                            then flush_attempts n e client_fh allow_reopen (Some err) s4
                            else (Inl err, s4))))"

definition flush_one ::
  "('n, 'l) fenv \<Rightarrow> u64 \<Rightarrow> bool \<Rightarrow> ('n, 'l) QuicFs \<Rightarrow> (anyhow + unit) \<times> ('n, 'l) QuicFs" where
  "flush_one e client_fh allow_reopen = flush_attempts 2 e client_fh allow_reopen None"

definition register_open :: "string \<Rightarrow> u32 \<Rightarrow> u64 \<Rightarrow> ('n, 'l) QuicFs \<Rightarrow> u64 \<times> ('n, 'l) QuicFs" where
  "register_open path flags server_handle s =
     (let client_fh = qf_next_client_fh s
      in (client_fh,
          s\<lparr>qf_next_client_fh := client_fh + 1,
            qf_open_files := (qf_open_files s)(client_fh \<mapsto>
              \<lparr>of_path = path, of_flags = flags, of_server_handle = server_handle,
               of_opened_gen = reconnect_gen (qf_conn s), of_is_append = (flags AND O_APPEND \<noteq> 0)\<rparr>)\<rparr>))"

definition path_for :: "u64 \<Rightarrow> ('n, 'l) QuicFs \<Rightarrow> string option" where
  "path_for ino s = map_option to_string_lossy (path_of ino (qf_inodes s))"

definition child_path :: "string \<Rightarrow> string \<Rightarrow> string" where
  "child_path parent name =
     (if path_eq parent ''/'' then CHR ''/'' # to_string_lossy name else path_push parent name)"

definition flush_handle :: "('n, 'l) fenv \<Rightarrow> u64 \<Rightarrow> ('n, 'l) QuicFs \<Rightarrow> (anyhow + unit) \<times> ('n, 'l) QuicFs" where
  "flush_handle e client_fh = flush_one e client_fh True"

primrec drain_loop :: "nat \<Rightarrow> ('n, 'l) fenv \<Rightarrow> u64 \<Rightarrow> ('n, 'l) QuicFs \<Rightarrow> (anyhow + unit) \<times> ('n, 'l) QuicFs" where
  "drain_loop 0 e client_fh s =
     (Inl (''flush did not drain handle '' @ show_nat (unat client_fh) @ '' (server wedged?)''), s)"
| "drain_loop (Suc n) e client_fh s =
     (case flush_handle e client_fh s of
        (Inl err, s1) \<Rightarrow> (Inl err, s1)
      | (Inr _, s1) \<Rightarrow>
          if \<not> has_buffered (qf_write_buf s1) client_fh then (Inr (), s1)
          else drain_loop n e client_fh (fe_sleep e 5 s1))"

definition flush_handle_drain :: "('n, 'l) fenv \<Rightarrow> u64 \<Rightarrow> ('n, 'l) QuicFs \<Rightarrow> (anyhow + unit) \<times> ('n, 'l) QuicFs" where
  "flush_handle_drain e client_fh = drain_loop 500 e client_fh"

definition live_handle :: "('n, 'l) fenv \<Rightarrow> u64 \<Rightarrow> ('n, 'l) QuicFs \<Rightarrow> u64 option \<times> ('n, 'l) QuicFs" where
  "live_handle e client_fh = ensure_live e client_fh True"

fun flush_each :: "('n, 'l) fenv \<Rightarrow> u64 list \<Rightarrow> anyhow option \<Rightarrow> ('n, 'l) QuicFs \<Rightarrow> anyhow option \<times> ('n, 'l) QuicFs" where
  "flush_each e [] first_err s = (first_err, s)"
| "flush_each e (fh # fhs) first_err s =
     (case flush_handle e fh s of
        (r, s1) \<Rightarrow>
          flush_each e fhs (case r of Inl err \<Rightarrow> (if first_err = None then Some err else first_err) | Inr _ \<Rightarrow> first_err) s1)"

definition flush_all_handles :: "('n, 'l) fenv \<Rightarrow> ('n, 'l) QuicFs \<Rightarrow> (anyhow + unit) \<times> ('n, 'l) QuicFs" where
  "flush_all_handles e s =
     (case flush_each e (handles (qf_write_buf s)) None s of
        (Some err, s1) \<Rightarrow> (Inl err, s1)
      | (None, s1) \<Rightarrow> (Inr (), s1))"

definition fence_truncating_open :: "('n, 'l) fenv \<Rightarrow> u32 \<Rightarrow> ('n, 'l) QuicFs \<Rightarrow> (anyhow + unit) \<times> ('n, 'l) QuicFs" where
  "fence_truncating_open e flags s =
     (if flags AND 0x200 = 0 then (Inr (), s)
      else if total_bytes (qf_write_buf s) = 0 then (Inr (), s)
      else flush_all_handles e s)"

section \<open>Attributes and the metadata cache\<close>

datatype FileType = Directory | RegularFile | Symlink | NamedPipe | CharDevice | BlockDevice | Socket

text \<open>A \<open>SystemTime\<close> is its distance from 1970 in nanoseconds.\<close>

record FileAttr =
  fa_ino :: u64
  fa_size :: u64
  fa_blocks :: u64
  fa_atime :: int
  fa_mtime :: int
  fa_ctime :: int
  fa_crtime :: int
  fa_kind :: FileType
  fa_perm :: u16
  fa_nlink :: u32
  fa_uid :: u32
  fa_gid :: u32
  fa_rdev :: u32
  fa_blksize :: u32
  fa_flags :: u32

definition mode_to_file_type :: "u32 \<Rightarrow> FileType" where
  "mode_to_file_type mode =
     (let m = drop_bit 12 mode AND 0xF
      in if m = 0x4 then Directory
         else if m = 0x8 then RegularFile
         else if m = 0xA then Symlink
         else if m = 0x1 then NamedPipe
         else if m = 0x2 then CharDevice
         else if m = 0x6 then BlockDevice
         else if m = 0xC then Socket
         else RegularFile)"

definition ns_to_st :: "i64 \<Rightarrow> int" where
  "ns_to_st ns = (if 0 \<le> sint ns then uint ns else - uint (- ns))"

definition stat_to_file_attr :: "Stat \<Rightarrow> u64 \<Rightarrow> FileAttr" where
  "stat_to_file_attr stat ino =
     \<lparr>fa_ino = ino, fa_size = st_size stat, fa_blocks = st_blocks stat, fa_atime = ns_to_st (st_atime stat),
      fa_mtime = ns_to_st (st_mtime stat), fa_ctime = ns_to_st (st_ctime stat), fa_crtime = ns_to_st (st_ctime stat),
      fa_kind = mode_to_file_type (st_mode stat), fa_perm = ucast (st_mode stat AND 0xFFF),
      fa_nlink = st_nlink stat, fa_uid = st_uid stat, fa_gid = st_gid stat, fa_rdev = 0,
      fa_blksize = st_blksz stat, fa_flags = 0\<rparr>"

definition make_file_attr :: "string \<Rightarrow> Stat \<Rightarrow> ('n, 'l) QuicFs \<Rightarrow> FileAttr \<times> ('n, 'l) QuicFs" where
  "make_file_attr path stat s =
     (case on_inodes (get_or_alloc path) s of
        (ino, s1) \<Rightarrow>
          (let attr = stat_to_file_attr stat ino;
               attr = (case qf_uid_override s1 of Some uid \<Rightarrow> attr\<lparr>fa_uid := uid\<rparr> | None \<Rightarrow> attr);
               attr = (case qf_gid_override s1 of Some gid \<Rightarrow> attr\<lparr>fa_gid := gid\<rparr> | None \<Rightarrow> attr)
           in (attr, s1)))"

definition check_reconnect :: "('n, 'l) fenv \<Rightarrow> ('n, 'l) QuicFs \<Rightarrow> ('n, 'l) QuicFs" where
  "check_reconnect e s =
     (let current = reconnect_gen (qf_conn s)
      in if current \<noteq> qf_last_reconnect_gen s
         then s\<lparr>qf_cache := cache_clear (fe_lru e) (qf_cache s), qf_last_reconnect_gen := current\<rparr>
         else s)"

definition cached_getattr :: "('n, 'l) fenv \<Rightarrow> string \<Rightarrow> ('n, 'l) QuicFs \<Rightarrow> (unit + Stat) option \<times> ('n, 'l) QuicFs" where
  "cached_getattr e path s = on_cache (cache_get (fe_lru e) (instant e s) path) s"

definition cache_stat :: "('n, 'l) fenv \<Rightarrow> string \<Rightarrow> Stat \<Rightarrow> ('n, 'l) QuicFs \<Rightarrow> ('n, 'l) QuicFs" where
  "cache_stat e path stat s =
     (let is_dir = (drop_bit 12 (st_mode stat) AND 0xF = 0x4)
      in s\<lparr>qf_cache := cache_insert (fe_lru e) (instant e s) path stat is_dir (qf_cache s)\<rparr>)"

definition cache_negative :: "('n, 'l) fenv \<Rightarrow> string \<Rightarrow> ('n, 'l) QuicFs \<Rightarrow> ('n, 'l) QuicFs" where
  "cache_negative e path s = s\<lparr>qf_cache := cache_insert_negative (fe_lru e) (instant e s) path (qf_cache s)\<rparr>"

definition invalidate_cache :: "('n, 'l) fenv \<Rightarrow> string \<Rightarrow> ('n, 'l) QuicFs \<Rightarrow> ('n, 'l) QuicFs" where
  "invalidate_cache e path s = s\<lparr>qf_cache := cache_invalidate (fe_lru e) path (qf_cache s)\<rparr>"

definition not_found_err :: io_error where
  "not_found_err = KindError NotFound_k"

definition get_stat :: "('n, 'l) fenv \<Rightarrow> string \<Rightarrow> ('n, 'l) QuicFs \<Rightarrow> (io_error + Stat) \<times> ('n, 'l) QuicFs" where
  "get_stat e path s =
     (let s0 = check_reconnect e s
      in case (if total_bytes (qf_write_buf s0) > 0
               then case flush_all_handles e s0 of (r, s1) \<Rightarrow> (is_ok r, s1) else (True, s0)) of
           (flush_ok, s1) \<Rightarrow>
             (case cached_getattr e path s1 of
                (Some r, s2) \<Rightarrow> (case r of Inl _ \<Rightarrow> Inl not_found_err | Inr st \<Rightarrow> Inr st, s2)
              | (None, s2) \<Rightarrow>
                  (case on_conn (cm_getattr (fe_conn e) path) s2 of
                     (Inr st, s3) \<Rightarrow> (Inr st, if flush_ok then cache_stat e path st s3 else s3)
                   | (Inl msg, s3) \<Rightarrow>
                       if contains_str ''NotFound'' msg then (Inl not_found_err, cache_negative e path s3)
                       else (Inl (KindError Other_k), s3))))"

section \<open>Callbacks: names and attributes\<close>

text \<open>Every callback on an inode or a parent starts by looking its path up.\<close>

definition with_path ::
  "u64 \<Rightarrow> (string \<Rightarrow> ('n, 'l) QuicFs \<Rightarrow> (nat + 'a) \<times> ('n, 'l) QuicFs) \<Rightarrow> ('n, 'l) QuicFs \<Rightarrow> (nat + 'a) \<times> ('n, 'l) QuicFs" where
  "with_path ino k s = (case path_for ino s of None \<Rightarrow> (Inl ENOENT, s) | Some path \<Rightarrow> k path s)"

text \<open>The entry reply: the time to live, the attributes and the generation.\<close>

definition entry_reply :: "string \<Rightarrow> Stat \<Rightarrow> ('n, 'l) QuicFs \<Rightarrow> (nat + nat \<times> FileAttr \<times> nat) \<times> ('n, 'l) QuicFs" where
  "entry_reply path stat s = (case make_file_attr path stat s of (attr, s1) \<Rightarrow> (Inr (qf_fuse_ttl s1, attr, 0), s1))"

definition attr_reply :: "string \<Rightarrow> Stat \<Rightarrow> ('n, 'l) QuicFs \<Rightarrow> (nat + nat \<times> FileAttr) \<times> ('n, 'l) QuicFs" where
  "attr_reply path stat s = (case make_file_attr path stat s of (attr, s1) \<Rightarrow> (Inr (qf_fuse_ttl s1, attr), s1))"

definition fuse_lookup :: "('n, 'l) fenv \<Rightarrow> u64 \<Rightarrow> string \<Rightarrow> ('n, 'l) QuicFs \<Rightarrow>
    (nat + nat \<times> FileAttr \<times> nat) \<times> ('n, 'l) QuicFs" where
  "fuse_lookup e parent name =
     with_path parent (\<lambda>parent_path s.
       let child = child_path parent_path name
       in case get_stat e (to_string_lossy child) s of
            (Inr stat, s1) \<Rightarrow> entry_reply child stat s1
          | (Inl err, s1) \<Rightarrow> (Inl (io_to_errno err), s1))"

definition fuse_forget :: "u64 \<Rightarrow> u64 \<Rightarrow> ('n, 'l) QuicFs \<Rightarrow> ('n, 'l) QuicFs" where
  "fuse_forget ino nlookup s = s"

definition fuse_getattr :: "('n, 'l) fenv \<Rightarrow> u64 \<Rightarrow> ('n, 'l) QuicFs \<Rightarrow> (nat + nat \<times> FileAttr) \<times> ('n, 'l) QuicFs" where
  "fuse_getattr e ino =
     with_path ino (\<lambda>path s.
       case get_stat e path s of
         (Inr stat, s1) \<Rightarrow> attr_reply path stat s1
       | (Inl err, s1) \<Rightarrow> (Inl (io_to_errno err), s1))"

datatype TimeOrNow = SpecificTime int | Now

definition ns_of :: "('n, 'l) fenv \<Rightarrow> ('n, 'l) QuicFs \<Rightarrow> TimeOrNow \<Rightarrow> i64" where
  "ns_of e s t =
     (let st = (case t of SpecificTime st \<Rightarrow> st | Now \<Rightarrow> fe_wall e (cm_net (qf_conn s)))
      in if st < 0 then 0 else word_of_int st)"

definition valid_bits :: "u32 option \<Rightarrow> u32 option \<Rightarrow> u32 option \<Rightarrow> u64 option \<Rightarrow> TimeOrNow option \<Rightarrow> TimeOrNow option \<Rightarrow> u32" where
  "valid_bits mode uid gid sz atime mtime =
     (if mode \<noteq> None then 0x1 else 0) OR (if uid \<noteq> None then 0x2 else 0) OR (if gid \<noteq> None then 0x4 else 0) OR
     (if sz \<noteq> None then 0x8 else 0) OR (if atime \<noteq> None then 0x10 else 0) OR (if mtime \<noteq> None then 0x20 else 0)"

definition unwrap_or :: "'a \<Rightarrow> 'a option \<Rightarrow> 'a" where
  "unwrap_or d x = (case x of Some a \<Rightarrow> a | None \<Rightarrow> d)"

definition fuse_setattr ::
  "('n, 'l) fenv \<Rightarrow> u64 \<Rightarrow> u32 option \<Rightarrow> u32 option \<Rightarrow> u32 option \<Rightarrow> u64 option \<Rightarrow> TimeOrNow option \<Rightarrow>
   TimeOrNow option \<Rightarrow> u64 option \<Rightarrow> ('n, 'l) QuicFs \<Rightarrow> (nat + nat \<times> FileAttr) \<times> ('n, 'l) QuicFs" where
  "fuse_setattr e ino mode uid gid sz atime mtime fh =
     with_path ino (\<lambda>path s.
       case (if sz \<noteq> None then (case fh of Some fh \<Rightarrow> flush_handle e fh s | None \<Rightarrow> flush_all_handles e s)
             else (Inr (), s)) of
         (Inl err, s1) \<Rightarrow> (Inl (rpc_to_errno err), s1)
       | (Inr _, s1) \<Rightarrow>
           (case on_conn (cm_setattr (fe_conn e) path (valid_bits mode uid gid sz atime mtime) (unwrap_or 0 mode)
                   (unwrap_or 0 uid) (unwrap_or 0 gid) (unwrap_or 0 sz)
                   (unwrap_or 0 (map_option (ns_of e s1) atime)) (unwrap_or 0 (map_option (ns_of e s1) mtime))) s1 of
              (Inr stat, s2) \<Rightarrow> attr_reply path stat (invalidate_cache e path s2)
            | (Inl err, s2) \<Rightarrow> (Inl (rpc_to_errno err), s2)))"

definition fuse_readlink :: "('n, 'l) fenv \<Rightarrow> u64 \<Rightarrow> ('n, 'l) QuicFs \<Rightarrow> (nat + string) \<times> ('n, 'l) QuicFs" where
  "fuse_readlink e ino =
     with_path ino (\<lambda>path s.
       case on_conn (cm_readlink (fe_conn e) path) s of
         (Inr target, s1) \<Rightarrow> (Inr target, s1)
       | (Inl err, s1) \<Rightarrow> (Inl (rpc_to_errno err), s1))"

definition fuse_mkdir :: "('n, 'l) fenv \<Rightarrow> u64 \<Rightarrow> string \<Rightarrow> u32 \<Rightarrow> ('n, 'l) QuicFs \<Rightarrow>
    (nat + nat \<times> FileAttr \<times> nat) \<times> ('n, 'l) QuicFs" where
  "fuse_mkdir e parent name mode =
     with_path parent (\<lambda>parent_path s.
       let child = child_path parent_path name; path_str = to_string_lossy child;
           s0 = invalidate_cache e (unwrap_or ''/'' (to_str parent_path)) s
       in case on_conn (cm_mkdir (fe_conn e) path_str mode) s0 of
            (Inr stat, s1) \<Rightarrow> entry_reply child stat (cache_stat e path_str stat s1)
          | (Inl err, s1) \<Rightarrow> (Inl (rpc_to_errno err), s1))"

text \<open>\<open>unlink\<close> and \<open>rmdir\<close> differ in the remote call only.\<close>

definition fuse_remove :: "(string \<Rightarrow> 'n cm \<Rightarrow> (anyhow + unit) \<times> 'n cm) \<Rightarrow> ('n, 'l) fenv \<Rightarrow> u64 \<Rightarrow> string \<Rightarrow>
    ('n, 'l) QuicFs \<Rightarrow> (nat + unit) \<times> ('n, 'l) QuicFs" where
  "fuse_remove call e parent name =
     with_path parent (\<lambda>parent_path s.
       let child = child_path parent_path name; path_str = to_string_lossy child;
           s0 = invalidate_cache e path_str s
       in case on_conn (call path_str) s0 of
            (Inr _, s1) \<Rightarrow> (Inr (), s1\<lparr>qf_inodes := remove_path child (qf_inodes s1)\<rparr>)
          | (Inl err, s1) \<Rightarrow> (Inl (rpc_to_errno err), s1))"

definition fuse_unlink :: "('n, 'l) fenv \<Rightarrow> u64 \<Rightarrow> string \<Rightarrow> ('n, 'l) QuicFs \<Rightarrow> (nat + unit) \<times> ('n, 'l) QuicFs" where
  "fuse_unlink e = fuse_remove (cm_unlink (fe_conn e)) e"

definition fuse_rmdir :: "('n, 'l) fenv \<Rightarrow> u64 \<Rightarrow> string \<Rightarrow> ('n, 'l) QuicFs \<Rightarrow> (nat + unit) \<times> ('n, 'l) QuicFs" where
  "fuse_rmdir e = fuse_remove (cm_rmdir (fe_conn e)) e"

definition fuse_symlink :: "('n, 'l) fenv \<Rightarrow> u64 \<Rightarrow> string \<Rightarrow> string \<Rightarrow> ('n, 'l) QuicFs \<Rightarrow>
    (nat + nat \<times> FileAttr \<times> nat) \<times> ('n, 'l) QuicFs" where
  "fuse_symlink e parent link_name target =
     with_path parent (\<lambda>parent_path s.
       let link_path = child_path parent_path link_name; link_str = to_string_lossy link_path
       in case on_conn (cm_symlink (fe_conn e) (to_string_lossy target) link_str) s of
            (Inr stat, s1) \<Rightarrow> entry_reply link_path stat (cache_stat e link_str stat s1)
          | (Inl err, s1) \<Rightarrow> (Inl (rpc_to_errno err), s1))"

definition fuse_rename :: "('n, 'l) fenv \<Rightarrow> u64 \<Rightarrow> string \<Rightarrow> u64 \<Rightarrow> string \<Rightarrow> u32 \<Rightarrow> ('n, 'l) QuicFs \<Rightarrow>
    (nat + unit) \<times> ('n, 'l) QuicFs" where
  "fuse_rename e parent name new_parent new_name flags =
     with_path parent (\<lambda>old_parent. with_path new_parent (\<lambda>new_par s.
       let old_path = child_path old_parent name; new_path = child_path new_par new_name;
           old_str = to_string_lossy old_path; new_str = to_string_lossy new_path
       in case on_conn (cm_rename (fe_conn e) old_str new_str flags) s of
            (Inr _, s1) \<Rightarrow>
              (let s2 = invalidate_cache e new_str (invalidate_cache e old_str s1);
                   s3 = (case path_parent new_path of Some p \<Rightarrow> invalidate_cache e (to_string_lossy p) s2 | None \<Rightarrow> s2)
               in (Inr (), s3\<lparr>qf_inodes := rename_ino old_path new_path (qf_inodes s3)\<rparr>))
          | (Inl err, s1) \<Rightarrow> (Inl (rpc_to_errno err), s1)))"

definition fuse_link :: "('n, 'l) fenv \<Rightarrow> u64 \<Rightarrow> u64 \<Rightarrow> string \<Rightarrow> ('n, 'l) QuicFs \<Rightarrow>
    (nat + nat \<times> FileAttr \<times> nat) \<times> ('n, 'l) QuicFs" where
  "fuse_link e ino new_parent new_name =
     with_path ino (\<lambda>src_path. with_path new_parent (\<lambda>new_par s.
       let new_path = child_path new_par new_name; new_str = to_string_lossy new_path
       in case on_conn (cm_link (fe_conn e) src_path new_str) s of
            (Inr stat, s1) \<Rightarrow>
              (let s2 = cache_stat e src_path stat (invalidate_cache e src_path s1);
                   s3 = cache_stat e new_str stat (invalidate_cache e new_str s2)
               in case make_file_attr new_path stat s3 of (attr, s4) \<Rightarrow> (Inr (1 * 1000000, attr, 0), s4))
          | (Inl err, s1) \<Rightarrow> (Inl (rpc_to_errno err), s1)))"

section \<open>Callbacks: files\<close>

definition fuse_open :: "('n, 'l) fenv \<Rightarrow> u64 \<Rightarrow> u32 \<Rightarrow> ('n, 'l) QuicFs \<Rightarrow> (nat + u64 \<times> u32) \<times> ('n, 'l) QuicFs" where
  "fuse_open e ino flags =
     with_path ino (\<lambda>path s.
       case fence_truncating_open e flags s of
         (Inl err, s1) \<Rightarrow> (Inl (rpc_to_errno err), s1)
       | (Inr _, s1) \<Rightarrow>
           (case on_conn (cm_open (fe_conn e) path flags) s1 of
              (Inr (server_handle, _), s2) \<Rightarrow>
                (case register_open path flags server_handle s2 of (client_fh, s3) \<Rightarrow> (Inr (client_fh, 0), s3))
            | (Inl err, s2) \<Rightarrow> (Inl (rpc_to_errno err), s2)))"

definition fuse_read :: "('n, 'l) fenv \<Rightarrow> u64 \<Rightarrow> i64 \<Rightarrow> u32 \<Rightarrow> ('n, 'l) QuicFs \<Rightarrow> (nat + bytes) \<times> ('n, 'l) QuicFs" where
  "fuse_read e fh offset sz s =
     (case flush_handle e fh s of
        (Inl err, s1) \<Rightarrow> (Inl (rpc_to_errno err), s1)
      | (Inr _, s1) \<Rightarrow>
          (case live_handle e fh s1 of
             (None, s2) \<Rightarrow> (Inl ESTALE, s2)
           | (Some server_handle, s2) \<Rightarrow>
               (case on_conn (cm_read (fe_conn e) server_handle offset sz) s2 of
                  (Inr data, s3) \<Rightarrow> (Inr data, s3)
                | (Inl err, s3) \<Rightarrow> (Inl (rpc_to_errno err), s3))))"

definition fuse_write :: "('n, 'l) fenv \<Rightarrow> u64 \<Rightarrow> u64 \<Rightarrow> i64 \<Rightarrow> bytes \<Rightarrow> ('n, 'l) QuicFs \<Rightarrow> (nat + u32) \<times> ('n, 'l) QuicFs" where
  "fuse_write e ino fh offset data s =
     (let s0 = (case path_for ino s of Some path \<Rightarrow> invalidate_cache e path s | None \<Rightarrow> s)
      in case live_handle e fh s0 of
           (_, s1) \<Rightarrow>
             (let n = word_of_nat (length data)
              in case push fh offset data (instant e s1) (qf_write_buf s1) of
                   (decision, wb) \<Rightarrow>
                     (let s2 = s1\<lparr>qf_write_buf := wb\<rparr>
                      in case decision of
                           Buffered \<Rightarrow> (Inr n, s2)
                         | FlushThis h \<Rightarrow> (Inr n, snd (flush_handle e h s2))
                         | FlushOther h \<Rightarrow> (Inr n, snd (flush_handle e h s2))
                         | Reject \<Rightarrow> (Inl EIO, s2\<lparr>qf_write_errors := insert fh (qf_write_errors s2)\<rparr>))))"

text \<open>The common start of \<open>flush\<close> and \<open>fsync\<close>: drain the handle, consume its sticky error, decide.\<close>

definition drain_and_reply :: "('n, 'l) fenv \<Rightarrow> u64 \<Rightarrow> ('n, 'l) QuicFs \<Rightarrow> (nat + unit) \<times> ('n, 'l) QuicFs" where
  "drain_and_reply e fh s =
     (case flush_handle_drain e fh s of
        (r, s1) \<Rightarrow>
          (let flush_err = (case r of Inl err \<Rightarrow> Some (rpc_to_errno err) | Inr _ \<Rightarrow> None);
               had_sticky = (fh \<in> qf_write_errors s1)
           in (flush_reply flush_err had_sticky, s1\<lparr>qf_write_errors := qf_write_errors s1 - {fh}\<rparr>)))"

definition fuse_flush :: "('n, 'l) fenv \<Rightarrow> u64 \<Rightarrow> ('n, 'l) QuicFs \<Rightarrow> (nat + unit) \<times> ('n, 'l) QuicFs" where
  "fuse_flush e fh = drain_and_reply e fh"

definition fuse_release :: "('n, 'l) fenv \<Rightarrow> u64 \<Rightarrow> ('n, 'l) QuicFs \<Rightarrow> (nat + unit) \<times> ('n, 'l) QuicFs" where
  "fuse_release e fh s =
     (let s1 = snd (flush_handle_drain e fh s);
          s2 = s1\<lparr>qf_write_errors := qf_write_errors s1 - {fh}\<rparr>;
          server_handle = map_option of_server_handle (qf_open_files s2 fh);
          s3 = s2\<lparr>qf_open_files := (qf_open_files s2)(fh := None),
                  qf_write_buf := snd (drop_handle fh (qf_write_buf s2))\<rparr>
      in (Inr (), case server_handle of Some sh \<Rightarrow> snd (on_conn (cm_release (fe_conn e) sh) s3) | None \<Rightarrow> s3))"

definition fuse_fsync :: "('n, 'l) fenv \<Rightarrow> u64 \<Rightarrow> bool \<Rightarrow> ('n, 'l) QuicFs \<Rightarrow> (nat + unit) \<times> ('n, 'l) QuicFs" where
  "fuse_fsync e fh datasync =
     andthen (drain_and_reply e fh) (\<lambda>_ s.
       case live_handle e fh s of
         (None, s1) \<Rightarrow> (Inl ESTALE, s1)
       | (Some server_handle, s1) \<Rightarrow>
           (case on_conn (cm_fsync (fe_conn e) server_handle datasync) s1 of
              (Inr _, s2) \<Rightarrow> (Inr (), s2)
            | (Inl err, s2) \<Rightarrow> (Inl (rpc_to_errno err), s2)))"

definition fuse_create :: "('n, 'l) fenv \<Rightarrow> u64 \<Rightarrow> string \<Rightarrow> u32 \<Rightarrow> u32 \<Rightarrow> ('n, 'l) QuicFs \<Rightarrow>
    (nat + nat \<times> FileAttr \<times> nat \<times> u64 \<times> u32) \<times> ('n, 'l) QuicFs" where
  "fuse_create e parent name mode flags =
     with_path parent (\<lambda>parent_path s.
       let child = child_path parent_path name; path_str = to_string_lossy child
       in case fence_truncating_open e flags s of
            (Inl err, s1) \<Rightarrow> (Inl (rpc_to_errno err), s1)
          | (Inr _, s1) \<Rightarrow>
              (let s2 = invalidate_cache e path_str (invalidate_cache e (unwrap_or ''/'' (to_str parent_path)) s1)
               in case on_conn (cm_create (fe_conn e) path_str flags mode) s2 of
                    (Inr (server_handle, stat), s3) \<Rightarrow>
                      (case register_open path_str flags server_handle (cache_stat e path_str stat s3) of
                         (client_fh, s4) \<Rightarrow>
                           (case make_file_attr child stat s4 of
                              (attr, s5) \<Rightarrow> (Inr (qf_fuse_ttl s5, attr, 0, client_fh, 0), s5)))
                  | (Inl err, s3) \<Rightarrow> (Inl (rpc_to_errno err), s3)))"

section \<open>Callbacks: directories and file systems\<close>

definition fuse_opendir :: "u64 \<Rightarrow> ('n, 'l) QuicFs \<Rightarrow> (nat + u64 \<times> u32) \<times> ('n, 'l) QuicFs" where
  "fuse_opendir ino s = (Inr (0, 0), s)"

definition fuse_releasedir :: "u64 \<Rightarrow> ('n, 'l) QuicFs \<Rightarrow> (nat + unit) \<times> ('n, 'l) QuicFs" where
  "fuse_releasedir ino s = (Inr (), s)"

text \<open>\<open>add\<close> is \<open>ReplyDirectory::add\<close>: it says whether the reply buffer is full.\<close>

fun add_entries ::
  "('r \<Rightarrow> u64 \<Rightarrow> i64 \<Rightarrow> FileType \<Rightarrow> string \<Rightarrow> bool \<times> 'r) \<Rightarrow> string \<Rightarrow> (nat \<times> DirEntry) list \<Rightarrow> 'r \<Rightarrow>
   ('n, 'l) QuicFs \<Rightarrow> 'r \<times> ('n, 'l) QuicFs" where
  "add_entries add path [] r s = (r, s)"
| "add_entries add path ((i, entry) # es) r s =
     (let child = trim_end_matches (CHR ''/'') path @ CHR ''/'' # de_name entry
      in case on_inodes (get_or_alloc child) s of
           (child_ino, s1) \<Rightarrow>
             (case add r child_ino (word_of_nat (i + 1)) (mode_to_file_type (de_mode entry)) (de_name entry) of
                (full, r1) \<Rightarrow> if full then (r1, s1) else add_entries add path es r1 s1))"

definition fuse_readdir ::
  "('r \<Rightarrow> u64 \<Rightarrow> i64 \<Rightarrow> FileType \<Rightarrow> string \<Rightarrow> bool \<times> 'r) \<Rightarrow> ('n, 'l) fenv \<Rightarrow> u64 \<Rightarrow> i64 \<Rightarrow> 'r \<Rightarrow> ('n, 'l) QuicFs \<Rightarrow>
   ((nat + 'r) \<times> ('n, 'l) QuicFs) option" where
  "fuse_readdir add e ino offset r s =
     (case path_for ino s of
        None \<Rightarrow> Some (Inl ENOENT, s)
      | Some path \<Rightarrow>
          (case cm_readdir (fe_conn e) path (qf_conn s) of
             None \<Rightarrow> None
           | Some (Inl err, c) \<Rightarrow> Some (Inl (rpc_to_errno err), s\<lparr>qf_conn := c\<rparr>)
           | Some (Inr entries, c) \<Rightarrow>
               (case add_entries add path (drop (unat offset) (enumerate 0 entries)) r (s\<lparr>qf_conn := c\<rparr>) of
                  (r1, s1) \<Rightarrow> Some (Inr r1, s1))))"

definition fuse_statfs :: "('n, 'l) fenv \<Rightarrow> u64 \<Rightarrow> ('n, 'l) QuicFs \<Rightarrow> (nat + StatFs) \<times> ('n, 'l) QuicFs" where
  "fuse_statfs e ino s =
     (case on_conn (cm_statfs (fe_conn e) (unwrap_or ''/'' (path_for ino s))) s of
        (Inr fs, s1) \<Rightarrow> (Inr fs, s1)
      | (Inl err, s1) \<Rightarrow> (Inl (rpc_to_errno err), s1))"

end
