(* ===== verification/Fuse_Files.thy ===== *)
theory Fuse_Files
  imports Fuse_Ops
begin

text \<open>
  What an application sees of a mounted file: the buffered writes of a handle and the file on the
  server together behave like one local file. The locale \<open>remote_file\<close> is the contract the FUSE
  layer relies on: a connection over which reads and writes of one handle act on one file.
\<close>

locale remote_file =
  fixes ce :: "'n cenv" and h :: u64 and content :: "'n cm \<Rightarrow> bytes" and ready :: "'n cm \<Rightarrow> bool"
  assumes write_law: "ready c \<Longrightarrow> data \<noteq> [] \<Longrightarrow> unat off + length data < seek_limit \<Longrightarrow>
      \<exists>c'. cm_write ce h off data c = (Inr (word_of_nat (length data)), c') \<and>
        content c' = pwrite (unat off) data (content c) \<and> ready c' \<and> reconnect_gen c' = reconnect_gen c"
    and read_law: "ready c \<Longrightarrow> 0 < len \<Longrightarrow> len \<le> MAX_READ_REQUEST \<Longrightarrow> unat off + unat len < seek_limit \<Longrightarrow>
      \<exists>c'. cm_read ce h off len c = (Inr (take (unat len) (drop (unat off) (content c))), c') \<and>
        content c' = content c \<and> ready c' \<and> reconnect_gen c' = reconnect_gen c"

text \<open>The kernel's handle \<open>fh\<close> stands for the server's handle \<open>h\<close> on the current connection, and is the
  only one with buffered writes.\<close>

definition open_as :: "u64 \<Rightarrow> u64 \<Rightarrow> ('n, 'l) QuicFs \<Rightarrow> bool" where
  "open_as fh h s =
     (\<exists>f. qf_open_files s fh = Some f \<and> of_server_handle f = h \<and> of_opened_gen f = reconnect_gen (qf_conn s))"

definition only_handle :: "u64 \<Rightarrow> WriteBuffer \<Rightarrow> bool" where
  "only_handle fh wb =
     (wb_ok wb \<and> (wb_per_handle wb = [] \<or>
        (\<exists>hb. wb_per_handle wb = [(fh, hb)] \<and> \<not> hb_sending hb \<and> hb_chunks hb \<noteq> [])))"

text \<open>A write that fits: not empty, below the seek limit, and no larger than the soft limit.\<close>

definition fits :: "nat \<Rightarrow> u64 \<times> bytes \<Rightarrow> bool" where
  "fits n p = (snd p \<noteq> [] \<and> length (snd p) \<le> n \<and> in_range p)"

lemma ensure_live_open:
  "open_as fh h s \<Longrightarrow> ensure_live e fh allow s = (Some h, s)"
  by (auto simp: open_as_def ensure_live_def Let_def)

lemma only_handle_empty: "only_handle fh wb \<Longrightarrow> wb_per_handle wb = [] \<Longrightarrow> wb_total_bytes wb = 0"
  by (simp add: only_handle_def wb_ok_def)

lemma push_Reject_iff:
  "fst (push fh off data now wb) = Reject \<longleftrightarrow> wb_total_bytes wb + length data > wb_hard_total_bytes wb"
  by (simp add: push_def Let_def)

lemma only_handle_push:
  assumes "only_handle fh wb" and "wb_total_bytes wb + length data \<le> wb_hard_total_bytes wb"
    and "push fh off data now wb = (d, wb1)"
  shows "only_handle fh wb1" "queued wb1 fh = queued wb fh @ [(off, data)]" "wb_per_handle wb1 \<noteq> []"
    and "d = Buffered \<and> wb_total_bytes wb1 < wb_max_total_bytes wb1 \<or> d = FlushThis fh \<or> d = FlushOther fh"
    and "wb_max_total_bytes wb1 = wb_max_total_bytes wb" "wb_hard_total_bytes wb1 = wb_hard_total_bytes wb"
proof -
  have ok: "wb_ok wb1" using push_wb_ok [of wb fh off data now] assms(1,3) by (simp add: only_handle_def)
  obtain hb where hb: "wb_per_handle wb1 = [(fh, hb)]" "\<not> hb_sending hb" "hb_chunks hb \<noteq> []"
    using assms by (auto simp: only_handle_def push_def Let_def handle_buf_def)
  then show "only_handle fh wb1" "wb_per_handle wb1 \<noteq> []" using ok by (simp_all add: only_handle_def)
  have "d \<noteq> Reject" using assms(2) push_Reject_iff [of fh off data now wb] by (simp add: assms(3))
  with handle_buf_push [of fh off data now wb fh] assms(3)
  show "queued wb1 fh = queued wb fh @ [(off, data)]" by (simp add: queued_def chunk_pairs_def)
  show "d = Buffered \<and> wb_total_bytes wb1 < wb_max_total_bytes wb1 \<or> d = FlushThis fh \<or> d = FlushOther fh"
    using assms(2,3) hb(1) by (auto simp: push_def Let_def split: if_splits)
  show "wb_max_total_bytes wb1 = wb_max_total_bytes wb" "wb_hard_total_bytes wb1 = wb_hard_total_bytes wb"
    using assms(3) by (auto simp: push_def Let_def split: if_splits)
qed

lemma only_handle_flush:
  assumes "only_handle fh wb" and "wb_per_handle wb \<noteq> []"
  obtains batch wb1 where "begin_flush fh wb = (Some batch, wb1)"
    and "wb_per_handle (ack_flush fh (fb_sent_count batch) wb1) = []" and "wb_ok (ack_flush fh (fb_sent_count batch) wb1)"
    and "wb_max_total_bytes (ack_flush fh (fb_sent_count batch) wb1) = wb_max_total_bytes wb"
    and "wb_hard_total_bytes (ack_flush fh (fb_sent_count batch) wb1) = wb_hard_total_bytes wb"
proof -
  obtain hb where hb: "wb_per_handle wb = [(fh, hb)]" "\<not> hb_sending hb" "hb_chunks hb \<noteq> []"
    using assms by (auto simp: only_handle_def)
  obtain batch wb1 where b: "begin_flush fh wb = (Some batch, wb1)"
    using hb by (cases "begin_flush fh wb") (auto simp: begin_flush_def)
  have "wb_ok wb1" using begin_flush_wb_ok [of wb fh] assms(1) b by (simp add: only_handle_def)
  then have "wb_ok (ack_flush fh (fb_sent_count batch) wb1)" by (rule ack_flush_wb_ok)
  then show thesis
    by (rule that [OF b, rotated]) (use b hb in \<open>auto simp: begin_flush_def ack_flush_def Let_def\<close>)
qed

lemma coalesce_nonempty:
  "list_all (\<lambda>p. snd p \<noteq> []) merged \<Longrightarrow> list_all (\<lambda>p. snd p \<noteq> []) ps \<Longrightarrow>
   list_all (\<lambda>p. snd p \<noteq> []) (foldl coalesce_step merged ps)"
proof (induction ps arbitrary: merged)
  case (Cons p ps)
  have "list_all (\<lambda>p. snd p \<noteq> []) (coalesce_step merged p)"
    using Cons.prems by (cases merged rule: rev_cases) (auto simp: coalesce_step_def split_beta)
  with Cons show ?case by simp
qed simp

lemma batch_nonempty:
  assumes "begin_flush fh wb = (Some batch, wb1)" and "list_all (\<lambda>p. snd p \<noteq> []) (queued wb fh)"
  shows "list_all (\<lambda>p. snd p \<noteq> []) (fb_chunks batch)"
proof -
  obtain hb where hb: "map_of (wb_per_handle wb) fh = Some hb"
      "fb_chunks batch = foldl coalesce_step [] (sort_key fst (chunk_pairs hb))"
    using assms(1) by (rule begin_flush_batch)
  then have "list_all (\<lambda>p. snd p \<noteq> []) (sort_key fst (chunk_pairs hb))"
    using assms(2) by (simp add: queued_def handle_buf_def list_all_iff)
  then show ?thesis unfolding hb(2) by (rule coalesce_nonempty [rotated]) simp
qed

text \<open>The file an application sees: the one on the server with the buffered writes carried out.\<close>

definition file_view :: "('n cm \<Rightarrow> bytes) \<Rightarrow> u64 \<Rightarrow> ('n, 'l) QuicFs \<Rightarrow> bytes" where
  "file_view content fh s = write_pairs (queued (qf_write_buf s) fh) (content (qf_conn s))"

definition serving :: "('n cm \<Rightarrow> bool) \<Rightarrow> u64 \<Rightarrow> u64 \<Rightarrow> ('n, 'l) QuicFs \<Rightarrow> bool" where
  "serving ready fh h s =
     (ready (qf_conn s) \<and> open_as fh h s \<and> only_handle fh (qf_write_buf s) \<and>
      2 * wb_max_total_bytes (qf_write_buf s) \<le> wb_hard_total_bytes (qf_write_buf s) \<and>
      (wb_per_handle (qf_write_buf s) = [] \<or> wb_total_bytes (qf_write_buf s) < wb_max_total_bytes (qf_write_buf s)))"

text \<open>A sequence of writes through the mount, with the replies.\<close>

primrec fuse_writes ::
  "('n, 'l) fenv \<Rightarrow> u64 \<Rightarrow> u64 \<Rightarrow> (u64 \<times> bytes) list \<Rightarrow> ('n, 'l) QuicFs \<Rightarrow> (nat + u32) list \<times> ('n, 'l) QuicFs" where
  "fuse_writes e ino fh [] s = ([], s)"
| "fuse_writes e ino fh (w # ws) s =
     (case fuse_write e ino fh (fst w) (snd w) s of
        (r, s1) \<Rightarrow> case fuse_writes e ino fh ws s1 of (rs, s2) \<Rightarrow> (r # rs, s2))"

section \<open>Flushing, reading and writing\<close>

context remote_file
begin

lemma send_chunks_ok:
  "fe_conn e = ce \<Longrightarrow> ready (qf_conn s) \<Longrightarrow> list_all in_range ps \<Longrightarrow> list_all (\<lambda>p. snd p \<noteq> []) ps \<Longrightarrow>
   \<exists>c'. send_chunks e h ps s = (Inr (), s\<lparr>qf_conn := c'\<rparr>) \<and> content c' = write_pairs ps (content (qf_conn s)) \<and>
     ready c' \<and> reconnect_gen c' = reconnect_gen (qf_conn s)"
proof (induction ps arbitrary: s)
  case Nil
  then show ?case by (intro exI [of _ "qf_conn s"]) simp
next
  case (Cons p ps)
  obtain off data where p: "p = (off, data)" by (cases p)
  obtain c1 where c1: "cm_write ce h off data (qf_conn s) = (Inr (word_of_nat (length data)), c1)"
      "content c1 = pwrite (unat off) data (content (qf_conn s))" "ready c1" "reconnect_gen c1 = reconnect_gen (qf_conn s)"
    using write_law [of "qf_conn s" data off] Cons.prems by (auto simp: p in_range_def)
  let ?s = "s\<lparr>qf_conn := c1\<rparr>"
  have "on_conn (cm_write (fe_conn e) h off data) s = (Inr (word_of_nat (length data)), ?s)"
    using c1(1) Cons.prems(1) by (simp add: on_conn_def)
  then have "send_chunks e h (p # ps) s = send_chunks e h ps ?s" by (simp add: p)
  moreover obtain c' where "send_chunks e h ps ?s = (Inr (), ?s\<lparr>qf_conn := c'\<rparr>)"
      "content c' = write_pairs ps (content c1)" "ready c'" "reconnect_gen c' = reconnect_gen c1"
    using Cons.IH [of ?s] Cons.prems c1(3) by auto
  ultimately show ?case using c1(2,4) by (intro exI [of _ c']) (simp add: p)
qed

lemma flush_handle_ok:
  assumes "fe_conn e = ce" and "ready (qf_conn s)" and "open_as fh h s" and "only_handle fh (qf_write_buf s)"
    and "list_all (fits n) (queued (qf_write_buf s) fh)" and "reorder_safe (queued (qf_write_buf s) fh)"
  obtains c' wb' where "flush_handle e fh s = (Inr (), s\<lparr>qf_conn := c', qf_write_buf := wb'\<rparr>)"
    and "content c' = write_pairs (queued (qf_write_buf s) fh) (content (qf_conn s))"
    and "ready c'" and "reconnect_gen c' = reconnect_gen (qf_conn s)" and "wb_per_handle wb' = []" and "wb_ok wb'"
    and "wb_max_total_bytes wb' = wb_max_total_bytes (qf_write_buf s)"
    and "wb_hard_total_bytes wb' = wb_hard_total_bytes (qf_write_buf s)"
proof (cases "wb_per_handle (qf_write_buf s) = []")
  case True
  then have "begin_flush fh (qf_write_buf s) = (None, qf_write_buf s)" "queued (qf_write_buf s) fh = []"
    by (simp_all add: begin_flush_def queued_def handle_buf_def chunk_pairs_def)
  then show thesis
    using that [where c' = "qf_conn s" and wb' = "qf_write_buf s"] True assms
    by (simp add: flush_handle_def flush_one_def numeral_2_eq_2 ensure_live_open only_handle_def)
next
  case False
  let ?wb = "qf_write_buf s"
  obtain batch wb1 where b: "begin_flush fh ?wb = (Some batch, wb1)"
      "wb_per_handle (ack_flush fh (fb_sent_count batch) wb1) = []" "wb_ok (ack_flush fh (fb_sent_count batch) wb1)"
      "wb_max_total_bytes (ack_flush fh (fb_sent_count batch) wb1) = wb_max_total_bytes ?wb"
      "wb_hard_total_bytes (ack_flush fh (fb_sent_count batch) wb1) = wb_hard_total_bytes ?wb"
    by (rule only_handle_flush [OF assms(4) False])
  have q: "list_all in_range (queued ?wb fh)" "list_all (\<lambda>p. snd p \<noteq> []) (queued ?wb fh)"
    using assms(5) by (simp_all add: fits_def list_all_iff)
  let ?s = "s\<lparr>qf_write_buf := wb1\<rparr>"
  obtain c' where c': "send_chunks e h (fb_chunks batch) ?s = (Inr (), ?s\<lparr>qf_conn := c'\<rparr>)"
      "content c' = write_pairs (fb_chunks batch) (content (qf_conn s))" "ready c'" "reconnect_gen c' = reconnect_gen (qf_conn s)"
    using send_chunks_ok [OF assms(1), of ?s "fb_chunks batch"] assms(2)
      begin_flush_writes(2) [OF b(1) q(1) assms(6)] batch_nonempty [OF b(1) q(2)] by auto
  have "flush_handle e fh s = (Inr (), s\<lparr>qf_conn := c', qf_write_buf := ack_flush fh (fb_sent_count batch) wb1\<rparr>)"
    by (simp add: flush_handle_def flush_one_def numeral_2_eq_2 ensure_live_open [OF assms(3)] b(1) c'(1) Let_def)
  then show thesis
    by (rule that) (use c' b begin_flush_writes(1) [OF b(1) q(1) assms(6)] in simp_all)
qed

lemma flush_serving:
  assumes "fe_conn e = ce" and "ready (qf_conn s)" and "open_as fh h s" and "only_handle fh (qf_write_buf s)"
    and "2 * wb_max_total_bytes (qf_write_buf s) \<le> wb_hard_total_bytes (qf_write_buf s)"
    and "list_all (fits n) (queued (qf_write_buf s) fh)" and "reorder_safe (queued (qf_write_buf s) fh)"
  obtains s' where "flush_handle e fh s = (Inr (), s')" and "serving ready fh h s'"
    and "content (qf_conn s') = file_view content fh s" and "file_view content fh s' = file_view content fh s"
    and "queued (qf_write_buf s') fh = []" and "qf_write_errors s' = qf_write_errors s"
    and "wb_max_total_bytes (qf_write_buf s') = wb_max_total_bytes (qf_write_buf s)"
proof -
  obtain c' wb' where f: "flush_handle e fh s = (Inr (), s\<lparr>qf_conn := c', qf_write_buf := wb'\<rparr>)"
      "content c' = write_pairs (queued (qf_write_buf s) fh) (content (qf_conn s))"
      "ready c'" "reconnect_gen c' = reconnect_gen (qf_conn s)" "wb_per_handle wb' = []" "wb_ok wb'"
      "wb_max_total_bytes wb' = wb_max_total_bytes (qf_write_buf s)"
      "wb_hard_total_bytes wb' = wb_hard_total_bytes (qf_write_buf s)"
    by (rule flush_handle_ok [OF assms(1-4,6,7)])
  then have "queued wb' fh = []" by (simp add: queued_def handle_buf_def chunk_pairs_def)
  then show thesis
    by (intro that [of "s\<lparr>qf_conn := c', qf_write_buf := wb'\<rparr>"])
      (use f assms(3,5) in \<open>simp_all add: serving_def only_handle_def open_as_def file_view_def queued_def handle_buf_def chunk_pairs_def\<close>)
qed

lemma fuse_write_serving:
  assumes "fe_conn e = ce" and "serving ready fh h s"
    and "list_all (fits (wb_max_total_bytes (qf_write_buf s))) (queued (qf_write_buf s) fh @ [(off, data)])"
    and "reorder_safe (queued (qf_write_buf s) fh @ [(off, data)])"
  obtains s' where "fuse_write e ino fh off data s = (Inr (word_of_nat (length data)), s')" and "serving ready fh h s'"
    and "file_view content fh s' = pwrite (unat off) data (file_view content fh s)"
    and "queued (qf_write_buf s') fh = queued (qf_write_buf s) fh @ [(off, data)] \<or> queued (qf_write_buf s') fh = []"
    and "qf_write_errors s' = qf_write_errors s"
    and "wb_max_total_bytes (qf_write_buf s') = wb_max_total_bytes (qf_write_buf s)"
proof -
  define s0 where "s0 = (case path_for ino s of Some path \<Rightarrow> invalidate_cache e path s | None \<Rightarrow> s)"
  have s0: "qf_conn s0 = qf_conn s" "qf_write_buf s0 = qf_write_buf s" "qf_open_files s0 = qf_open_files s"
      "qf_write_errors s0 = qf_write_errors s"
    by (simp_all add: s0_def invalidate_cache_def split: option.split)
  have srv: "ready (qf_conn s)" "open_as fh h s0" "only_handle fh (qf_write_buf s)"
      "2 * wb_max_total_bytes (qf_write_buf s) \<le> wb_hard_total_bytes (qf_write_buf s)"
    using assms(2) by (simp_all add: serving_def open_as_def s0)
  obtain d wb1 where d: "push fh off data (instant e s0) (qf_write_buf s) = (d, wb1)" by fastforce
  have "wb_total_bytes (qf_write_buf s) \<le> wb_max_total_bytes (qf_write_buf s)"
    using assms(2) only_handle_empty [OF srv(3)] by (auto simp: serving_def)
  moreover have "length data \<le> wb_max_total_bytes (qf_write_buf s)" using assms(3) by (simp add: fits_def)
  ultimately have "wb_total_bytes (qf_write_buf s) + length data \<le> wb_hard_total_bytes (qf_write_buf s)"
    using srv(4) by simp
  note p = only_handle_push [OF srv(3) this d]
  let ?s1 = "s0\<lparr>qf_write_buf := wb1\<rparr>"
  have view: "file_view content fh ?s1 = pwrite (unat off) data (file_view content fh s)"
    by (simp add: file_view_def p(2) s0)
  have w: "fuse_write e ino fh off data s =
      (Inr (word_of_nat (length data)), if d = Buffered then ?s1 else snd (flush_handle e fh ?s1))"
    using p(4) by (auto simp: fuse_write_def live_handle_def ensure_live_open [OF srv(2)] s0(2) d Let_def simp flip: s0_def)
  show thesis
  proof (cases "d = Buffered")
    case True
    then have "serving ready fh h ?s1" using srv p by (auto simp: serving_def open_as_def s0)
    with True w view p show thesis by (intro that [of ?s1]) (simp_all add: s0)
  next
    case False
    have s1: "ready (qf_conn ?s1)" "open_as fh h ?s1" "only_handle fh (qf_write_buf ?s1)"
        "2 * wb_max_total_bytes (qf_write_buf ?s1) \<le> wb_hard_total_bytes (qf_write_buf ?s1)"
        "list_all (fits (wb_max_total_bytes (qf_write_buf s))) (queued (qf_write_buf ?s1) fh)"
        "reorder_safe (queued (qf_write_buf ?s1) fh)"
      using srv p assms(3,4) by (simp_all add: s0 open_as_def)
    obtain s' where "flush_handle e fh ?s1 = (Inr (), s')" "serving ready fh h s'"
        "file_view content fh s' = file_view content fh ?s1" "queued (qf_write_buf s') fh = []"
        "qf_write_errors s' = qf_write_errors ?s1"
        "wb_max_total_bytes (qf_write_buf s') = wb_max_total_bytes (qf_write_buf ?s1)"
      by (rule flush_serving [OF assms(1) s1])
    with False w view p show thesis by (intro that [of s']) (simp_all add: s0)
  qed
qed

lemma fuse_writes_serving:
  assumes "fe_conn e = ce" and "serving ready fh h s" and "n = wb_max_total_bytes (qf_write_buf s)"
    and "list_all (fits n) (queued (qf_write_buf s) fh @ ws)" and "reorder_safe (queued (qf_write_buf s) fh @ ws)"
  shows "\<exists>s'. fuse_writes e ino fh ws s = (map (\<lambda>w. Inr (word_of_nat (length (snd w)))) ws, s') \<and>
    serving ready fh h s' \<and> file_view content fh s' = write_pairs ws (file_view content fh s) \<and>
    list_all (fits n) (queued (qf_write_buf s') fh) \<and> reorder_safe (queued (qf_write_buf s') fh) \<and>
    qf_write_errors s' = qf_write_errors s"
  using assms(2-5)
proof (induction ws arbitrary: s)
  case (Cons w ws)
  obtain off data where w: "w = (off, data)" by (cases w)
  have q: "list_all (fits (wb_max_total_bytes (qf_write_buf s))) (queued (qf_write_buf s) fh @ [(off, data)])"
      "reorder_safe (queued (qf_write_buf s) fh @ [(off, data)])"
    using Cons.prems by (simp_all add: w reorder_safe_def sorted_wrt_append)
  obtain s1 where s1: "fuse_write e ino fh off data s = (Inr (word_of_nat (length data)), s1)" "serving ready fh h s1"
      "file_view content fh s1 = pwrite (unat off) data (file_view content fh s)"
      "queued (qf_write_buf s1) fh = queued (qf_write_buf s) fh @ [(off, data)] \<or> queued (qf_write_buf s1) fh = []"
      "qf_write_errors s1 = qf_write_errors s"
      "wb_max_total_bytes (qf_write_buf s1) = wb_max_total_bytes (qf_write_buf s)"
    by (rule fuse_write_serving [OF assms(1) Cons.prems(1) q])
  have "list_all (fits n) (queued (qf_write_buf s1) fh @ ws)" "reorder_safe (queued (qf_write_buf s1) fh @ ws)"
    using s1(4) Cons.prems(3,4) by (elim disjE; simp add: w reorder_safe_def sorted_wrt_append)+
  then obtain s' where "fuse_writes e ino fh ws s1 = (map (\<lambda>w. Inr (word_of_nat (length (snd w)))) ws, s')"
      "serving ready fh h s'" "file_view content fh s' = write_pairs ws (file_view content fh s1)"
      "list_all (fits n) (queued (qf_write_buf s') fh)" "reorder_safe (queued (qf_write_buf s') fh)"
      "qf_write_errors s' = qf_write_errors s1"
    using Cons.IH [OF s1(2)] Cons.prems(2) s1(6) by auto
  with s1 show ?case by (intro exI [of _ s']) (simp add: w)
qed simp

lemma fuse_read_serving:
  assumes "fe_conn e = ce" and "serving ready fh h s"
    and "list_all (fits n) (queued (qf_write_buf s) fh)" and "reorder_safe (queued (qf_write_buf s) fh)"
    and "0 < len" and "len \<le> MAX_READ_REQUEST" and "unat off + unat len < seek_limit"
  obtains s' where "fuse_read e fh off len s = (Inr (take (unat len) (drop (unat off) (file_view content fh s))), s')"
    and "content (qf_conn s') = file_view content fh s"
proof -
  have srv: "ready (qf_conn s)" "open_as fh h s" "only_handle fh (qf_write_buf s)"
      "2 * wb_max_total_bytes (qf_write_buf s) \<le> wb_hard_total_bytes (qf_write_buf s)"
    using assms(2) by (simp_all add: serving_def)
  obtain s1 where s1: "flush_handle e fh s = (Inr (), s1)" "serving ready fh h s1" "content (qf_conn s1) = file_view content fh s"
    by (rule flush_serving [OF assms(1) srv assms(3,4)])
  then have live: "live_handle e fh s1 = (Some h, s1)"
    by (simp add: live_handle_def ensure_live_open serving_def)
  obtain c2 where "cm_read ce h off len (qf_conn s1) = (Inr (take (unat len) (drop (unat off) (content (qf_conn s1)))), c2)"
      "content c2 = content (qf_conn s1)"
    using read_law [OF _ assms(5-7)] s1(2) unfolding serving_def by blast
  then show thesis
    by (intro that [of "s1\<lparr>qf_conn := c2\<rparr>"]) (simp_all add: fuse_read_def s1 live on_conn_def assms(1))
qed

lemma fuse_flush_serving:
  assumes "fe_conn e = ce" and "serving ready fh h s" and "fh \<notin> qf_write_errors s"
    and "list_all (fits n) (queued (qf_write_buf s) fh)" and "reorder_safe (queued (qf_write_buf s) fh)"
  obtains s' where "fuse_flush e fh s = (Inr (), s')" and "content (qf_conn s') = file_view content fh s"
proof -
  have srv: "ready (qf_conn s)" "open_as fh h s" "only_handle fh (qf_write_buf s)"
      "2 * wb_max_total_bytes (qf_write_buf s) \<le> wb_hard_total_bytes (qf_write_buf s)"
    using assms(2) by (simp_all add: serving_def)
  obtain s1 where s1: "flush_handle e fh s = (Inr (), s1)" "content (qf_conn s1) = file_view content fh s"
      "queued (qf_write_buf s1) fh = []" "qf_write_errors s1 = qf_write_errors s"
    by (rule flush_serving [OF assms(1) srv assms(4,5)])
  then have "flush_handle_drain e fh s = (Inr (), s1)"
    using drain_loop.simps(2) [of 499 e fh s]
    by (simp add: flush_handle_drain_def has_buffered_queued del: drain_loop.simps)
  then show thesis
    using s1 assms(3)
    by (intro that [of "s1\<lparr>qf_write_errors := qf_write_errors s1 - {fh}\<rparr>"]) (simp_all add: fuse_flush_def drain_and_reply_def Let_def flush_reply_def)
qed

end

end
