(* ===== verification/Fuse_Loop.thy ===== *)
theory Fuse_Loop
  imports Fuse_Files Loopback
begin

text \<open>
  The whole path of a file access: FUSE callbacks, write buffer, connection manager, frames, the
  server's handlers and the file system, composed. The contract of \<open>remote_file\<close> is met by a
  connection to the server of \<open>Loopback\<close>.
\<close>

text \<open>The server holds the handle \<open>h\<close> open on the file \<open>f\<close>, not for appending; disk and codec work.\<close>

definition loop_ready ::
  "'fs os \<Rightarrow> server_codec \<Rightarrow> client_codec \<Rightarrow> fd \<Rightarrow> ('fs \<Rightarrow> bytes) \<Rightarrow> ('fs \<Rightarrow> nat) \<Rightarrow> u64 \<Rightarrow> 'fs world cm \<Rightarrow> bool" where
  "loop_ready os sc cc f cont pos h c =
     (codec_ok sc cc \<and> reads_encode sc \<and> reads_ok os f cont pos \<and> writes_ok os f cont pos \<and>
      (\<forall>sq t. encodes sc (write_response sq St_Ok t)) \<and> (\<forall>q. req_encodes cc (Q_Read q)) \<and>
      (\<forall>q. length (wq_data q) \<le> max 1 (unat (mc_chunk_size (cm_cfg c))) \<longrightarrow> req_encodes cc (Q_Write q)) \<and>
      cm_conn c \<and> get_file (ss_handles (lw_session (cm_net c))) h = Some f \<and>
      (\<exists>flags key. get_write_ctx (ss_handles (lw_session (cm_net c))) h = Some (f, flags, key) \<and> flags AND 0x400 = 0))"

lemma chunks_of_length: "c \<in> set (chunks_of n xs) \<Longrightarrow> length c \<le> n"
proof (induction n xs rule: chunks_of.induct)
  case (1 n xs)
  then show ?case by (subst (asm) (2) chunks_of.simps) (auto split: if_splits)
qed

lemma write_requests_encode:
  assumes "\<And>q. length (wq_data q) \<le> n \<Longrightarrow> req_encodes cc (Q_Write q)"
  shows "list_all (req_encodes cc) (write_requests sq h off n (chunks_of n data))"
  using assms chunks_of_length [of _ n data]
  by (auto simp: write_requests_def list_all_iff dest!: in_set_enumerate_eq [THEN iffD1])

lemma loop_ready_same:
  assumes "loop_ready os sc cc f cont pos h c" and "ss_handles (lw_session w) = ss_handles (lw_session (cm_net c))"
  shows "loop_ready os sc cc f cont pos h (c\<lparr>cm_seq := sq, cm_net := w\<rparr>)"
  using assms by (simp add: loop_ready_def)

interpretation lf: remote_file "loop_cenv os sc cc ph root cert cr" h "\<lambda>c. cont (lw_fs (cm_net c))"
  "loop_ready os sc cc f cont pos h"
proof (unfold_locales, goal_cases)
  case (1 c data off)
  let ?cs = "max 1 (unat (mc_chunk_size (cm_cfg c)))"
  obtain flags key where k: "get_write_ctx (ss_handles (lw_session (cm_net c))) h = Some (f, flags, key)" "flags AND 0x400 = 0"
    using 1(1) by (auto simp: loop_ready_def)
  have "list_all (req_encodes cc) (write_requests (cm_seq c) h off ?cs (chunks_of ?cs data))"
    using 1(1) by (intro write_requests_encode) (simp add: loop_ready_def)
  then obtain w where "cm_write (loop_cenv os sc cc ph root cert cr) h off data c =
      (Inr (word_of_nat (length data)), c\<lparr>cm_seq := cm_seq c + 1, cm_net := w\<rparr>)"
      "cont (lw_fs w) = pwrite (unat off) data (cont (lw_fs (cm_net c)))"
      "ss_handles (lw_session w) = ss_handles (lw_session (cm_net c))"
    using cm_write_loop [where os = os and sc = sc and cc = cc and f = f and cont = cont and pos = pos and c = c
        and h = h and flags = flags and key = key and data = data and off = off and cs = ?cs
        and ph = ph and root = root and cert = cert and cr = cr] 1 k
    by (auto simp: loop_ready_def)
  with loop_ready_same [OF 1(1)] show ?case by (auto simp: reconnect_gen_def)
next
  case (2 c len off)
  then obtain w where "cm_read (loop_cenv os sc cc ph root cert cr) h off len c =
      (Inr (take (unat len) (drop (unat off) (cont (lw_fs (cm_net c))))), c\<lparr>cm_seq := cm_seq c + 1, cm_net := w\<rparr>)"
      "cont (lw_fs w) = cont (lw_fs (cm_net c))" "ss_handles (lw_session w) = ss_handles (lw_session (cm_net c))"
    using cm_read_loop [where os = os and sc = sc and cc = cc and f = f and cont = cont and pos = pos and c = c
        and h = h and off = off and len = len and ph = ph and root = root and cert = cert and cr = cr]
    by (auto simp: loop_ready_def)
  with loop_ready_same [OF 2(1)] show ?case by (auto simp: reconnect_gen_def)
qed


text \<open>The instance: the file of \<open>mem_cm\<close>, opened as the kernel's handle 1.\<close>

definition mem_fenv :: "(mem_fs world, nat \<times> (string \<times> Entry) list) fenv" where
  "mem_fenv = \<lparr>fe_conn = loop_cenv mem_os wire_sc wire_cc (\<lambda>_. 0) ''/srv'' [] toy_crypto, fe_lru = list_lru,
     fe_now = (\<lambda>_. 0), fe_wall = (\<lambda>_. 0), fe_sleep = (\<lambda>_ s. s)\<rparr>"

definition mem_qfs :: "(mem_fs world, nat \<times> (string \<times> Entry) list) QuicFs" where
  "mem_qfs = (quicfs_new list_lru (mem_cm [10, 11] []) cache_config_default
       \<lparr>wc_max_per_handle_bytes = 4, wc_max_total_bytes = 8, wc_window_ms = 10\<rparr> None None ''/'')
     \<lparr>qf_open_files := [1 \<mapsto> \<lparr>of_path = ''/a'', of_flags = 2, of_server_handle = 1, of_opened_gen = 0, of_is_append = False\<rparr>]\<rparr>"

lemma mem_loop_ready: "loop_ready mem_os wire_sc wire_cc 3 mf_data mf_pos 1 (mem_cm data names)"
proof -
  have "req_encodes wire_cc (Q_Read q)" for q
    by (simp add: req_encodes_def wire_cc_def enc_req_def MAX_FRAME_SIZE_def)
  moreover have "req_encodes wire_cc (Q_Write q)" if "length (wq_data q) \<le> 2" for q
    using that by (simp add: req_encodes_def wire_cc_def enc_req_def MAX_FRAME_SIZE_def)
  ultimately show ?thesis
    by (simp add: loop_ready_def wire_codec_ok wire_reads_encode mem_reads_ok mem_writes_ok wire_writes_encode)
qed


end
