(* ===== verification/Fuse_Safety.thy ===== *)
theory Fuse_Safety
  imports Fuse_Loop
begin

text \<open>
  No acknowledged write is lost in silence: whatever the network does, a write leaves the buffer
  because the server acknowledged it, or the handle carries a sticky error that the next close or
  fsync reports.
\<close>

section \<open>Accounting for buffered writes\<close>

text \<open>What a flush sends for a queue.\<close>

definition flush_runs :: "(u64 \<times> bytes) list \<Rightarrow> (u64 \<times> bytes) list" where
  "flush_runs q = foldl coalesce_step [] (sort_key fst q)"

text \<open>What happens to the writes queued for \<open>fh\<close> between two states: the run \<open>wrun e fh s q s'\<close> leads from
  \<open>s\<close> to \<open>s'\<close> by steps of the client, and exactly the writes \<open>q\<close> left the queue on the way, piece by
  piece, each when the server had acknowledged all of it on the handle's current server handle (or
  when it held no byte at all).\<close>

inductive wrun :: "('n, 'l) fenv \<Rightarrow> u64 \<Rightarrow> ('n, 'l) QuicFs \<Rightarrow> (u64 \<times> bytes) list \<Rightarrow> ('n, 'l) QuicFs \<Rightarrow> bool"
  for e :: "('n, 'l) fenv" and fh :: u64 and s :: "('n, 'l) QuicFs" where
  Start: "wrun e fh s [] s"
| Local: "wrun e fh s q s1 \<Longrightarrow> qf_conn s2 = qf_conn s1 \<Longrightarrow>
    queued (qf_write_buf s2) fh = queued (qf_write_buf s1) fh \<Longrightarrow> wrun e fh s q s2"
| Reopen: "wrun e fh s q s1 \<Longrightarrow> wrun e fh s q (snd (on_conn (cm_open (fe_conn e) path flags) s1))"
| Send: "wrun e fh s q s1 \<Longrightarrow> wrun e fh s q (snd (send_chunks e server_handle ps s1))"
| Acked: "wrun e fh s q s1 \<Longrightarrow> queued (qf_write_buf s1) fh = q1 @ queued (qf_write_buf s3) fh \<Longrightarrow>
    map_option of_server_handle (qf_open_files s1 fh) = Some server_handle \<Longrightarrow>
    send_chunks e server_handle (flush_runs q1) s1 = (Inr (), s2) \<Longrightarrow> qf_conn s3 = qf_conn s2 \<Longrightarrow>
    wrun e fh s (q @ q1) s3"
| Void: "wrun e fh s q s1 \<Longrightarrow> queued (qf_write_buf s1) fh = q1 @ queued (qf_write_buf s2) fh \<Longrightarrow>
    list_all (\<lambda>p. snd p = []) q1 \<Longrightarrow> qf_conn s2 = qf_conn s1 \<Longrightarrow> wrun e fh s (q @ q1) s2"

definition settled :: "('n, 'l) fenv \<Rightarrow> ('n, 'l) QuicFs \<Rightarrow> ('n, 'l) QuicFs \<Rightarrow> bool" where
  "settled e s s' =
     (qf_write_errors s \<subseteq> qf_write_errors s' \<and> (\<forall>fh. fh \<in> qf_write_errors s' \<or> (\<exists>q. wrun e fh s q s')))"

lemma on_conn_frame: "\<exists>c. snd (on_conn m s) = s\<lparr>qf_conn := c\<rparr>"
  by (cases "m (qf_conn s)") (auto simp: on_conn_def)

lemma send_chunks_frame: "\<exists>c. snd (send_chunks e sh ps s) = s\<lparr>qf_conn := c\<rparr>"
proof (induction ps arbitrary: s)
  case Nil
  then show ?case by (intro exI [of _ "qf_conn s"]) simp
next
  case (Cons p ps)
  obtain off data where p: "p = (off, data)" by (cases p)
  obtain r c where w: "cm_write (fe_conn e) sh off data (qf_conn s) = (r, c)" by fastforce
  from Cons.IH [of "s\<lparr>qf_conn := c\<rparr>"] show ?case by (cases r) (auto simp: p w on_conn_def andthen_def)
qed

lemma on_conn_keeps [simp]:
  "qf_write_buf (snd (on_conn m s)) = qf_write_buf s" "qf_write_errors (snd (on_conn m s)) = qf_write_errors s"
  using on_conn_frame [of m s] by auto

lemma send_chunks_keeps [simp]:
  "qf_write_buf (snd (send_chunks e sh ps s)) = qf_write_buf s"
  "qf_write_errors (snd (send_chunks e sh ps s)) = qf_write_errors s"
  using send_chunks_frame [of e sh ps s] by auto

lemma wrun_queue: "wrun e fh s q s' \<Longrightarrow> queued (qf_write_buf s) fh = q @ queued (qf_write_buf s') fh"
  by (induction rule: wrun.induct) simp_all

lemma wrun_trans:
  assumes "wrun e fh s q s1" and "wrun e fh s1 q' s2"
  shows "wrun e fh s (q @ q') s2"
  using assms(2)
proof (induction rule: wrun.induct)
  case (Acked q2 s2 q1 s3 sh s4)
  show ?case using wrun.Acked [OF Acked.IH Acked.hyps(2-5)] by simp
next
  case (Void q2 s2 q1 s3)
  show ?case using wrun.Void [OF Void.IH Void.hyps(2-4)] by simp
qed (auto intro: assms(1) wrun.intros)

lemma settled_refl: "settled e s s"
  by (auto simp: settled_def intro: wrun.Start)

lemma settled_trans:
  assumes "settled e s s1" and "settled e s1 s2"
  shows "settled e s s2"
  using assms wrun_trans unfolding settled_def by blast

lemma settled_local:
  "qf_conn s' = qf_conn s \<Longrightarrow> qf_write_errors s \<subseteq> qf_write_errors s' \<Longrightarrow>
   (\<And>fh. queued (qf_write_buf s') fh = queued (qf_write_buf s) fh) \<Longrightarrow> settled e s s'"
  unfolding settled_def by (blast intro: wrun.Local wrun.Start)

lemma settled_reopen: "settled e s (snd (on_conn (cm_open (fe_conn e) path flags) s))"
  by (auto simp: settled_def intro: wrun.Reopen wrun.Start)

lemma settled_send: "settled e s (snd (send_chunks e sh ps s))"
  by (auto simp: settled_def intro: wrun.Send wrun.Start)

text \<open>The queue of one handle goes, the others stay.\<close>

lemma settled_drop:
  assumes "qf_conn s' = qf_conn s" and "qf_write_errors s \<subseteq> qf_write_errors s'"
    and "\<And>k. k \<noteq> fh \<Longrightarrow> queued (qf_write_buf s') k = queued (qf_write_buf s) k"
    and "queued (qf_write_buf s') fh = []"
    and "fh \<in> qf_write_errors s' \<or> list_all (\<lambda>p. snd p = []) (queued (qf_write_buf s) fh)"
  shows "settled e s s'"
  unfolding settled_def
proof (intro conjI allI)
  fix k
  show "k \<in> qf_write_errors s' \<or> (\<exists>q. wrun e k s q s')"
  proof (cases "k = fh")
    case True
    with assms(1,4,5) wrun.Void [OF wrun.Start, of s fh "queued (qf_write_buf s) fh" s' e] show ?thesis by auto
  next
    case False
    with assms(1,3) show ?thesis by (blast intro: wrun.Local wrun.Start)
  qed
qed (rule assms(2))

text \<open>An acknowledged batch.\<close>

lemma settled_ack:
  assumes "send_chunks e sh (flush_runs (queued (qf_write_buf s) fh)) s = (Inr (), t)"
    and "map_option of_server_handle (qf_open_files s fh) = Some sh"
    and "u = t\<lparr>qf_write_buf := wb\<rparr>" and "queued wb fh = []"
    and "\<And>k. k \<noteq> fh \<Longrightarrow> queued wb k = queued (qf_write_buf s) k"
  shows "settled e s u"
  unfolding settled_def
proof (intro conjI allI)
  have t: "t = snd (send_chunks e sh (flush_runs (queued (qf_write_buf s) fh)) s)" by (simp add: assms(1))
  show "qf_write_errors s \<subseteq> qf_write_errors u" by (simp add: assms(3) t)
  fix k
  show "k \<in> qf_write_errors u \<or> (\<exists>q. wrun e k s q u)"
  proof (cases "k = fh")
    case True
    have "wrun e fh s ([] @ queued (qf_write_buf s) fh) u"
      by (rule wrun.Acked [OF wrun.Start _ assms(2,1)]) (simp_all add: assms(3,4))
    with True show ?thesis by blast
  next
    case False
    have "qf_write_buf t = qf_write_buf s" by (simp add: t)
    with False have "wrun e k s [] u"
      by (intro wrun.Local [OF wrun.Send [OF wrun.Start, of _ k s sh "flush_runs (queued (qf_write_buf s) fh)"]])
        (simp_all add: assms(3,5) flip: t)
    then show ?thesis by blast
  qed
qed

lemma queued_drop: "queued (snd (drop_handle fh wb)) k = (if k = fh then [] else queued wb k)"
  by (simp add: queued_def handle_buf_drop chunk_pairs_def)

lemma queued_fail: "queued (fail_flush fh wb) k = queued wb k"
  by (simp add: queued_def handle_buf_fail chunk_pairs_def)

lemma queued_begin: "begin_flush fh wb = (b, wb') \<Longrightarrow> queued wb' k = queued wb k"
proof (cases b)
  case None
  then show "begin_flush fh wb = (b, wb') \<Longrightarrow> queued wb' k = queued wb k"
    by (auto simp: begin_flush_def split: option.splits if_splits)
next
  case (Some batch)
  then show "begin_flush fh wb = (b, wb') \<Longrightarrow> queued wb' k = queued wb k"
    using handle_buf_begin(1) [of fh wb batch wb' k] by (simp add: queued_def chunk_pairs_def)
qed

lemma queued_ack_batch:
  assumes "begin_flush fh wb = (Some batch, wb')"
  shows "queued (ack_flush fh (fb_sent_count batch) wb') k = (if k = fh then [] else queued wb k)"
    and "fb_chunks batch = flush_runs (queued wb fh)"
proof -
  note b = handle_buf_begin [OF assms]
  show "queued (ack_flush fh (fb_sent_count batch) wb') k = (if k = fh then [] else queued wb k)"
    by (simp add: queued_def handle_buf_ack b chunk_pairs_def)
  show "fb_chunks batch = flush_runs (queued wb fh)"
    using assms by (rule begin_flush_batch) (simp add: flush_runs_def queued_def handle_buf_def)
qed

lemma drop_handle_void: "fst (drop_handle fh wb) = 0 \<Longrightarrow> list_all (\<lambda>p. snd p = []) (queued wb fh)"
  by (auto simp: drop_handle_def queued_def handle_buf_def chunk_pairs_def hb_bytes_def list_all_iff split: option.splits)

section \<open>Flushing\<close>

lemma drop_sticky_settled: "settled e s (drop_sticky fh s)"
proof -
  obtain n wb where d: "drop_handle fh (qf_write_buf s) = (n, wb)" by fastforce
  have "fh \<in> qf_write_errors (drop_sticky fh s) \<or> list_all (\<lambda>p. snd p = []) (queued (qf_write_buf s) fh)"
    using drop_handle_void [of fh "qf_write_buf s"] by (simp add: drop_sticky_def d)
  then show ?thesis
    by (intro settled_drop [of _ s fh])
      (use queued_drop [of fh "qf_write_buf s"] in \<open>auto simp: drop_sticky_def d\<close>)
qed

lemma drop_sticky_open: "qf_open_files (drop_sticky fh s) = qf_open_files s"
  by (simp add: drop_sticky_def split: prod.split)

lemma ensure_live_settled:
  assumes "ensure_live e fh allow s = (r, s1)"
  shows "settled e s s1"
    and "r = Some sh \<Longrightarrow> map_option of_server_handle (qf_open_files s1 fh) = Some sh"
proof -
  let ?open = "\<lambda>f. on_conn (cm_open (fe_conn e) (of_path f) (of_flags f AND 0x3 OR of_flags f AND O_APPEND)) s"
  have "settled e s s1 \<and> (r = Some sh \<longrightarrow> map_option of_server_handle (qf_open_files s1 fh) = Some sh)"
  proof (cases "\<exists>f. qf_open_files s fh = Some f \<and> of_opened_gen f \<noteq> reconnect_gen (qf_conn s) \<and> allow")
    case False
    with assms have "s1 = s" "r = Some sh \<longrightarrow> map_option of_server_handle (qf_open_files s fh) = Some sh"
      by (auto simp: ensure_live_def Let_def split: option.splits if_splits)
    then show ?thesis by (simp add: settled_refl)
  next
    case True
    then obtain f where f: "qf_open_files s fh = Some f" "of_opened_gen f \<noteq> reconnect_gen (qf_conn s)" allow by blast
    obtain o1 t where o: "?open f = (o1, t)" by fastforce
    have t: "settled e s t" using settled_reopen [of e s "of_path f" "of_flags f AND 0x3 OR of_flags f AND O_APPEND"] o by simp
    show ?thesis
    proof (cases o1)
      case (Inl err)
      with assms f o t show ?thesis by (auto simp: ensure_live_def Let_def)
    next
      case (Inr p)
      obtain nh st where p: "p = (nh, st)" by (cases p)
      define t2 where "t2 = t\<lparr>qf_open_files := (qf_open_files t)(fh \<mapsto>
         f\<lparr>of_server_handle := nh, of_opened_gen := reconnect_gen (qf_conn s)\<rparr>)\<rparr>"
      have r: "r = Some nh" "s1 = t2 \<or> s1 = drop_sticky fh t2"
        using assms f o Inr p by (auto simp: ensure_live_def Let_def t2_def)
      have "settled e s t2" by (rule settled_trans [OF t settled_local]) (simp_all add: t2_def)
      then show ?thesis
        using r settled_trans [OF _ drop_sticky_settled, of e s t2 fh] by (auto simp: drop_sticky_open t2_def)
    qed
  qed
  then show "settled e s s1" "r = Some sh \<Longrightarrow> map_option of_server_handle (qf_open_files s1 fh) = Some sh" by blast+
qed

text \<open>One attempt after another, each settled.\<close>

lemma flush_attempts_settled: "settled e s (snd (flush_attempts n e fh allow last_err s))"
proof (induction n arbitrary: allow last_err s)
  case (Suc n)
  obtain live s1 where live: "ensure_live e fh allow s = (live, s1)" by fastforce
  note s1 = ensure_live_settled(1) [OF live]
  show ?case
  proof (cases "live = None \<or> fst (begin_flush fh (qf_write_buf s1)) = None")
    case True
    then have "snd (flush_attempts (Suc n) e fh allow last_err s) \<in>
        {s1, s1\<lparr>qf_write_buf := snd (begin_flush fh (qf_write_buf s1))\<rparr>}"
      by (cases live; cases "begin_flush fh (qf_write_buf s1)") (auto simp: live)
    moreover have "settled e s (s1\<lparr>qf_write_buf := snd (begin_flush fh (qf_write_buf s1))\<rparr>)"
      by (rule settled_trans [OF s1 settled_local]) (simp_all add: queued_begin [OF prod.collapse [symmetric]])
    ultimately show ?thesis using s1 by auto
  next
    case False
    then obtain sh batch wb where sh: "live = Some sh" and b: "begin_flush fh (qf_write_buf s1) = (Some batch, wb)"
      by (cases "begin_flush fh (qf_write_buf s1)") auto
    note q = queued_begin [OF b] and batch = queued_ack_batch [OF b]
    let ?s2 = "s1\<lparr>qf_write_buf := wb\<rparr>"
    have s2: "settled e s ?s2" by (rule settled_trans [OF s1 settled_local]) (simp_all add: q)
    obtain r s3 where r: "send_chunks e sh (fb_chunks batch) ?s2 = (r, s3)" by fastforce
    have s3: "settled e s s3" "qf_write_buf s3 = wb" "qf_write_errors s3 = qf_write_errors s1"
      using settled_trans [OF s2 settled_send, of sh "fb_chunks batch"] send_chunks_keeps [of e sh "fb_chunks batch" ?s2] r
      by simp_all
    note step = live sh b r Let_def
    show ?thesis
    proof (cases r)
      case (Inr u)
      have "settled e ?s2 (s3\<lparr>qf_write_buf := ack_flush fh (fb_sent_count batch) wb\<rparr>)"
        by (rule settled_ack [where fh = fh and sh = sh and t = s3 and wb = "ack_flush fh (fb_sent_count batch) wb"])
          (use Inr r ensure_live_settled(2) [OF live sh] in \<open>simp_all add: batch q\<close>)
      with s2 have "settled e s (s3\<lparr>qf_write_buf := ack_flush fh (fb_sent_count batch) wb\<rparr>)" by (rule settled_trans)
      with Inr show ?thesis by (simp add: step s3(2))
    next
      case (Inl err)
      let ?s4 = "s3\<lparr>qf_write_buf := fail_flush fh wb\<rparr>"
      let ?s5 = "s3\<lparr>qf_write_buf := snd (drop_handle fh wb), qf_write_errors := insert fh (qf_write_errors s3)\<rparr>"
      have s4: "settled e s ?s4" by (rule settled_trans [OF s3(1) settled_local]) (auto simp: s3(2) queued_fail)
      have s5: "settled e s ?s5"
        by (rule settled_trans [OF s3(1) settled_drop [where fh = fh]]) (auto simp: s3(2) queued_drop)
      have "settled e s (snd (flush_attempts n e fh a (Some err) ?s4))" for a
        using s4 Suc.IH by (rule settled_trans)
      with Inl s4 s5 show ?thesis by (simp add: step s3(2))
    qed
  qed
qed (simp add: settled_refl)

lemma flush_one_settled: "settled e s (snd (flush_one e fh allow s))"
  unfolding flush_one_def by (rule flush_attempts_settled)

section \<open>Closing\<close>

lemma drain_loop_empty: "drain_loop n e fh s = (Inr (), s') \<Longrightarrow> \<not> has_buffered (qf_write_buf s') fh"
  by (induction n arbitrary: s) (auto split: prod.splits sum.splits if_splits)

lemma flush_reply_Ok: "flush_reply err sticky = Inr () \<longleftrightarrow> err = None \<and> \<not> sticky"
  by (simp add: flush_reply_def split: option.split)

text \<open>What a callback relies on while it sleeps: the tasks that run meanwhile keep the account.\<close>

locale quiet_sleep =
  fixes e :: "('n, 'l) fenv"
  assumes quiet: "settled e s (fe_sleep e ms s)"
begin

lemma drain_loop_settled:
  "settled e s (snd (drain_loop n e fh s))"
proof (induction n arbitrary: s)
  case (Suc n)
  obtain r s1 where f: "flush_handle e fh s = (r, s1)" by fastforce
  then have s1: "settled e s s1"
    using flush_one_settled [of e s fh True] by (simp add: flush_handle_def)
  have "settled e s (snd (drain_loop n e fh (fe_sleep e 5 s1)))"
    by (rule settled_trans [OF settled_trans [OF s1 quiet] Suc.IH])
  with s1 f show ?case by (cases r) simp_all
qed (simp add: settled_refl)

lemma close_accounted:
  assumes "fuse_flush e fh s = (Inr (), s')"
  shows "\<not> has_buffered (qf_write_buf s') fh \<and> fh \<notin> qf_write_errors s \<and>
    wrun e fh s (queued (qf_write_buf s) fh) s'"
proof -
  obtain r s1 where d: "flush_handle_drain e fh s = (r, s1)" by fastforce
  have r: "r = Inr ()" and sticky: "fh \<notin> qf_write_errors s1" and s': "s' = s1\<lparr>qf_write_errors := qf_write_errors s1 - {fh}\<rparr>"
    using assms by (auto simp: fuse_flush_def drain_and_reply_def d Let_def flush_reply_Ok split: sum.splits)
  have set: "settled e s s1"
    using drain_loop_settled [of s 500 fh] d by (simp add: flush_handle_drain_def)
  have empty: "queued (qf_write_buf s1) fh = []"
    using d r drain_loop_empty [of 500 e fh s s1] by (simp add: flush_handle_drain_def has_buffered_queued)
  obtain q where q: "wrun e fh s q s1" using set sticky by (auto simp: settled_def)
  then have "wrun e fh s q s'" by (rule wrun.Local) (simp_all add: s')
  moreover have "q = queued (qf_write_buf s) fh" using wrun_queue [OF q] empty by simp
  moreover have "fh \<notin> qf_write_errors s" using set sticky by (auto simp: settled_def)
  ultimately show ?thesis using empty by (simp add: has_buffered_queued s')
qed

end

text \<open>C3: A close that succeeds has lost nothing. If \<open>flush\<close>, which the kernel calls on every \<open>close\<close>,
  replies success, then nothing is buffered for the handle any more, no error was pending on it, and
  every write that was buffered for it when the call began was sent on the handle's server handle and
  acknowledged during the call (or held no byte): whatever the network and the server did, however
  many attempts it took, and whatever tasks that keep the same account did while the call slept.\<close>

theorem close_never_silent:
  assumes "fuse_flush e fh s = (Inr (), s')" and "\<And>ms s. settled e s (fe_sleep e ms s)"
  shows "\<not> has_buffered (qf_write_buf s') fh \<and> fh \<notin> qf_write_errors s \<and>
    wrun e fh s (queued (qf_write_buf s) fh) s'"
  using assms by (intro quiet_sleep.close_accounted quiet_sleep.intro)

text \<open>The instance: one byte is waiting to be written.\<close>

definition mem_pending :: "(mem_fs world, nat \<times> (string \<times> Entry) list) QuicFs" where
  "mem_pending = mem_qfs\<lparr>qf_write_buf := snd (push 1 3 [9] 0 (write_buffer_new 4 8 10))\<rparr>"

lemma mem_pending_queue: "queued (qf_write_buf mem_pending) 1 = [(3, [9])]"
  by (simp add: mem_pending_def push_def write_buffer_new_def saturating_mul_def usize_max_def Let_def queued_def
      handle_buf_def chunk_pairs_def)

lemma mem_pending_serving: "serving (loop_ready mem_os wire_sc wire_cc 3 mf_data mf_pos 1) 1 1 mem_pending"
proof -
  have "wb_ok (qf_write_buf mem_pending)" unfolding mem_pending_def by (simp add: push_wb_ok wb_ok_new)
  then show ?thesis
    using mem_loop_ready [of "[10, 11]" "[]"]
    by (simp add: serving_def only_handle_def open_as_def mem_pending_def mem_qfs_def quicfs_new_def push_def
        write_buffer_new_def saturating_mul_def usize_max_def Let_def handle_buf_def reconnect_gen_def)
      (simp add: mem_cm_def cm_new_def)
qed

theorem close_never_silent_witness:
  "\<exists>s'. fuse_flush mem_fenv 1 mem_pending = (Inr (), s') \<and> wrun mem_fenv 1 mem_pending [(3, [9])] s'"
proof -
  have "fe_conn mem_fenv = loop_cenv mem_os wire_sc wire_cc (\<lambda>_. 0) ''/srv'' [] toy_crypto" by (simp add: mem_fenv_def)
  moreover have "1 \<notin> qf_write_errors mem_pending" by (simp add: mem_pending_def mem_qfs_def quicfs_new_def)
  moreover have "list_all (fits 8) (queued (qf_write_buf mem_pending) 1)" "reorder_safe (queued (qf_write_buf mem_pending) 1)"
    by (simp_all add: mem_pending_queue fits_def in_range_def seek_limit_def reorder_safe_def)
  ultimately obtain s' where s': "fuse_flush mem_fenv 1 mem_pending = (Inr (), s')"
    using lf.fuse_flush_serving [OF _ mem_pending_serving] by blast
  have "settled mem_fenv s (fe_sleep mem_fenv ms s)" for ms s by (simp add: mem_fenv_def settled_refl)
  with close_never_silent [OF s'] s' show ?thesis by (auto simp: mem_pending_queue)
qed

end
