(* ===== verification/Fuse_State.thy ===== *)
theory Fuse_State
  imports Fuse_Loop
begin

text \<open>
  The client's state stays well formed, whatever the kernel asks for and whatever the network answers.
\<close>

section \<open>Well-formed states\<close>

text \<open>The buffer counts right, at most \<open>m\<close> handle numbers are used up, every open file has a number that was handed out before, and it is known
  as appending exactly if it was opened so.\<close>

definition qfs_ok :: "nat \<Rightarrow> ('n, 'l) QuicFs \<Rightarrow> bool" where
  "qfs_ok m s =
     (wb_ok (qf_write_buf s) \<and> unat (qf_next_client_fh s) \<le> m \<and>
      (\<forall>fh f. qf_open_files s fh = Some f \<longrightarrow>
         fh < qf_next_client_fh s \<and> of_is_append f = (of_flags f AND O_APPEND \<noteq> 0)))"

text \<open>The part of the state that matters here, and the steps that leave it alone.\<close>

definition core :: "('n, 'l) QuicFs \<Rightarrow> WriteBuffer \<times> (u64 \<rightharpoonup> OpenFile) \<times> u64" where
  "core s = (qf_write_buf s, qf_open_files s, qf_next_client_fh s)"

lemma qfs_ok_core: "core s' = core s \<Longrightarrow> qfs_ok m s' = qfs_ok m s"
  by (simp add: core_def qfs_ok_def)

lemma core_simps [simp]:
  "core (s\<lparr>qf_conn := c\<rparr>) = core s" "core (s\<lparr>qf_inodes := t\<rparr>) = core s" "core (s\<lparr>qf_write_errors := x\<rparr>) = core s"
  "core (invalidate_cache e p s) = core s" "core (cache_stat e p st s) = core s" "core (cache_negative e p s) = core s"
  "core (check_reconnect e s) = core s"
  by (simp_all add: core_def invalidate_cache_def cache_stat_def cache_negative_def check_reconnect_def Let_def)

lemma core_pair:
  "on_conn m s = (r, s1) \<Longrightarrow> core s1 = core s"
  "on_inodes g s = (r2, s1) \<Longrightarrow> core s1 = core s"
  "cached_getattr e p s = (r3, s1) \<Longrightarrow> core s1 = core s"
  "make_file_attr p st s = (r4, s1) \<Longrightarrow> core s1 = core s"
  by (auto simp: core_def on_conn_def on_inodes_def cached_getattr_def on_cache_def make_file_attr_def Let_def split: prod.splits)

lemmas ok_eq = core_pair [THEN qfs_ok_core]
lemmas ok_pair = ok_eq [THEN iffD2]
lemmas ok_simps = core_simps [THEN qfs_ok_core]

lemma drop_sticky_ok: "qfs_ok m s \<Longrightarrow> qfs_ok m (drop_sticky fh s)"
  using drop_handle_wb_ok [of "qf_write_buf s" fh]
  by (cases "drop_handle fh (qf_write_buf s)") (simp add: qfs_ok_def drop_sticky_def)

lemma qfs_ok_buf: "qfs_ok m s \<Longrightarrow> wb_ok wb \<Longrightarrow> qfs_ok m (s\<lparr>qf_write_buf := wb\<rparr>)"
  by (simp add: qfs_ok_def)

lemma qfs_ok_wb: "qfs_ok m s \<Longrightarrow> wb_ok (qf_write_buf s)"
  by (simp add: qfs_ok_def)

lemma reopened_ok:
  "qfs_ok m s \<Longrightarrow> qf_open_files s fh = Some f \<Longrightarrow>
   qfs_ok m (s\<lparr>qf_open_files := (qf_open_files s)(fh \<mapsto> f\<lparr>of_server_handle := h, of_opened_gen := g\<rparr>)\<rparr>)"
  by (simp add: qfs_ok_def)

lemma ensure_live_ok:
  assumes "ensure_live e fh allow s = (r, s1)" and "qfs_ok m s"
  shows "qfs_ok m s1"
proof (cases "\<exists>f. qf_open_files s fh = Some f \<and> of_opened_gen f \<noteq> reconnect_gen (qf_conn s) \<and> allow")
  case False
  with assms show ?thesis by (auto simp: ensure_live_def Let_def split: option.splits if_splits)
next
  case True
  then obtain f where f: "qf_open_files s fh = Some f" "of_opened_gen f \<noteq> reconnect_gen (qf_conn s)" allow by blast
  obtain o1 t where o: "on_conn (cm_open (fe_conn e) (of_path f) (of_flags f AND 0x3 OR of_flags f AND O_APPEND)) s = (o1, t)"
    by fastforce
  have t: "qfs_ok m t" "qf_open_files t fh = Some f"
    using ok_pair(1) [OF o] core_pair(1) [OF o] assms(2) f(1) by (simp_all add: core_def)
  show ?thesis
    using assms(1) f o t reopened_ok [OF t] drop_sticky_ok [OF reopened_ok [OF t]]
    by (cases o1) (auto simp: ensure_live_def Let_def)
qed

lemma send_chunks_ok_state: "send_chunks e sh ps s = (r, s1) \<Longrightarrow> core s1 = core s"
proof (induction ps arbitrary: s)
  case (Cons p ps)
  obtain off data where p: "p = (off, data)" by (cases p)
  obtain r1 t where w: "on_conn (cm_write (fe_conn e) sh off data) s = (r1, t)" by fastforce
  from Cons w core_pair(1) [OF w] show ?case by (cases r1) (auto simp: p)
qed simp

lemma flush_attempts_ok: "flush_attempts n e fh allow le s = (r, s1) \<Longrightarrow> qfs_ok m s \<Longrightarrow> qfs_ok m s1"
proof (induction n arbitrary: allow le s)
  case (Suc n)
  obtain live t where live: "ensure_live e fh allow s = (live, t)" by fastforce
  then have t: "qfs_ok m t" using Suc.prems(2) by (rule ensure_live_ok)
  obtain b wb where b: "begin_flush fh (qf_write_buf t) = (b, wb)" by fastforce
  have wb: "wb_ok wb" using begin_flush_wb_ok [OF qfs_ok_wb [OF t], of fh] by (simp add: b)
  then have t2: "qfs_ok m (t\<lparr>qf_write_buf := wb\<rparr>)" using t by (simp add: qfs_ok_buf)
  show ?case
  proof (cases "live = None \<or> b = None")
    case True
    with Suc.prems(1) live b t t2 show ?thesis by (cases live) auto
  next
    case False
    then obtain sh batch where sh: "live = Some sh" "b = Some batch" by auto
    obtain r1 u where u: "send_chunks e sh (fb_chunks batch) (t\<lparr>qf_write_buf := wb\<rparr>) = (r1, u)" by fastforce
    have u1: "qfs_ok m u" using send_chunks_ok_state [OF u] t2 qfs_ok_core by blast
    note wu = qfs_ok_wb [OF u1]
    have next_ok: "qfs_ok m (u\<lparr>qf_write_buf := ack_flush fh (fb_sent_count batch) (qf_write_buf u)\<rparr>)"
        "qfs_ok m (u\<lparr>qf_write_buf := fail_flush fh (qf_write_buf u)\<rparr>)"
        "qfs_ok m (u\<lparr>qf_write_buf := snd (drop_handle fh (qf_write_buf u)), qf_write_errors := x\<rparr>)" for x
      using u1 wu by (simp_all add: qfs_ok_buf wb_ok_steps ok_simps)
    show ?thesis
      using Suc.prems(1) next_ok Suc.IH
      by (cases r1) (auto simp: live sh b u Let_def split: if_splits)
  qed
qed simp

lemma flush_handle_ok_state: "flush_handle e fh s = (r, s1) \<Longrightarrow> qfs_ok m s \<Longrightarrow> qfs_ok m s1"
  unfolding flush_handle_def flush_one_def by (rule flush_attempts_ok)

lemma live_handle_ok: "live_handle e fh s = (r, s1) \<Longrightarrow> qfs_ok m s \<Longrightarrow> qfs_ok m s1"
  unfolding live_handle_def by (rule ensure_live_ok)

lemma flush_each_ok: "flush_each e fhs err s = (r, s1) \<Longrightarrow> qfs_ok m s \<Longrightarrow> qfs_ok m s1"
  by (induction fhs arbitrary: err s) (auto split: prod.splits dest: flush_handle_ok_state)

lemma flush_all_ok: "flush_all_handles e s = (r, s1) \<Longrightarrow> qfs_ok m s \<Longrightarrow> qfs_ok m s1"
  by (auto simp: flush_all_handles_def split: prod.splits option.splits dest: flush_each_ok)

lemma fence_ok: "fence_truncating_open e flags s = (r, s1) \<Longrightarrow> qfs_ok m s \<Longrightarrow> qfs_ok m s1"
  by (auto simp: fence_truncating_open_def split: if_splits dest: flush_all_ok)

text \<open>The same as rules that a chain of steps can be read with.\<close>

lemma ok_imp:
  "flush_handle e fh s = (r, s1) \<Longrightarrow> qfs_ok m s \<longrightarrow> qfs_ok m s1" "live_handle e fh s = (r2, s1) \<Longrightarrow> qfs_ok m s \<longrightarrow> qfs_ok m s1"
  "flush_all_handles e s = (r, s1) \<Longrightarrow> qfs_ok m s \<longrightarrow> qfs_ok m s1" "fence_truncating_open e flags s = (r, s1) \<Longrightarrow> qfs_ok m s \<longrightarrow> qfs_ok m s1"
  by (auto intro: flush_handle_ok_state live_handle_ok flush_all_ok fence_ok)

lemmas ok_splits = prod.splits option.splits sum.splits if_splits

lemma get_stat_ok: "get_stat e p s = (r, s1) \<Longrightarrow> qfs_ok m s \<longrightarrow> qfs_ok m s1"
  unfolding get_stat_def Let_def
  by (auto simp: ok_simps split: ok_splits dest!: ok_imp ok_eq)

lemma register_ok:
  assumes "register_open p flags h s = (fh, s1)" and "qfs_ok m s" and "m + 1 < 2 ^ 64"
  shows "qfs_ok (m + 1) s1"
proof -
  have m: "unat (qf_next_client_fh s) \<le> m" using assms(2) by (simp add: qfs_ok_def)
  with assms(3) have up: "unat (qf_next_client_fh s + 1) = unat (qf_next_client_fh s) + 1" by (simp add: unat_add_no_overflow)
  then have lt: "qf_next_client_fh s < qf_next_client_fh s + 1" by (simp add: word_less_nat_alt)
  have "k < qf_next_client_fh s + 1" if "qf_open_files s k = Some f" for k f
    using assms(2) that less_trans [OF _ lt, of k] by (simp add: qfs_ok_def)
  with assms(1,2) lt up m show ?thesis by (auto simp: register_open_def Let_def qfs_ok_def split: if_splits)
qed

lemma qfs_ok_mono: "qfs_ok m s \<Longrightarrow> m \<le> m' \<Longrightarrow> qfs_ok m' s"
  by (auto simp: qfs_ok_def)

lemma drain_ok:
  assumes "\<And>ms s. qfs_ok m s \<Longrightarrow> qfs_ok m (fe_sleep e ms s)"
  shows "drain_loop n e fh s = (r, s1) \<Longrightarrow> qfs_ok m s \<Longrightarrow> qfs_ok m s1"
  by (induction n arbitrary: s) (auto split: prod.splits sum.splits if_splits dest!: flush_handle_ok_state intro: assms)

section \<open>Every callback\<close>

datatype fuse_call =
  Lookup u64 string | Forget u64 u64 | Getattr u64
| Setattr u64 "u32 option" "u32 option" "u32 option" "u64 option" "TimeOrNow option" "TimeOrNow option" "u64 option"
| Readlink u64 | Mkdir u64 string u32 | Unlink u64 string | Rmdir u64 string | Mksymlink u64 string string
| Rename_Call u64 string u64 string u32 | Link u64 u64 string | Open u64 u32 | Read u64 i64 u32
| Write u64 u64 i64 bytes | Flush u64 | Release u64 | Fsync u64 bool | Opendir u64 | Readdir u64 i64
| Releasedir u64 | Statfs u64 | Create u64 string u32 u32

text \<open>The state after a call; a directory listing that never ends leaves it where it was. The reply buffer
  of a listing takes every entry here.\<close>

primrec fuse_step :: "('n, 'l) fenv \<Rightarrow> fuse_call \<Rightarrow> ('n, 'l) QuicFs \<Rightarrow> ('n, 'l) QuicFs" where
  "fuse_step e (Lookup p n) s = snd (fuse_lookup e p n s)"
| "fuse_step e (Forget i n) s = fuse_forget i n s"
| "fuse_step e (Getattr i) s = snd (fuse_getattr e i s)"
| "fuse_step e (Setattr i m u g z a t fh) s = snd (fuse_setattr e i m u g z a t fh s)"
| "fuse_step e (Readlink i) s = snd (fuse_readlink e i s)"
| "fuse_step e (Mkdir p n m) s = snd (fuse_mkdir e p n m s)"
| "fuse_step e (Unlink p n) s = snd (fuse_unlink e p n s)"
| "fuse_step e (Rmdir p n) s = snd (fuse_rmdir e p n s)"
| "fuse_step e (Mksymlink p n t) s = snd (fuse_symlink e p n t s)"
| "fuse_step e (Rename_Call p n q m f) s = snd (fuse_rename e p n q m f s)"
| "fuse_step e (Link i q m) s = snd (fuse_link e i q m s)"
| "fuse_step e (Open i f) s = snd (fuse_open e i f s)"
| "fuse_step e (Read fh off sz) s = snd (fuse_read e fh off sz s)"
| "fuse_step e (Write i fh off d) s = snd (fuse_write e i fh off d s)"
| "fuse_step e (Flush fh) s = snd (fuse_flush e fh s)"
| "fuse_step e (Release fh) s = snd (fuse_release e fh s)"
| "fuse_step e (Fsync fh d) s = snd (fuse_fsync e fh d s)"
| "fuse_step e (Opendir i) s = snd (fuse_opendir i s)"
| "fuse_step e (Readdir i off) s =
     (case fuse_readdir (\<lambda>r i j k n. (False, (i, j, k, n) # r)) e i off [] s of None \<Rightarrow> s | Some (_, s1) \<Rightarrow> s1)"
| "fuse_step e (Releasedir i) s = snd (fuse_releasedir i s)"
| "fuse_step e (Statfs i) s = snd (fuse_statfs e i s)"
| "fuse_step e (Create p n m f) s = snd (fuse_create e p n m f s)"

lemma reply_ok_state:
  "qfs_ok m (snd (entry_reply p st s)) = qfs_ok m s" "qfs_ok m (snd (attr_reply p st s)) = qfs_ok m s"
  by (auto simp: entry_reply_def attr_reply_def split: prod.splits dest: ok_eq)

lemmas call_dests = ok_imp ok_eq get_stat_ok
lemmas call_simps = with_path_def Let_def ok_simps reply_ok_state

lemma attr_calls_ok:
  assumes "qfs_ok m s"
  shows "qfs_ok m (snd (fuse_lookup e p n s))" "qfs_ok m (snd (fuse_getattr e i s))"
    "qfs_ok m (snd (fuse_setattr e i md u g z a t fh s))" "qfs_ok m (snd (fuse_readlink e i s))" "qfs_ok m (snd (fuse_statfs e i s))"
proof -
  show "qfs_ok m (snd (fuse_lookup e p n s))"
    using assms by (auto simp: fuse_lookup_def call_simps split: ok_splits dest!: call_dests)
  show "qfs_ok m (snd (fuse_getattr e i s))"
    using assms by (auto simp: fuse_getattr_def call_simps split: ok_splits dest!: call_dests)
  show "qfs_ok m (snd (fuse_setattr e i md u g z a t fh s))"
    using assms by (auto simp: fuse_setattr_def call_simps split: ok_splits dest!: call_dests)
  show "qfs_ok m (snd (fuse_readlink e i s))" "qfs_ok m (snd (fuse_statfs e i s))"
    using assms by (auto simp: fuse_readlink_def fuse_statfs_def call_simps split: ok_splits dest!: call_dests)
qed

lemma name_calls_ok:
  assumes "qfs_ok m s"
  shows "qfs_ok m (snd (fuse_mkdir e p n md s))" "qfs_ok m (snd (fuse_remove c e p n s))"
    "qfs_ok m (snd (fuse_symlink e p n tg s))" "qfs_ok m (snd (fuse_rename e p n q n2 fl s))"
    "qfs_ok m (snd (fuse_link e i q n2 s))"
proof -
  show "qfs_ok m (snd (fuse_mkdir e p n md s))"
    using assms by (auto simp: fuse_mkdir_def call_simps split: ok_splits dest!: call_dests)
  show "qfs_ok m (snd (fuse_remove c e p n s))"
    using assms by (auto simp: fuse_remove_def call_simps split: ok_splits dest!: call_dests)
  show "qfs_ok m (snd (fuse_symlink e p n tg s))"
    using assms by (auto simp: fuse_symlink_def call_simps split: ok_splits dest!: call_dests)
  show "qfs_ok m (snd (fuse_rename e p n q n2 fl s))"
    using assms by (auto simp: fuse_rename_def call_simps split: ok_splits dest!: call_dests)
  show "qfs_ok m (snd (fuse_link e i q n2 s))"
    using assms by (auto simp: fuse_link_def call_simps split: ok_splits dest!: call_dests)
qed

lemma file_calls_ok:
  assumes "qfs_ok m s" and sleep: "\<And>ms s. qfs_ok m s \<Longrightarrow> qfs_ok m (fe_sleep e ms s)"
  shows "qfs_ok m (snd (fuse_read e fh off sz s))" "qfs_ok m (snd (fuse_write e i fh off d s))"
    "qfs_ok m (snd (fuse_flush e fh s))" "qfs_ok m (snd (fuse_release e fh s))" "qfs_ok m (snd (fuse_fsync e fh ds s))"
proof -
  show "qfs_ok m (snd (fuse_read e fh off sz s))"
    using assms(1) by (auto simp: fuse_read_def call_simps split: ok_splits dest!: call_dests)
  show "qfs_ok m (snd (fuse_write e i fh off d s))"
  proof -
    define s0 where "s0 = (case path_for i s of Some path \<Rightarrow> invalidate_cache e path s | None \<Rightarrow> s)"
    have "qfs_ok m s0" using assms(1) by (simp add: s0_def ok_simps split: option.split)
    obtain l s1 where l: "live_handle e fh s0 = (l, s1)" by fastforce
    then have s1: "qfs_ok m s1" using \<open>qfs_ok m s0\<close> by (rule live_handle_ok)
    obtain dec wb where p: "push fh off d (instant e s1) (qf_write_buf s1) = (dec, wb)" by fastforce
    have s2: "qfs_ok m (s1\<lparr>qf_write_buf := wb\<rparr>)"
      using push_wb_ok [OF qfs_ok_wb [OF s1], of fh off d "instant e s1"] s1 by (simp add: p qfs_ok_buf)
    then have "qfs_ok m (snd (flush_handle e h (s1\<lparr>qf_write_buf := wb\<rparr>)))" for h
      using flush_handle_ok_state [OF prod.collapse [symmetric]] by blast
    with s2 show ?thesis
      by (cases dec) (simp_all add: fuse_write_def Let_def l p ok_simps flip: s0_def)
  qed
  obtain r s1 where d: "flush_handle_drain e fh s = (r, s1)" by fastforce
  have s1: "qfs_ok m s1" using drain_ok [OF sleep, of 500 fh s r s1] d assms(1) by (simp add: flush_handle_drain_def)
  have reply: "qfs_ok m (snd (drain_and_reply e fh s))" using s1 by (simp add: drain_and_reply_def d Let_def ok_simps)
  then show "qfs_ok m (snd (fuse_flush e fh s))" by (simp add: fuse_flush_def)
  obtain r2 s2 where dr: "drain_and_reply e fh s = (r2, s2)" by fastforce
  with reply have "qfs_ok m s2" by simp
  then show "qfs_ok m (snd (fuse_fsync e fh ds s))"
    by (cases r2) (auto simp: fuse_fsync_def dr andthen_def call_simps split: ok_splits dest!: call_dests)
  let ?s3 = "s1\<lparr>qf_write_errors := qf_write_errors s1 - {fh}, qf_open_files := (qf_open_files s1)(fh := None),
     qf_write_buf := snd (drop_handle fh (qf_write_buf s1))\<rparr>"
  have s3: "qfs_ok m ?s3" using s1 drop_handle_wb_ok [OF qfs_ok_wb [OF s1], of fh] by (simp add: qfs_ok_def)
  then have "qfs_ok m (snd (on_conn c ?s3))" for c :: "'a cm \<Rightarrow> (anyhow + unit) \<times> 'a cm"
    using ok_eq(1) [OF prod.collapse [symmetric]] by blast
  with s3 show "qfs_ok m (snd (fuse_release e fh s))"
    by (simp add: fuse_release_def Let_def d split: option.split)
qed

lemma open_calls_ok:
  assumes "qfs_ok m s" and "m + 1 < 2 ^ 64"
  shows "qfs_ok (m + 1) (snd (fuse_open e i fl s))" "qfs_ok (m + 1) (snd (fuse_create e p n md fl s))"
proof -
  have up: "qfs_ok (m + 1) t" if "qfs_ok m t" for t :: "('a, 'b) QuicFs" using that by (rule qfs_ok_mono) simp
  obtain r s1 where f: "fence_truncating_open e fl s = (r, s1)" by fastforce
  then have s1: "qfs_ok m s1" using assms(1) by (rule fence_ok)
  show "qfs_ok (m + 1) (snd (fuse_open e i fl s))"
  proof (cases "path_for i s")
    case (Some path)
    obtain r2 s2 where c: "on_conn (cm_open (fe_conn e) path fl) s1 = (r2, s2)" by fastforce
    have s2: "qfs_ok m s2" by (rule ok_pair(1) [OF c s1])
    then have "qfs_ok (m + 1) (snd (register_open path fl h s2))" for h
      using register_ok [OF prod.collapse [symmetric]] assms(2) by blast
    with Some f c up [OF s1] up [OF s2] show ?thesis
      by (auto simp: fuse_open_def with_path_def split_beta split: sum.split)
  qed (use up [OF assms(1)] in \<open>simp add: fuse_open_def with_path_def\<close>)
  show "qfs_ok (m + 1) (snd (fuse_create e p n md fl s))"
  proof (cases "path_for p s")
    case (Some par)
    let ?child = "child_path par n"
    let ?s2 = "invalidate_cache e (to_string_lossy ?child) (invalidate_cache e (unwrap_or ''/'' (to_str par)) s1)"
    obtain r2 s3 where c: "on_conn (cm_create (fe_conn e) (to_string_lossy ?child) fl md) ?s2 = (r2, s3)" by fastforce
    have s3: "qfs_ok m s3" by (rule ok_pair(1) [OF c]) (use s1 in \<open>simp add: ok_simps\<close>)
    have "qfs_ok (m + 1) (snd (register_open (to_string_lossy ?child) fl h (cache_stat e (to_string_lossy ?child) st s3)))" for h st
      by (rule register_ok [OF prod.collapse [symmetric] _ assms(2)]) (use s3 in \<open>simp add: ok_simps\<close>)
    then have "qfs_ok (m + 1) (snd (make_file_attr ?child st
        (snd (register_open (to_string_lossy ?child) fl h (cache_stat e (to_string_lossy ?child) st s3)))))" for h st
      using ok_pair(4) [OF prod.collapse [symmetric]] by blast
    with Some f c up [OF s1] up [OF s3] show ?thesis
      by (auto simp: fuse_create_def with_path_def Let_def split_beta split: sum.split)
  qed (use up [OF assms(1)] in \<open>simp add: fuse_create_def with_path_def\<close>)
qed

lemma readdir_ok:
  assumes "qfs_ok m s" and "fuse_readdir add e i off r s = Some (r1, s1)"
  shows "qfs_ok m s1"
proof -
  have add: "add_entries add path es r t = (r2, t2) \<Longrightarrow> core t2 = core t" for path es r t r2 t2
    by (induction es arbitrary: r t) (auto simp: Let_def split: prod.splits if_splits dest!: core_pair(2))
  then show ?thesis
    using assms by (auto simp: fuse_readdir_def ok_simps split: ok_splits dest!: add [THEN qfs_ok_core])
qed

lemma fuse_step_ok:
  assumes "qfs_ok m s" and "m + 1 < 2 ^ 64" and "\<And>ms s. qfs_ok m s \<Longrightarrow> qfs_ok m (fe_sleep e ms s)"
  shows "qfs_ok (m + 1) (fuse_step e call s)"
proof -
  have up: "qfs_ok (m + 1) t" if "qfs_ok m t" for t :: "('a, 'b) QuicFs" using that by (rule qfs_ok_mono) simp
  have dir: "qfs_ok m (fuse_step e (Readdir i off) s)" for i off
    using assms(1) readdir_ok [OF assms(1)] by (auto split: option.split)
  have keep: "qfs_ok m (fuse_step e call s)" if "\<forall>i f. call \<noteq> Open i f" "\<forall>p n md f. call \<noteq> Create p n md f"
    using that dir
    by (cases call) (simp_all add: assms(1) attr_calls_ok [OF assms(1)] name_calls_ok [OF assms(1)] file_calls_ok [OF assms(1,3)]
        fuse_unlink_def fuse_rmdir_def fuse_forget_def fuse_opendir_def fuse_releasedir_def)
  show ?thesis
    using open_calls_ok [OF assms(1,2)] up [OF keep] by (cases call) auto
qed

text \<open>C22: The client's state stays well formed. After any sequence of callbacks on a new mount, whatever
  their arguments and whatever the network answers, the byte count of the write buffer is right and
  within its limit, every open file has a handle number that was handed out before (so the next one
  is fresh), and a file is treated as appending exactly if it was opened with \<open>O_APPEND\<close>.\<close>

theorem mount_state_ok:
  assumes "length calls + 2 < 2 ^ 64" and "\<And>m ms s. qfs_ok m s \<Longrightarrow> qfs_ok m (fe_sleep e ms s)"
  shows "qfs_ok (length calls + 1)
    (fold (fuse_step e) calls (quicfs_new lr conn cache_cfg wbuf_cfg uid gid remote_root))"
proof -
  have steps: "qfs_ok (m + length calls) (fold (fuse_step e) calls s)" if "qfs_ok m s" "m + length calls < 2 ^ 64" for m s
    using that
  proof (induction calls arbitrary: m s)
    case (Cons call calls)
    have "qfs_ok (m + 1) (fuse_step e call s)"
      using Cons.prems by (intro fuse_step_ok assms(2)) simp_all
    from Cons.IH [OF this] Cons.prems(2) show ?case by simp
  qed simp
  have "qfs_ok 1 (quicfs_new lr conn cache_cfg wbuf_cfg uid gid remote_root)"
    by (simp add: qfs_ok_def quicfs_new_def wb_ok_new)
  from steps [OF this] assms(1) show ?thesis by simp
qed

theorem mount_state_ok_witness:
  "qfs_ok 3 (fold (fuse_step mem_fenv) [Create 1 ''a'' 0x1B4 0x41, Write 2 1 0 [7]]
     (quicfs_new list_lru (mem_cm [] []) cache_config_default write_buf_config_default None None ''/''))"
proof -
  let ?calls = "[Create 1 ''a'' 0x1B4 0x41, Write 2 1 0 [7]]"
  have "qfs_ok (length ?calls + 1) (fold (fuse_step mem_fenv) ?calls
      (quicfs_new list_lru (mem_cm [] []) cache_config_default write_buf_config_default None None ''/''))"
    by (rule mount_state_ok) (simp_all add: mem_fenv_def)
  then show ?thesis by (simp add: numeral_3_eq_3 del: fuse_step.simps)
qed

end
