(* ===== verification/Mount.thy ===== *)
theory Mount
  imports Fuse_Safety Fuse_State
begin

text \<open>
  The life of a mount (\<open>client/src/mount.rs\<close>): the options, the state that is handed to fuser, the
  background task that ages and flushes buffered writes, the flush at a clean shutdown, and the
  detection of stale and vanished mounts in \<open>/proc/mounts\<close>. The kernel's table of mounts and the
  commands \<open>fusermount3\<close> and \<open>umount\<close> are parameters; a tick of the background task runs between two
  callbacks or while a callback sleeps.
\<close>

section \<open>Options\<close>

record FuseOptions =
  fo_allow_other :: bool
  fo_readonly :: bool
  fo_cache_ttl_ms :: u64
  fo_uid_override :: "u32 option"
  fo_gid_override :: "u32 option"
  fo_write_buf_per_handle :: nat
  fo_write_buf_total :: nat
  fo_coalesce_ms :: u64
  fo_remote_root :: string

definition mount_cache_cfg :: "FuseOptions \<Rightarrow> CacheConfig" where
  "mount_cache_cfg opts =
     \<lparr>cc_max_entries = 8192, cc_pos_ttl = unat (fo_cache_ttl_ms opts) * 1000000,
      cc_neg_ttl = unat (fo_cache_ttl_ms opts div 4) * 1000000,
      cc_dir_ttl = unat (fo_cache_ttl_ms opts div 2) * 1000000\<rparr>"

definition mount_wbuf_cfg :: "FuseOptions \<Rightarrow> WriteBufConfig" where
  "mount_wbuf_cfg opts =
     \<lparr>wc_max_per_handle_bytes = fo_write_buf_per_handle opts, wc_max_total_bytes = fo_write_buf_total opts,
      wc_window_ms = fo_coalesce_ms opts\<rparr>"

datatype MountOption = FSName string | DefaultPermissions | AllowOther | RO

definition mount_opts :: "FuseOptions \<Rightarrow> MountOption list" where
  "mount_opts opts =
     [FSName ''quicfs'', DefaultPermissions] @ (if fo_allow_other opts then [AllowOther] else []) @
     (if fo_readonly opts then [RO] else [])"

section \<open>The table of mounts\<close>

text \<open>Reading \<open>/proc/mounts\<close>, \<open>None\<close> if that fails, and running a command.\<close>

record 'w mounts =
  mt_read :: "'w \<Rightarrow> string option"
  mt_run :: "string list \<Rightarrow> 'w \<Rightarrow> 'w"

definition listed :: "string \<Rightarrow> string \<Rightarrow> bool" where
  "listed path_str m =
     list_ex (\<lambda>l. case split_whitespace l of _ # mp # _ \<Rightarrow> mp = path_str | _ \<Rightarrow> False) (str_lines m)"

definition is_fuse_mount_gone :: "string option \<Rightarrow> string \<Rightarrow> bool" where
  "is_fuse_mount_gone proc_mounts mountpoint =
     (case proc_mounts of Some m \<Rightarrow> \<not> listed (to_string_lossy mountpoint) m | None \<Rightarrow> True)"

definition clear_stale_mount :: "'w mounts \<Rightarrow> string \<Rightarrow> 'w \<Rightarrow> 'w" where
  "clear_stale_mount mt mountpoint w =
     (let path_str = to_string_lossy mountpoint;
          is_mounted = (case mt_read mt w of Some m \<Rightarrow> listed path_str m | None \<Rightarrow> False)
      in if is_mounted
         then let w1 = mt_run mt [''fusermount3'', ''-u'', path_str] w
              in if \<not> is_fuse_mount_gone (mt_read mt w1) mountpoint
                 then mt_run mt [''umount'', ''-l'', path_str] w1 else w1
         else w)"

datatype Shutdown = Signal | Unmounted

text \<open>What wakes the waiting task after the first tick of its timer: a signal, or the timer, with the
  table of mounts at that moment. The loop has not ended when the list has.\<close>

datatype wake = Sigterm | Sigint | Poll "string option"

fun wait_for_shutdown :: "string \<Rightarrow> wake list \<Rightarrow> Shutdown option" where
  "wait_for_shutdown mountpoint [] = None"
| "wait_for_shutdown mountpoint (Sigterm # _) = Some Signal"
| "wait_for_shutdown mountpoint (Sigint # _) = Some Signal"
| "wait_for_shutdown mountpoint (Poll m # ws) =
     (if is_fuse_mount_gone m mountpoint then Some Unmounted else wait_for_shutdown mountpoint ws)"

section \<open>The background task\<close>

text \<open>The period in milliseconds.\<close>

definition background_period :: "u64 \<Rightarrow> u64" where
  "background_period coalesce_ms = max coalesce_ms 1 div 2 + 1"

definition age_drop :: "('n, 'l) fenv \<Rightarrow> ('n, 'l) QuicFs \<Rightarrow> ('n, 'l) QuicFs" where
  "age_drop e s = fold drop_sticky (older_than (instant e s) MAX_UNACKED_AGE (qf_write_buf s)) s"

definition flush_handles :: "('n, 'l) fenv \<Rightarrow> bool \<Rightarrow> u64 list \<Rightarrow> ('n, 'l) QuicFs \<Rightarrow> ('n, 'l) QuicFs" where
  "flush_handles e allow_reopen fhs = fold (\<lambda>fh s. snd (flush_one e fh allow_reopen s)) fhs"

definition background_tick :: "('n, 'l) fenv \<Rightarrow> ('n, 'l) QuicFs \<Rightarrow> ('n, 'l) QuicFs" where
  "background_tick e s =
     (let s1 = age_drop e s
      in flush_handles e False (expired_handles (instant e s1) (qf_write_buf s1)) s1)"

text \<open>\<open>Shutdown::Signal\<close>: every handle is flushed before the session is dropped.\<close>

definition shutdown_flush :: "('n, 'l) fenv \<Rightarrow> Shutdown \<Rightarrow> ('n, 'l) QuicFs \<Rightarrow> ('n, 'l) QuicFs" where
  "shutdown_flush e why s =
     (case why of
        Signal \<Rightarrow> flush_handles e True (handles (qf_write_buf s)) s
      | Unmounted \<Rightarrow> s)"

text \<open>\<open>run_mount\<close> up to the mounted file system; \<open>spawn\<close> is \<open>fuser::spawn_mount2\<close>.\<close>

definition start_mount ::
  "'w mounts \<Rightarrow> 'l lru \<Rightarrow> (MountConfig \<Rightarrow> 'w \<Rightarrow> (anyhow + 'n cm) \<times> 'w) \<Rightarrow>
   (string \<Rightarrow> MountOption list \<Rightarrow> 'w \<Rightarrow> (anyhow + unit) \<times> 'w) \<Rightarrow> MountConfig \<Rightarrow> string \<Rightarrow> FuseOptions \<Rightarrow> 'w \<Rightarrow>
   (anyhow + ('n, 'l) QuicFs) \<times> 'w" where
  "start_mount mt lr conn spawn cfg mountpoint opts w =
     (case conn cfg (clear_stale_mount mt mountpoint w) of
        (Inl _, w1) \<Rightarrow> (Err ''connect to server'', w1)
      | (Inr c, w1) \<Rightarrow>
          (case spawn mountpoint (mount_opts opts) w1 of
             (Inl _, w2) \<Rightarrow> (Err ''spawn FUSE mount'', w2)
           | (Inr _, w2) \<Rightarrow>
               (Ok (quicfs_new lr c (mount_cache_cfg opts) (mount_wbuf_cfg opts) (fo_uid_override opts)
                      (fo_gid_override opts) (fo_remote_root opts)), w2)))"

section \<open>The background task loses nothing in silence\<close>

lemma fold_settled: "(\<And>x t. settled e t (f x t)) \<Longrightarrow> settled e s (fold f xs s)"
  by (induction xs arbitrary: s) (auto intro: settled_refl settled_trans)

lemma fold_qfs_ok: "(\<And>x t. qfs_ok m t \<Longrightarrow> qfs_ok m (f x t)) \<Longrightarrow> qfs_ok m s \<Longrightarrow> qfs_ok m (fold f xs s)"
  by (induction xs arbitrary: s) auto

lemma age_drop_settled: "settled e s (age_drop e s)"
  unfolding age_drop_def by (intro fold_settled drop_sticky_settled)

lemma flush_handles_settled: "settled e s (flush_handles e allow fhs s)"
  unfolding flush_handles_def by (intro fold_settled flush_one_settled)

lemma background_tick_settled: "settled e s (background_tick e s)"
  unfolding background_tick_def Let_def by (rule settled_trans [OF age_drop_settled flush_handles_settled])

lemma flush_one_qfs_ok: "qfs_ok m s \<Longrightarrow> qfs_ok m (snd (flush_one e fh allow s))"
  unfolding flush_one_def by (rule flush_attempts_ok [OF prod.collapse [symmetric]])

lemma background_tick_qfs_ok: "qfs_ok m s \<Longrightarrow> qfs_ok m (background_tick e s)"
  by (simp add: background_tick_def age_drop_def flush_handles_def Let_def fold_qfs_ok drop_sticky_ok flush_one_qfs_ok)

lemma drop_sticky_older:
  assumes "distinct (map fst (wb_per_handle (qf_write_buf s)))"
  shows "older_than t d (qf_write_buf (drop_sticky fh s)) = removeAll fh (older_than t d (qf_write_buf s))"
    and "distinct (map fst (wb_per_handle (qf_write_buf (drop_sticky fh s))))"
proof -
  have del: "map fst (filter P (AList.delete fh al)) = removeAll fh (map fst (filter P al))" for P and al :: "(u64 \<times> HandleBuf) list"
    by (induction al) (auto simp: AList.delete_eq case_prod_unfold)
  have gone: "fh \<notin> set (map fst al) \<Longrightarrow> removeAll fh (map fst (filter P al)) = map fst (filter P al)"
    for P and al :: "(u64 \<times> HandleBuf) list"
    by (intro removeAll_id) auto
  show "older_than t d (qf_write_buf (drop_sticky fh s)) = removeAll fh (older_than t d (qf_write_buf s))"
  proof (cases "map_of (wb_per_handle (qf_write_buf s)) fh")
    case None
    then have "fh \<notin> set (map fst (wb_per_handle (qf_write_buf s)))" by (simp add: map_of_eq_None_iff)
    with None show ?thesis by (simp add: drop_sticky_def drop_handle_def older_than_def gone)
  next
    case (Some hb)
    then show ?thesis by (simp add: drop_sticky_def drop_handle_def older_than_def del)
  qed
  show "distinct (map fst (wb_per_handle (qf_write_buf (drop_sticky fh s))))"
    using assms by (auto simp: drop_sticky_def drop_handle_def distinct_delete split: option.split)
qed

lemma age_drop_older:
  assumes "distinct (map fst (wb_per_handle (qf_write_buf s)))"
  shows "older_than (instant e s) MAX_UNACKED_AGE (qf_write_buf (age_drop e s)) = []"
proof -
  have "set (older_than t d (qf_write_buf (fold drop_sticky fhs u))) = set (older_than t d (qf_write_buf u)) - set fhs"
    if "distinct (map fst (wb_per_handle (qf_write_buf u)))" for fhs t d and u :: "('a, 'b) QuicFs"
    using that by (induction fhs arbitrary: u) (auto simp: drop_sticky_older)
  from this [OF assms] show ?thesis by (simp add: age_drop_def flip: set_empty)
qed

text \<open>An environment in which any number of ticks falls into each sleep of a callback; it keeps the
  contract that a close relies on.\<close>

definition with_background :: "(nat \<Rightarrow> nat) \<Rightarrow> ('n, 'l) fenv \<Rightarrow> ('n, 'l) fenv" where
  "with_background ticks e = e\<lparr>fe_sleep := \<lambda>ms. background_tick e ^^ ticks ms\<rparr>"

lemma wrun_conn:
  assumes "wrun e fh s q s'" and "fe_conn e' = fe_conn e"
  shows "wrun e' fh s q s'"
proof -
  have send: "send_chunks e' sh ps = send_chunks e sh ps" for sh ps
    by (induction ps) (auto simp: fun_eq_iff andthen_def assms(2) split: prod.split sum.split)
  show ?thesis
    using assms(1)
  proof (induction rule: wrun.induct)
    case (Reopen q s1 path flags)
    then show ?case using wrun.Reopen [of e' fh s q s1 path flags] by (simp add: assms(2))
  next
    case (Send q s1 sh ps)
    then show ?case using wrun.Send [of e' fh s q s1 sh ps] by (simp add: send)
  next
    case (Acked q s1 q1 s3 sh s2)
    then show ?case by (intro wrun.Acked [OF Acked.IH Acked.hyps(2,3)]) (simp_all add: send)
  qed (auto intro: wrun.intros)
qed

lemma with_background_settled: "settled (with_background ticks e) s (fe_sleep (with_background ticks e) ms s)"
proof -
  let ?e = "with_background ticks e"
  have "settled ?e t (background_tick e t)" for t
    using background_tick_settled [of e t] wrun_conn [where e = e and e' = ?e]
    unfolding settled_def by (fastforce simp: with_background_def)
  then have "settled ?e s ((background_tick e ^^ n) s)" for n
    by (induction n) (auto intro: settled_refl settled_trans)
  then show ?thesis by (simp add: with_background_def)
qed

interpretation bg: quiet_sleep "with_background ticks e"
  for ticks :: "nat \<Rightarrow> nat" and e :: "('n, 'l) fenv"
  by unfold_locales (rule with_background_settled)

text \<open>C16: The background task keeps the account and bounds the age of what it keeps. Whatever the network
  does, a tick loses no write in silence: a handle whose writes it drops carries a sticky error, every
  other write leaves the buffer acknowledged or stays. After its first half no write of a handle is
  older than \<open>MAX_UNACKED_AGE\<close> at the time of the tick, and the state stays well formed. So a close
  that succeeds has lost nothing however many ticks ran while it slept.\<close>

theorem background_accounts:
  assumes "qfs_ok m s"
  shows "settled e s (background_tick e s) \<and> qfs_ok m (background_tick e s) \<and>
    older_than (instant e s) MAX_UNACKED_AGE (qf_write_buf (age_drop e s)) = [] \<and>
    (fuse_flush (with_background ticks e) fh s = (Inr (), s') \<longrightarrow>
       \<not> has_buffered (qf_write_buf s') fh \<and> fh \<notin> qf_write_errors s \<and>
       wrun (with_background ticks e) fh s (queued (qf_write_buf s) fh) s')"
proof -
  have "distinct (map fst (wb_per_handle (qf_write_buf s)))" using assms by (simp add: qfs_ok_def wb_ok_def)
  with assms bg.close_accounted [of ticks e fh s s'] show ?thesis
    by (simp add: background_tick_settled background_tick_qfs_ok age_drop_older)
qed

theorem background_accounts_witness:
  "let s = mem_pending\<lparr>qf_next_client_fh := 2\<rparr>
   in settled mem_fenv s (background_tick mem_fenv s) \<and> qfs_ok 2 (background_tick mem_fenv s)"
proof -
  have "wb_ok (snd (push 1 3 [9] 0 (write_buffer_new 4 8 10)))" by (simp add: push_wb_ok wb_ok_new)
  then have "qfs_ok 2 (mem_pending\<lparr>qf_next_client_fh := 2\<rparr>)"
    by (simp add: qfs_ok_def mem_pending_def mem_qfs_def quicfs_new_def O_APPEND_def)
  then show ?thesis unfolding Let_def using background_accounts by blast
qed

section \<open>Reading the table of mounts\<close>

text \<open>A line of the table: the device, the mount point and the rest, as the kernel writes them.\<close>

definition mount_line :: "string \<times> string \<times> string \<Rightarrow> string" where
  "mount_line l = (case l of (dev, mp, rest) \<Rightarrow> dev @ '' '' @ mp @ '' '' @ rest)"

definition line_ok :: "string \<times> string \<times> string \<Rightarrow> bool" where
  "line_ok l =
     (case l of (dev, mp, rest) \<Rightarrow>
        graphic_word dev \<and> graphic_word mp \<and> rest \<noteq> [] \<and> graphic (last rest) \<and> CHR 0x0A \<notin> set rest)"

definition mounts_text :: "(string \<times> string \<times> string) list \<Rightarrow> string" where
  "mounts_text ls = concat (map (\<lambda>l. l @ [CHR 0x0A]) (map mount_line ls))"

lemma split_mount_line:
  assumes "line_ok (dev, mp, rest)"
  shows "split_whitespace (mount_line (dev, mp, rest)) = dev # mp # split_whitespace rest"
proof -
  have "list_all graphic dev" "list_all graphic mp" "dev \<noteq> []" "mp \<noteq> []"
    using assms by (simp_all add: line_ok_def graphic_word_def)
  then show ?thesis
    by (simp add: mount_line_def split_whitespace_def words_from_graphic)
qed

lemma listed_mounts_text:
  assumes "list_all line_ok ls"
  shows "listed p (mounts_text ls) \<longleftrightarrow> p \<in> set (map (fst \<circ> snd) ls)"
proof -
  have lf: "\<forall>l\<in>set (map mount_line ls). CHR 0x0A \<notin> set l"
    using assms graphic_word_ends by (fastforce simp: list_all_iff line_ok_def mount_line_def)
  have cr: "strip_cr (mount_line l) = mount_line l" if "l \<in> set ls" for l
    using that assms by (intro strip_cr_graphic) (auto simp: list_all_iff line_ok_def mount_line_def)
  have "str_lines (mounts_text ls) = map mount_line ls"
    unfolding mounts_text_def str_lines_concat [OF lf] using cr by (simp add: map_idI)
  moreover have "(case split_whitespace (mount_line l) of _ # mp # _ \<Rightarrow> mp = p | _ \<Rightarrow> False) \<longleftrightarrow> fst (snd l) = p"
    if "l \<in> set ls" for l
    using that assms split_mount_line [of "fst l" "fst (snd l)" "snd (snd l)"] by (auto simp: list_all_iff)
  ultimately show ?thesis by (auto simp: listed_def list_ex_iff)
qed

text \<open>C38: The wait for the end of a mount. While every polled table of mounts lists the mount point, only
  a signal ends the wait, and the writes that are still buffered are flushed; the first table that
  does not list it ends the wait at once, as an unmount from outside.\<close>

theorem wait_until_gone:
  assumes "list_all (list_all line_ok) tables"
  shows "wait_for_shutdown mountpoint (map (\<lambda>t. Poll (Some (mounts_text t))) tables @ Sigterm # ws) =
    Some (if list_all (\<lambda>t. to_string_lossy mountpoint \<in> set (map (fst \<circ> snd) t)) tables
          then Signal else Unmounted)"
  using assms by (induction tables) (simp_all add: is_fuse_mount_gone_def listed_mounts_text)

theorem wait_until_gone_witness:
  "wait_for_shutdown ''/m'' [Poll (Some (mounts_text [(''quicfs'', ''/m'', ''fuse rw 0 0'')])),
     Poll (Some (mounts_text [(''proc'', ''/proc'', ''proc rw 0 0'')])), Sigterm] = Some Unmounted"
proof -
  have "to_string_lossy ''/m'' = ''/m''" by (intro to_string_lossy_valid ascii_utf8) simp
  then show ?thesis
    using wait_until_gone [of "[[(''quicfs'', ''/m'', ''fuse rw 0 0'')], [(''proc'', ''/proc'', ''proc rw 0 0'')]]" "''/m''" "[]"]
    by (simp add: line_ok_def graphic_word_def graphic_def)
qed

text \<open>The table holds absolute paths in which a space is written as an escape. A mount point that was
  given as a relative path, or whose name has a space, is therefore never listed: the first poll
  takes the mount for gone, one second after it was made.\<close>

lemma unlisted_mountpoint:
  assumes "list_all line_ok ls" and "list_all (\<lambda>(_, mp, _). hd mp = CHR ''/'') ls"
    and "hd (to_string_lossy mountpoint) \<noteq> CHR ''/'' \<or> CHR '' '' \<in> set (to_string_lossy mountpoint)"
  shows "wait_for_shutdown mountpoint (Poll (Some (mounts_text ls)) # ws) = Some Unmounted"
proof -
  have "\<not> graphic (CHR '' '')" by (simp add: graphic_def)
  then have "to_string_lossy mountpoint \<notin> set (map (fst \<circ> snd) ls)"
    using assms by (fastforce simp: list_all_iff line_ok_def graphic_word_def)
  then show ?thesis by (simp add: is_fuse_mount_gone_def listed_mounts_text [OF assms(1)])
qed

text \<open>The check for a stale mount looks at the mount point only: whatever is mounted there, of whatever
  type and whether its process lives or not, is unmounted.\<close>

lemma clear_stale_mount_any:
  assumes "mt_read mt w = Some (mounts_text ls)" and "list_all line_ok ls"
    and "(dev, to_string_lossy mountpoint, rest) \<in> set ls"
    and "is_fuse_mount_gone (mt_read mt (mt_run mt [''fusermount3'', ''-u'', to_string_lossy mountpoint] w)) mountpoint"
  shows "clear_stale_mount mt mountpoint w = mt_run mt [''fusermount3'', ''-u'', to_string_lossy mountpoint] w"
proof -
  have "to_string_lossy mountpoint \<in> set (map (fst \<circ> snd) ls)" using assms(3) by force
  with assms show ?thesis by (simp add: clear_stale_mount_def listed_mounts_text)
qed

section \<open>A fence during a background flush\<close>

text \<open>While the background task is sending the writes of a handle, a second flush of the handle has
  nothing to do and reports success. The fence before a truncating open therefore lets the open pass
  although the writes are still on their way.\<close>

lemma fence_passes_in_flight:
  assumes "wb_per_handle (qf_write_buf s) = [(fh, hb)]" and "hb_sending hb"
    and "qf_open_files s fh = Some f" and "of_opened_gen f = reconnect_gen (qf_conn s)"
  shows "fence_truncating_open e flags s = (Inr (), s)"
proof -
  have "flush_handle e fh s = (Inr (), s)"
    using assms by (simp add: flush_handle_def flush_one_def numeral_2_eq_2 ensure_live_def begin_flush_def)
  then show ?thesis
    using assms(1) by (simp add: fence_truncating_open_def flush_all_handles_def handles_def)
qed

end
