(* ===== verification/Client_Cli.thy ===== *)
theory Client_Cli
  imports Mount Trust
begin

text \<open>
  The client's program (\<open>client/src/main.rs\<close>): the choice of the subcommand, the remote specification
  \<open>[user@]host[:/path]\<close>, the pinning policy and the configuration of a mount. The argument parser
  clap, the resolver of socket addresses and \<open>{:?}\<close> are parameters. A length of the type \<open>usize\<close> is a
  natural number below $2^{64}$.
\<close>

definition DEFAULT_PORT :: u16 where "DEFAULT_PORT = 9001"

section \<open>Arguments\<close>

record MountArgs =
  ma_spec :: string
  ma_mountpoint :: string
  ma_port :: u16
  ma_accept_new :: bool
  ma_strict_host_key :: bool
  ma_identity :: "string option"
  ma_known_hosts :: "string option"
  ma_server_name :: "string option"
  ma_chunk_size :: u32
  ma_cache_ttl :: u64
  ma_allow_other :: bool
  ma_readonly :: bool
  ma_log_level :: string
  ma_uid :: "u32 option"
  ma_gid :: "u32 option"
  ma_write_buf :: nat
  ma_coalesce_ms :: u64

record PingArgs =
  pa_spec :: string
  pa_port :: u16
  pa_accept_new :: bool
  pa_strict_host_key :: bool
  pa_identity :: "string option"
  pa_known_hosts :: "string option"
  pa_server_name :: "string option"

text \<open>What the command line asks for; the lists are what clap parses.\<close>

datatype command = Help | Version | Key | KnownHosts_Cmd | Ping "string list" | Mount_Cmd "string list"

definition sub_args :: "string list \<Rightarrow> string list" where
  "sub_args argv = (''quicfs '' @ (if length argv > 1 then argv ! 1 else [])) # drop 2 argv"

definition cli_command :: "string list \<Rightarrow> command" where
  "cli_command argv =
     (let verb = (if length argv > 1 then argv ! 1 else [])
      in if verb \<in> set [[], ''-h'', ''--help'', ''help''] then Help
         else if verb = ''--version'' \<or> verb = ''-V'' then Version
         else if verb = ''key'' then Key
         else if verb = ''known-hosts'' then KnownHosts_Cmd
         else if verb = ''ping'' then Ping (sub_args argv)
         else if verb = ''mount'' then Mount_Cmd (sub_args argv)
         else Mount_Cmd (''quicfs mount'' # drop 1 argv))"

definition tofu :: "bool \<Rightarrow> bool \<Rightarrow> TofuPolicy" where
  "tofu accept_new strict = (if strict then Strict else if accept_new then AcceptNew else Prompt)"

definition current_user :: "string option \<Rightarrow> string option \<Rightarrow> string" where
  "current_user user username =
     (case user of Some u \<Rightarrow> u | None \<Rightarrow> (case username of Some u \<Rightarrow> u | None \<Rightarrow> ''user''))"

section \<open>The remote specification\<close>

definition split_host :: "string \<Rightarrow> anyhow + string \<times> string" where
  "split_host rest =
     (case strip_prefix ''['' rest of
        Some stripped \<Rightarrow>
          (case find_str '']'' stripped of
             None \<Rightarrow> Err (''unterminated '' @ [CHR 0x27, CHR ''['', CHR 0x27] @ '' in host'')
           | Some n \<Rightarrow>
               (let after = drop (n + 1) stripped
                in Ok (take n stripped, case strip_prefix '':'' after of Some p \<Rightarrow> p | None \<Rightarrow> after)))
      | None \<Rightarrow>
          (case split_once (CHR '':'') rest of
             Some (h, p) \<Rightarrow> Ok (h, p)
           | None \<Rightarrow> Ok (rest, [])))"

text \<open>\<open>parse_spec\<close>; \<open>me\<close> is the current user.\<close>

definition parse_spec :: "(string \<Rightarrow> string) \<Rightarrow> string \<Rightarrow> string \<Rightarrow> anyhow + string \<times> string \<times> string" where
  "parse_spec debug me spec =
     (case (case split_once (CHR ''@'') spec of Some (u, r) \<Rightarrow> (u, r) | None \<Rightarrow> (me, spec)) of
        (user, rest) \<Rightarrow>
          (case split_host rest of
             Inl e \<Rightarrow> Err e
           | Inr (host, path) \<Rightarrow>
               if host = [] then Err (''no host in spec: '' @ debug spec)
               else Ok (user, host,
                 if path = [] then ''/'' else if starts_with ''/'' path then path else CHR ''/'' # path)))"

section \<open>The configuration of a mount\<close>

text \<open>Outside the repository: the parser and the resolver of socket addresses, and \<open>{:?}\<close>.\<close>

record 'a chost =
  ch_env :: host_env
  ch_user :: string
  ch_parse_addr :: "string \<Rightarrow> 'a option"
  ch_to_socket_addrs :: "string \<Rightarrow> 'a list option"
  ch_is_ipv4 :: "'a \<Rightarrow> bool"
  ch_debug :: "string \<Rightarrow> string"

definition host_port :: "string \<Rightarrow> u16 \<Rightarrow> string" where
  "host_port host port = host @ '':'' @ show_nat (unat port)"

definition resolve_addr :: "'a chost \<Rightarrow> string \<Rightarrow> u16 \<Rightarrow> anyhow + 'a" where
  "resolve_addr ch host port =
     (case ch_parse_addr ch (host_port host port) of
        Some addr \<Rightarrow> Ok addr
      | None \<Rightarrow>
          (let addrs = (case ch_to_socket_addrs ch (host_port host port) of Some as \<Rightarrow> as | None \<Rightarrow> [])
           in case find (ch_is_ipv4 ch) addrs of
                Some a \<Rightarrow> Ok a
              | None \<Rightarrow> (case addrs of a # _ \<Rightarrow> Ok a | [] \<Rightarrow> Err (''resolve '' @ host_port host port))))"

text \<open>The fields of \<open>MountConfig\<close> that only the TLS set-up reads extend the record.\<close>

record 'a full_config = MountConfig +
  mc_server_addr :: 'a
  mc_server_name :: string
  mc_client_cert_pem :: string
  mc_client_key_pem :: string

definition build_config ::
  "crypto \<Rightarrow> 'a chost \<Rightarrow> 'fs files \<Rightarrow> string \<Rightarrow> u16 \<Rightarrow> string option \<Rightarrow> string \<Rightarrow> TofuPolicy \<Rightarrow> string option \<Rightarrow>
   string option \<Rightarrow> u32 \<Rightarrow> 'fs \<Rightarrow> (anyhow + 'a full_config) \<times> 'fs" where
  "build_config cr ch uf host port server_name_override spec policy identity_dir known_hosts_path chunk_size fs =
     (if chunk_size = 0 then (Err ''--chunk-size must be greater than 0'', fs)
      else case parse_spec (ch_debug ch) (ch_user ch) spec of
             Inl e \<Rightarrow> (Err e, fs)
           | Inr (user, _, _) \<Rightarrow>
      (case resolve_addr ch host port of
         Inl e \<Rightarrow> (Err e, fs)
       | Inr addr \<Rightarrow>
      (case (case identity_dir of Some d \<Rightarrow> Ok d | None \<Rightarrow> config_dir (ch_env ch)) of
         Inl e \<Rightarrow> (Err e, fs)
       | Inr id_dir \<Rightarrow>
      (case load_or_generate cr uf id_dir ''client'' user fs of
         (Inl _, fs1) \<Rightarrow> (Err ''load/generate client identity'', fs1)
       | (Inr identity, fs1) \<Rightarrow>
      (case (case known_hosts_path of Some p \<Rightarrow> Ok p | None \<Rightarrow> known_hosts_default_path (ch_env ch)) of
         Inl e \<Rightarrow> (Err e, fs1)
       | Inr kh_file \<Rightarrow>
           (Ok \<lparr>mc_host_key = host_port host port, mc_chunk_size = chunk_size, mc_tofu = policy,
                mc_known_hosts_path = kh_file, mc_server_addr = addr,
                mc_server_name = (case server_name_override of Some s \<Rightarrow> s | None \<Rightarrow> host),
                mc_client_cert_pem = id_cert_pem identity, mc_client_key_pem = id_key_pem identity\<rparr>, fs1))))))"

text \<open>The part of \<open>run_mount\<close> before the call of the mount.\<close>

definition mount_request ::
  "crypto \<Rightarrow> 'a chost \<Rightarrow> 'fs files \<Rightarrow> MountArgs \<Rightarrow> 'fs \<Rightarrow> (anyhow + 'a full_config \<times> FuseOptions) \<times> 'fs" where
  "mount_request cr ch uf args fs =
     (case parse_spec (ch_debug ch) (ch_user ch) (ma_spec args) of
        Inl e \<Rightarrow> (Err e, fs)
      | Inr (_, host, remote_path) \<Rightarrow>
          (case build_config cr ch uf host (ma_port args) (ma_server_name args) (ma_spec args)
                  (tofu (ma_accept_new args) (ma_strict_host_key args)) (ma_identity args)
                  (ma_known_hosts args) (ma_chunk_size args) fs of
             (Inl e, fs1) \<Rightarrow> (Err e, fs1)
           | (Inr cfg, fs1) \<Rightarrow>
               (let write_buf_total = min (ma_write_buf args * 8 mod 2 ^ 64) (64 * 1024 * 1024)
                in (Ok (cfg,
                     \<lparr>fo_allow_other = ma_allow_other args, fo_readonly = ma_readonly args,
                      fo_cache_ttl_ms = ma_cache_ttl args, fo_uid_override = ma_uid args,
                      fo_gid_override = ma_gid args, fo_write_buf_per_handle = ma_write_buf args,
                      fo_write_buf_total = write_buf_total, fo_coalesce_ms = ma_coalesce_ms args,
                      fo_remote_root = remote_path\<rparr>), fs1))))"

text \<open>\<open>run_ping\<close>; the result is the fingerprint that is printed after \<open>OK\<close>, and \<open>conn\<close> is
  \<open>ConnManager::connect\<close>.\<close>

definition run_ping ::
  "crypto \<Rightarrow> 'a chost \<Rightarrow> 'fs files \<Rightarrow> 'n cenv \<Rightarrow> ('a full_config \<Rightarrow> 'fs \<Rightarrow> (anyhow + 'n cm) \<times> 'fs) \<Rightarrow> PingArgs \<Rightarrow> 'fs \<Rightarrow>
   (anyhow + string option) \<times> 'fs" where
  "run_ping cr ch uf ce conn args fs =
     (case parse_spec (ch_debug ch) (ch_user ch) (pa_spec args) of
        Inl e \<Rightarrow> (Err e, fs)
      | Inr (_, host, _) \<Rightarrow>
          (case build_config cr ch uf host (pa_port args) (pa_server_name args) (pa_spec args)
                  (tofu (pa_accept_new args) (pa_strict_host_key args)) (pa_identity args)
                  (pa_known_hosts args) 262144 fs of
             (Inl e, fs1) \<Rightarrow> (Err e, fs1)
           | (Inr cfg, fs1) \<Rightarrow>
               (case conn cfg fs1 of
                  (Inl e, fs2) \<Rightarrow> (Err e, fs2)
                | (Inr c, fs2) \<Rightarrow>
                    (case cm_ping ce c of
                       (Inl e, _) \<Rightarrow> (Err e, fs2)
                     | (Inr _, c1) \<Rightarrow> (Ok (server_fingerprint c1), fs2)))))"

text \<open>\<open>cmd_key\<close> and \<open>cmd_known_hosts\<close>; the results are what they print to the standard output.\<close>

definition cmd_key :: "crypto \<Rightarrow> 'a chost \<Rightarrow> 'fs files \<Rightarrow> 'fs \<Rightarrow> (anyhow + string) \<times> 'fs" where
  "cmd_key cr ch uf fs =
     (case config_dir (ch_env ch) of
        Inl e \<Rightarrow> (Err e, fs)
      | Inr dir \<Rightarrow>
          (case load_or_generate cr uf dir ''client'' (ch_user ch) fs of
             (Inl _, fs1) \<Rightarrow> (Err ''load/generate client identity'', fs1)
           | (Inr idn, fs1) \<Rightarrow> (Ok (id_fingerprint idn), fs1)))"

definition cmd_known_hosts :: "'a chost \<Rightarrow> 'fs files \<Rightarrow> 'fs \<Rightarrow> anyhow + string" where
  "cmd_known_hosts ch uf fs =
     (case known_hosts_default_path (ch_env ch) of
        Inl e \<Rightarrow> Err e
      | Inr path \<Rightarrow>
          (case known_hosts_load uf fs path of
             Inl e \<Rightarrow> Err e
           | Inr _ \<Rightarrow>
               Ok (''known_hosts: '' @ to_string_lossy path @ [CHR 0x0A] @
                   (if uf_exists uf fs path
                    then case uf_read_to_string uf fs path of Inr t \<Rightarrow> t | Inl _ \<Rightarrow> [] else []))))"

section \<open>Lemmas\<close>

lemma split_once_sep: "c \<notin> set a \<Longrightarrow> split_once c (a @ c # b) = Some (a, b)"
  by (simp add: split_once_def takeWhile_sep dropWhile_sep)

lemma find_bracket: "CHR '']'' \<notin> set h \<Longrightarrow> find_str '']'' (h @ CHR '']'' # r) = Some (length h)"
  by (induction h) (auto simp: starts_with_def)

lemma split_host_name:
  "h \<noteq> [] \<Longrightarrow> hd h \<noteq> CHR ''['' \<Longrightarrow> CHR '':'' \<notin> set h \<Longrightarrow> split_host (h @ CHR '':'' # p) = Ok (h, p)"
  by (cases h) (simp_all add: split_host_def strip_prefix_def starts_with_def split_once_sep [of _ "_ # _", simplified])

lemma split_host_bracket:
  "CHR '']'' \<notin> set h \<Longrightarrow> split_host (CHR ''['' # h @ CHR '']'' # CHR '':'' # p) = Ok (h, p)"
  by (simp add: split_host_def strip_prefix_def starts_with_def find_bracket)

lemma parse_spec_user:
  assumes "CHR ''@'' \<notin> set u" and "split_host rest = Ok (h, p)" and "h \<noteq> []" and "starts_with ''/'' p"
  shows "parse_spec debug me (u @ CHR ''@'' # rest) = Ok (u, h, p)"
  using assms split_once_sep [OF assms(1), of rest] by (auto simp: parse_spec_def starts_with_def)

lemma parse_spec_no_user:
  assumes "CHR ''@'' \<notin> set rest" and "split_host rest = Ok (h, p)" and "h \<noteq> []" and "starts_with ''/'' p"
  shows "parse_spec debug me rest = Ok (me, h, p)"
  using assms by (auto simp: parse_spec_def split_once_None [THEN iffD2] starts_with_def)

lemma parse_spec_shape:
  "parse_spec debug me spec = Ok (u, h, p) \<Longrightarrow> h \<noteq> [] \<and> starts_with ''/'' p"
  by (auto simp: parse_spec_def starts_with_def split: sum.splits prod.splits if_splits)

text \<open>C37: The remote specification is read back. A user, a host and an absolute path come out of
  \<open>user@host:/path\<close> as they went in, whatever the path holds; an address in brackets may hold
  colons; without a user, and if no \<open>@\<close> occurs, the current user is taken. Every specification that
  is accepted has a host and an absolute path.\<close>

theorem parse_spec_roundtrip:
  assumes "CHR ''@'' \<notin> set u" and "h \<noteq> []" and "starts_with ''/'' p"
  shows "(hd h \<noteq> CHR ''['' \<and> CHR '':'' \<notin> set h \<longrightarrow>
      parse_spec debug me (u @ ''@'' @ h @ '':'' @ p) = Ok (u, h, p)) \<and>
    (CHR '']'' \<notin> set h \<longrightarrow> parse_spec debug me (u @ ''@['' @ h @ '']:'' @ p) = Ok (u, h, p)) \<and>
    (hd h \<noteq> CHR ''['' \<and> CHR '':'' \<notin> set h \<and> CHR ''@'' \<notin> set h \<union> set p \<longrightarrow>
      parse_spec debug me (h @ '':'' @ p) = Ok (me, h, p)) \<and>
    (parse_spec debug me spec = Ok (u', h', p') \<longrightarrow> h' \<noteq> [] \<and> starts_with ''/'' p')"
  using parse_spec_user [OF assms(1) split_host_name assms(2,3)] assms
    parse_spec_user [OF assms(1) split_host_bracket assms(2,3)]
    parse_spec_no_user [OF _ split_host_name assms(2,3)] parse_spec_shape
  by auto

theorem parse_spec_roundtrip_witness:
  "parse_spec id ''me'' ''al@srv:/a@b'' = Ok (''al'', ''srv'', ''/a@b'') \<and>
   parse_spec id ''me'' ''al@[::1]:/p'' = Ok (''al'', ''::1'', ''/p'')"
  using parse_spec_roundtrip [of "''al''" "''srv''" "''/a@b''" id "''me''" "[]" "[]" "[]" "[]"]
    parse_spec_roundtrip [of "''al''" "''::1''" "''/p''" id "''me''" "[]" "[]" "[]" "[]"]
  by (simp add: starts_with_def)

text \<open>Without a user, an \<open>@\<close> in the path is taken for the end of the user: the client would connect to
  another host than the one that was named.\<close>

lemma parse_spec_at_in_path: "parse_spec debug me ''srv:/data@v2'' = Ok (''srv:/data'', ''v2'', ''/'')"
  by (simp add: parse_spec_def split_once_def split_host_def strip_prefix_def starts_with_def)

end
