(* ===== verification/Server_Main.thy ===== *)
theory Server_Main
  imports Dispatch "HOL-Library.Multiset"
begin

text \<open>
  The server's program: its configuration (\<open>server/src/config.rs\<close>), the transport settings
  (\<open>server/src/endpoint.rs\<close>), the commands \<open>run\<close>, \<open>fingerprint\<close> and \<open>authorize\<close> and the accept
  loop (\<open>server/src/main.rs\<close>). The TOML parser, the parser of socket addresses and the construction of
  the QUIC endpoint are parameters; so are the environment variables and the directories that the
  crate \<open>dirs\<close> finds. The accept loop and the connection tasks are a labelled step relation, in
  which the guards of a connection are dropped in separate steps, in any interleaving.
\<close>

section \<open>Configuration\<close>

record ServerSection =
  sv_listen :: string
  sv_export_root :: string
  sv_max_clients :: u32
  sv_max_conns_per_ip :: u32
  sv_log_level :: string

record TlsSection =
  tl_cert :: "string option"
  tl_key :: "string option"

record AuthSection =
  au_authorized_keys :: "string option"
  au_allow_any_client :: bool

record QuicSection =
  qs_connection_receive_window :: u64
  qs_stream_receive_window :: u32
  qs_max_concurrent_bidi_streams :: u32
  qs_keep_alive_interval_ms :: u64
  qs_idle_timeout_ms :: u64
  qs_migration :: bool
  qs_zero_rtt :: bool

record LimitsSection =
  lm_max_open_handles :: u32
  lm_rpc_timeout_ms :: u64

record DurabilitySection =
  du_sync_on_close :: bool
  du_sync_metadata :: bool

record Config =
  cf_server :: ServerSection
  cf_tls :: TlsSection
  cf_quic :: QuicSection
  cf_limits :: LimitsSection
  cf_auth :: AuthSection
  cf_durability :: DurabilitySection

definition default_max_clients :: u32 where "default_max_clients = 128"

definition default_log_level :: string where "default_log_level = ''info''"

definition default_conn_recv_window :: u64 where "default_conn_recv_window = 67108864"

definition default_stream_recv_window :: u32 where "default_stream_recv_window = 16777216"

definition default_max_bidi_streams :: u32 where "default_max_bidi_streams = 256"

definition default_keepalive_ms :: u64 where "default_keepalive_ms = 15000"

definition default_idle_timeout_ms :: u64 where "default_idle_timeout_ms = 300000"

definition default_true :: bool where "default_true = True"

definition default_max_handles :: u32 where "default_max_handles = 8192"

definition default_rpc_timeout_ms :: u64 where "default_rpc_timeout_ms = 30000"

definition quic_default :: QuicSection where
  "quic_default =
     \<lparr>qs_connection_receive_window = default_conn_recv_window,
      qs_stream_receive_window = default_stream_recv_window,
      qs_max_concurrent_bidi_streams = default_max_bidi_streams,
      qs_keep_alive_interval_ms = default_keepalive_ms, qs_idle_timeout_ms = default_idle_timeout_ms,
      qs_migration = default_true, qs_zero_rtt = False\<rparr>"

definition limits_default :: LimitsSection where
  "limits_default = \<lparr>lm_max_open_handles = default_max_handles, lm_rpc_timeout_ms = default_rpc_timeout_ms\<rparr>"

text \<open>What a TOML document gives: every section and every field may be missing. The derived
  deserializers fill the fields as their attributes say; the section \<open>server\<close> and its fields
  \<open>listen\<close> and \<open>export_root\<close> have no default.\<close>

record toml_server =
  ts_listen :: "string option"
  ts_export_root :: "string option"
  ts_max_clients :: "u32 option"
  ts_max_conns_per_ip :: "u32 option"
  ts_log_level :: "string option"

record toml_quic =
  tq_connection_receive_window :: "u64 option"
  tq_stream_receive_window :: "u32 option"
  tq_max_concurrent_bidi_streams :: "u32 option"
  tq_keep_alive_interval_ms :: "u64 option"
  tq_idle_timeout_ms :: "u64 option"
  tq_migration :: "bool option"
  tq_zero_rtt :: "bool option"

record toml_doc =
  td_server :: "toml_server option"
  td_tls :: "(string option \<times> string option) option"
  td_quic :: "toml_quic option"
  td_limits :: "(u32 option \<times> u64 option) option"
  td_auth :: "(string option \<times> bool option) option"
  td_durability :: "(bool option \<times> bool option) option"

definition or_default :: "'a \<Rightarrow> 'a option \<Rightarrow> 'a" where
  "or_default d x = (case x of Some v \<Rightarrow> v | None \<Rightarrow> d)"

definition server_section :: "toml_server option \<Rightarrow> ServerSection option" where
  "server_section t =
     Option.bind t (\<lambda>s. Option.bind (ts_listen s) (\<lambda>listen. map_option (\<lambda>export_root.
       \<lparr>sv_listen = listen, sv_export_root = export_root,
        sv_max_clients = or_default default_max_clients (ts_max_clients s),
        sv_max_conns_per_ip = or_default 0 (ts_max_conns_per_ip s),
        sv_log_level = or_default default_log_level (ts_log_level s)\<rparr>) (ts_export_root s)))"

definition tls_section :: "(string option \<times> string option) option \<Rightarrow> TlsSection" where
  "tls_section t = (case or_default (None, None) t of (cert, key) \<Rightarrow> \<lparr>tl_cert = cert, tl_key = key\<rparr>)"

definition auth_section :: "(string option \<times> bool option) option \<Rightarrow> AuthSection" where
  "auth_section t =
     (case or_default (None, None) t of
        (keys, allow) \<Rightarrow> \<lparr>au_authorized_keys = keys, au_allow_any_client = or_default False allow\<rparr>)"

definition quic_section :: "toml_quic option \<Rightarrow> QuicSection" where
  "quic_section t =
     (case t of
        None \<Rightarrow> quic_default
      | Some q \<Rightarrow>
          \<lparr>qs_connection_receive_window = or_default default_conn_recv_window (tq_connection_receive_window q),
           qs_stream_receive_window = or_default default_stream_recv_window (tq_stream_receive_window q),
           qs_max_concurrent_bidi_streams = or_default default_max_bidi_streams (tq_max_concurrent_bidi_streams q),
           qs_keep_alive_interval_ms = or_default default_keepalive_ms (tq_keep_alive_interval_ms q),
           qs_idle_timeout_ms = or_default default_idle_timeout_ms (tq_idle_timeout_ms q),
           qs_migration = or_default default_true (tq_migration q), qs_zero_rtt = or_default False (tq_zero_rtt q)\<rparr>)"

definition limits_section :: "(u32 option \<times> u64 option) option \<Rightarrow> LimitsSection" where
  "limits_section t =
     (case t of
        None \<Rightarrow> limits_default
      | Some (handles, timeout) \<Rightarrow>
          \<lparr>lm_max_open_handles = or_default default_max_handles handles,
           lm_rpc_timeout_ms = or_default default_rpc_timeout_ms timeout\<rparr>)"

definition durability_section :: "(bool option \<times> bool option) option \<Rightarrow> DurabilitySection" where
  "durability_section t =
     (case or_default (None, None) t of
        (soc, sm) \<Rightarrow> \<lparr>du_sync_on_close = or_default False soc, du_sync_metadata = or_default False sm\<rparr>)"

definition config_of_toml :: "toml_doc \<Rightarrow> Config option" where
  "config_of_toml t =
     map_option (\<lambda>s.
       \<lparr>cf_server = s, cf_tls = tls_section (td_tls t), cf_quic = quic_section (td_quic t),
        cf_limits = limits_section (td_limits t), cf_auth = auth_section (td_auth t),
        cf_durability = durability_section (td_durability t)\<rparr>) (server_section (td_server t))"

definition LOG_LEVELS :: "string list" where
  "LOG_LEVELS = [''error'', ''warn'', ''info'', ''debug'', ''trace'']"

text \<open>\<open>Config::validate\<close>; the three bytes in the fifth message are the character for
  ``greater than or equal''.\<close>

definition validate :: "Config \<Rightarrow> anyhow + unit" where
  "validate c =
     (let s = cf_server c; l = cf_limits c; q = cf_quic c
      in if sv_max_clients s = 0 then Err ''server.max_clients must be > 0''
         else if sv_max_conns_per_ip s > sv_max_clients s
         then Err (''server.max_conns_per_ip ('' @ show_nat (unat (sv_max_conns_per_ip s)) @
                '') cannot exceed server.max_clients ('' @ show_nat (unat (sv_max_clients s)) @ '')'')
         else if lm_max_open_handles l = 0 then Err ''limits.max_open_handles must be > 0''
         else if lm_max_open_handles l > 1000000
         then Err ''limits.max_open_handles is unreasonably large (> 1 000 000)''
         else if lm_rpc_timeout_ms l = 0 then Err ''limits.rpc_timeout_ms must be > 0''
         else if qs_idle_timeout_ms q < qs_keep_alive_interval_ms q
         then Err (''quic.idle_timeout_ms ('' @ show_nat (unat (qs_idle_timeout_ms q)) @ '') must be '' @
                [CHR 0xE2, CHR 0x89, CHR 0xA5] @ '' keep_alive_interval_ms ('' @
                show_nat (unat (qs_keep_alive_interval_ms q)) @ '')'')
         else if sv_export_root s = [] then Err ''server.export_root must not be empty''
         else if sv_listen s = [] then Err ''server.listen must not be empty''
         else if sv_log_level s \<in> set LOG_LEVELS then Ok ()
         else Err (''server.log_level '' @ [CHR 0x27] @ sv_log_level s @ [CHR 0x27] @
                '' is not one of: error warn info debug trace''))"

text \<open>\<open>toml\<close> is the parser of the crate \<open>toml\<close>.\<close>

definition config_load ::
  "(string \<Rightarrow> toml_doc option) \<Rightarrow> 'fs files \<Rightarrow> 'fs \<Rightarrow> string \<Rightarrow> anyhow + Config" where
  "config_load toml uf fs path =
     (case uf_read_to_string uf fs path of
        Inl _ \<Rightarrow> Err (''read config file: '' @ path)
      | Inr contents \<Rightarrow>
          (case Option.bind (toml contents) config_of_toml of
             None \<Rightarrow> Err ''parse config TOML''
           | Some cfg \<Rightarrow> (case validate cfg of Inl e \<Rightarrow> Err e | Inr _ \<Rightarrow> Ok cfg)))"

definition conn_limits_from_config :: "Config \<Rightarrow> ConnLimits" where
  "conn_limits_from_config cfg =
     \<lparr>cl_max_open_handles = lm_max_open_handles (cf_limits cfg),
      cl_rpc_timeout = unat (lm_rpc_timeout_ms (cf_limits cfg)),
      cl_sync_on_close = du_sync_on_close (cf_durability cfg),
      cl_sync_metadata = du_sync_metadata (cf_durability cfg)\<rparr>"

text \<open>The settings of quinn that \<open>build_transport\<close> makes; \<open>None\<close> keeps quinn's own default, and
  \<open>varint\<close> is \<open>VarInt::from_u64\<close>.\<close>

record TransportConfig =
  tc_max_bidi_streams :: u32
  tc_keep_alive :: "nat option"
  tc_idle_timeout :: "u64 option"
  tc_stream_window :: u32
  tc_receive_window :: "u64 option"

definition build_transport :: "(u64 \<Rightarrow> u64 option) \<Rightarrow> QuicSection \<Rightarrow> TransportConfig" where
  "build_transport varint cfg =
     \<lparr>tc_max_bidi_streams = qs_max_concurrent_bidi_streams cfg,
      tc_keep_alive = Some (unat (qs_keep_alive_interval_ms cfg)),
      tc_idle_timeout = varint (qs_idle_timeout_ms cfg),
      tc_stream_window = qs_stream_receive_window cfg,
      tc_receive_window = varint (qs_connection_receive_window cfg)\<rparr>"

section \<open>Commands\<close>

definition identity_paths :: "host_env \<Rightarrow> Config option \<Rightarrow> string \<times> string" where
  "identity_paths he cfg =
     (case (Option.bind cfg (\<lambda>c. tl_cert (cf_tls c)), Option.bind cfg (\<lambda>c. tl_key (cf_tls c))) of
        (Some cert, Some key) \<Rightarrow> (cert, key)
      | _ \<Rightarrow> (let dir = (case config_dir he of Inr d \<Rightarrow> d | Inl _ \<Rightarrow> ''.'')
              in (path_push dir ''server.crt'', path_push dir ''server.key'')))"

definition authorized_keys_path :: "host_env \<Rightarrow> Config option \<Rightarrow> string" where
  "authorized_keys_path he cfg =
     (case Option.bind cfg (\<lambda>c. au_authorized_keys (cf_auth c)) of
        Some p \<Rightarrow> p
      | None \<Rightarrow> (case config_dir he of
                  Inr d \<Rightarrow> path_push d ''authorized_keys''
                | Inl _ \<Rightarrow> ''authorized_keys''))"

text \<open>What the program calls outside the repository: the parsers, \<open>{:?}\<close>, and binding the endpoint.\<close>

record 'a host =
  ho_env :: host_env
  ho_toml :: "string \<Rightarrow> toml_doc option"
  ho_socket_addr :: "string \<Rightarrow> 'a option"
  ho_debug :: "string \<Rightarrow> string"
  ho_varint :: "u64 \<Rightarrow> u64 option"
  ho_endpoint :: "string \<Rightarrow> string \<Rightarrow> 'a \<Rightarrow> TransportConfig \<Rightarrow> bool \<Rightarrow> anyhow + unit"

text \<open>The server before its accept loop. The client verifier holds the keys and the policy.\<close>

record 'a ready =
  rd_listen :: 'a
  rd_export_root :: string
  rd_identity :: Identity
  rd_authorized :: AuthorizedKeys
  rd_allow_any :: bool
  rd_limits :: ConnLimits
  rd_max_clients :: nat
  rd_max_per_ip :: u32

definition run_server ::
  "crypto \<Rightarrow> 'a host \<Rightarrow> 'fs files \<Rightarrow> string \<Rightarrow> 'fs \<Rightarrow> (anyhow + 'a ready) \<times> 'fs" where
  "run_server cr ho uf config_path fs =
     (case config_load (ho_toml ho) uf fs config_path of
        Inl _ \<Rightarrow> (Err (''load config: '' @ config_path), fs)
      | Inr cfg \<Rightarrow>
          (case ho_socket_addr ho (sv_listen (cf_server cfg)) of
             None \<Rightarrow> (Err ''parse listen address'', fs)
           | Some listen \<Rightarrow>
               if \<not> uf_exists uf fs (sv_export_root (cf_server cfg))
               then (Err (''export_root does not exist: '' @ to_string_lossy (sv_export_root (cf_server cfg))), fs)
               else
                 (case identity_paths (ho_env ho) (Some cfg) of
                    (cert_path, key_path) \<Rightarrow>
                      (case load_or_generate_at cr uf cert_path key_path ''quicfs-server'' fs of
                         (Inl _, fs1) \<Rightarrow> (Err ''load/generate server identity'', fs1)
                       | (Inr identity, fs1) \<Rightarrow>
                           (let ak_path = authorized_keys_path (ho_env ho) (Some cfg)
                            in case authorized_keys_load uf fs1 ak_path of
                                 Inl _ \<Rightarrow> (Err (''load authorized_keys: '' @ to_string_lossy ak_path), fs1)
                               | Inr authorized \<Rightarrow>
                                   (case ho_endpoint ho (id_cert_pem identity) (id_key_pem identity) listen
                                           (build_transport (ho_varint ho) (cf_quic cfg)) (qs_migration (cf_quic cfg)) of
                                      Inl e \<Rightarrow> (Err e, fs1)
                                    | Inr _ \<Rightarrow>
                                        (Ok \<lparr>rd_listen = listen, rd_export_root = sv_export_root (cf_server cfg),
                                             rd_identity = identity, rd_authorized = authorized,
                                             rd_allow_any = au_allow_any_client (cf_auth cfg),
                                             rd_limits = conn_limits_from_config cfg,
                                             rd_max_clients = unat (max (sv_max_clients (cf_server cfg)) 1),
                                             rd_max_per_ip = sv_max_conns_per_ip (cf_server cfg)\<rparr>, fs1)))))))"

text \<open>\<open>cmd_fingerprint\<close>; the result is the printed line.\<close>

definition cmd_fingerprint ::
  "crypto \<Rightarrow> 'a host \<Rightarrow> 'fs files \<Rightarrow> string \<Rightarrow> 'fs \<Rightarrow> (anyhow + string) \<times> 'fs" where
  "cmd_fingerprint cr ho uf config_path fs =
     (case identity_paths (ho_env ho) (result_ok (config_load (ho_toml ho) uf fs config_path)) of
        (cert_path, key_path) \<Rightarrow>
          (case load_or_generate_at cr uf cert_path key_path ''quicfs-server'' fs of
             (Inl _, fs1) \<Rightarrow> (Err ''load/generate server identity'', fs1)
           | (Inr identity, fs1) \<Rightarrow> (Ok (id_fingerprint identity), fs1)))"

definition cmd_authorize ::
  "'a host \<Rightarrow> 'fs files \<Rightarrow> string \<Rightarrow> string \<Rightarrow> string \<Rightarrow> 'fs \<Rightarrow> (anyhow + unit) \<times> 'fs" where
  "cmd_authorize ho uf config_path fingerprint comment fs =
     (let cfg = result_ok (config_load (ho_toml ho) uf fs config_path)
      in case parse_fingerprint (ho_debug ho) fingerprint of
           Inl e \<Rightarrow> (Err e, fs)
         | Inr fp \<Rightarrow>
             (case authorized_keys_load uf fs (authorized_keys_path (ho_env ho) cfg) of
                Inl e \<Rightarrow> (Err e, fs)
              | Inr ak \<Rightarrow> (case authorize uf fp comment ak fs of (r, _, fs1) \<Rightarrow> (r, fs1))))"

section \<open>The accept loop\<close>

text \<open>\<open>IpSlot::try_acquire\<close> and \<open>drop\<close> on the map of counters.\<close>

definition try_acquire :: "'ip \<Rightarrow> u32 \<Rightarrow> ('ip \<rightharpoonup> u32) \<Rightarrow> bool \<times> ('ip \<rightharpoonup> u32)" where
  "try_acquire ip mx m =
     (let count = (case m ip of Some c \<Rightarrow> c | None \<Rightarrow> 0); m1 = m(ip \<mapsto> count)
      in if mx \<noteq> 0 \<and> count \<ge> mx
         then (False, if count = 0 then m1(ip := None) else m1)
         else (True, m1(ip \<mapsto> count + 1)))"

definition ip_drop :: "'ip \<Rightarrow> ('ip \<rightharpoonup> u32) \<Rightarrow> ('ip \<rightharpoonup> u32)" where
  "ip_drop ip m =
     (case m ip of
        None \<Rightarrow> m
      | Some c \<Rightarrow>
          (let c' = (if c = 0 then 0 else c - 1)
           in if c' = 0 then m(ip := None) else m(ip \<mapsto> c')))"

text \<open>A connection task holds both guards while it serves. At its end the guards are dropped in the
  reverse order of their declaration: the counter of the address first, then the permit.\<close>

datatype life = Serving | Closing

record 'ip acceptor =
  ac_permits :: nat
  ac_counts :: "'ip \<rightharpoonup> u32"
  ac_held :: "'ip option"
  ac_conns :: "('ip \<times> life) multiset"

datatype 'ip event = Refused_full 'ip | Permit 'ip | Admitted 'ip | Refused_ip 'ip | Ip_freed 'ip | Ended 'ip

definition acceptor_new :: "nat \<Rightarrow> 'ip acceptor" where
  "acceptor_new max_clients =
     \<lparr>ac_permits = max_clients, ac_counts = Map.empty, ac_held = None, ac_conns = {#}\<rparr>"

text \<open>The first four rules are the accept loop, from an incoming connection to the next; the last two
  are the end of a connection task.\<close>

inductive acc_step :: "u32 \<Rightarrow> 'ip acceptor \<Rightarrow> 'ip event \<Rightarrow> 'ip acceptor \<Rightarrow> bool" where
  full: "ac_held st = None \<Longrightarrow> ac_permits st = 0 \<Longrightarrow> acc_step mx st (Refused_full ip) st"
| permit: "ac_held st = None \<Longrightarrow> ac_permits st = Suc n \<Longrightarrow>
     acc_step mx st (Permit ip) (st\<lparr>ac_permits := n, ac_held := Some ip\<rparr>)"
| admit: "ac_held st = Some ip \<Longrightarrow> try_acquire ip mx (ac_counts st) = (True, m) \<Longrightarrow>
     acc_step mx st (Admitted ip)
       (st\<lparr>ac_counts := m, ac_held := None, ac_conns := add_mset (ip, Serving) (ac_conns st)\<rparr>)"
| ip_full: "ac_held st = Some ip \<Longrightarrow> try_acquire ip mx (ac_counts st) = (False, m) \<Longrightarrow>
     acc_step mx st (Refused_ip ip) (st\<lparr>ac_counts := m, ac_held := None, ac_permits := Suc (ac_permits st)\<rparr>)"
| ip_free: "ac_conns st = add_mset (ip, Serving) rest \<Longrightarrow>
     acc_step mx st (Ip_freed ip)
       (st\<lparr>ac_counts := ip_drop ip (ac_counts st), ac_conns := add_mset (ip, Closing) rest\<rparr>)"
| finished: "ac_conns st = add_mset (ip, Closing) rest \<Longrightarrow>
     acc_step mx st (Ended ip) (st\<lparr>ac_permits := Suc (ac_permits st), ac_conns := rest\<rparr>)"

inductive acc_reach :: "u32 \<Rightarrow> nat \<Rightarrow> 'ip acceptor \<Rightarrow> bool" for mx n where
  start: "acc_reach mx n (acceptor_new n)"
| step: "acc_reach mx n st \<Longrightarrow> acc_step mx st ev st' \<Longrightarrow> acc_reach mx n st'"

inductive_cases acc_step_fullE: "acc_step mx st (Refused_full ip) st'"

inductive_cases acc_step_ip_fullE: "acc_step mx st (Refused_ip ip) st'"

section \<open>The slots are accounted for\<close>

definition ip_count :: "('ip \<rightharpoonup> u32) \<Rightarrow> 'ip \<Rightarrow> nat" where
  "ip_count m ip = (case m ip of Some c \<Rightarrow> unat c | None \<Rightarrow> 0)"

definition acc_ok :: "u32 \<Rightarrow> nat \<Rightarrow> 'ip acceptor \<Rightarrow> bool" where
  "acc_ok mx n st =
     (ac_permits st + size (ac_conns st) + (if ac_held st = None then 0 else 1) = n \<and>
      (\<forall>ip. ip_count (ac_counts st) ip = count (ac_conns st) (ip, Serving)) \<and>
      (\<forall>ip. ac_counts st ip \<noteq> Some 0) \<and>
      (mx \<noteq> 0 \<longrightarrow> (\<forall>ip. ip_count (ac_counts st) ip \<le> unat mx)))"

lemma try_acquire_False:
  assumes "try_acquire ip mx m = (False, m')"
  shows "mx \<noteq> 0" and "unat mx \<le> ip_count m ip" and "m' = m"
proof -
  have lim: "mx \<noteq> 0" "mx \<le> (case m ip of Some c \<Rightarrow> c | None \<Rightarrow> 0)"
    using assms by (auto simp: try_acquire_def Let_def split: if_splits)
  then show "mx \<noteq> 0" "unat mx \<le> ip_count m ip"
    by (auto simp: ip_count_def word_le_nat_alt split: option.splits)
  have "0 < ip_count m ip"
    using \<open>mx \<noteq> 0\<close> \<open>unat mx \<le> ip_count m ip\<close> by (metis gr0I le_zero_eq unat_gt_0)
  then obtain c where "m ip = Some c" "c \<noteq> 0" by (force simp: ip_count_def split: option.splits)
  then show "m' = m"
    using assms by (auto simp: try_acquire_def Let_def fun_upd_idem_iff split: if_splits)
qed

lemma try_acquire_True:
  assumes "try_acquire ip mx m = (True, m')" and "ip_count m ip < 2 ^ 32 - 1"
  shows "ip_count m' = (ip_count m)(ip := Suc (ip_count m ip))" and "m k \<noteq> Some 0 \<Longrightarrow> m' k \<noteq> Some 0"
    and "mx \<noteq> 0 \<Longrightarrow> ip_count m' ip \<le> unat mx"
proof -
  define c where "c = (case m ip of Some c \<Rightarrow> c | None \<Rightarrow> 0)"
  have m': "m' = m(ip \<mapsto> c + 1)" and lim: "mx \<noteq> 0 \<Longrightarrow> c < mx"
    using assms(1) by (auto simp: try_acquire_def Let_def c_def not_le split: if_splits)
  have c: "unat c = ip_count m ip" by (auto simp: c_def ip_count_def split: option.split)
  then have "unat c + 1 < 2 ^ 32" using assms(2) by simp
  then have suc: "unat (c + 1) = Suc (unat c)" by (subst unat_add_lem [THEN iffD1]) simp_all
  show "ip_count m' = (ip_count m)(ip := Suc (ip_count m ip))"
    using suc c by (auto simp: m' ip_count_def fun_eq_iff)
  show "m k \<noteq> Some 0 \<Longrightarrow> m' k \<noteq> Some 0" using suc by (auto simp: m')
  show "mx \<noteq> 0 \<Longrightarrow> ip_count m' ip \<le> unat mx"
    using suc lim by (auto simp: m' ip_count_def word_less_nat_alt)
qed

lemma ip_drop_count:
  assumes "ip_count m ip = Suc n"
  shows "ip_count (ip_drop ip m) = (ip_count m)(ip := n)"
    and "m k \<noteq> Some 0 \<Longrightarrow> ip_drop ip m k \<noteq> Some 0"
proof -
  obtain c where c: "m ip = Some c" "unat c = Suc n"
    using assms by (auto simp: ip_count_def split: option.splits)
  then have "c \<noteq> 0" by auto
  then have dec: "unat (c - 1) = n" using c(2) by (simp add: unat_minus_one)
  then show "ip_count (ip_drop ip m) = (ip_count m)(ip := n)"
    using c \<open>c \<noteq> 0\<close> by (auto simp: ip_drop_def ip_count_def Let_def fun_eq_iff)
  show "m k \<noteq> Some 0 \<Longrightarrow> ip_drop ip m k \<noteq> Some 0"
    using c \<open>c \<noteq> 0\<close> by (auto simp: ip_drop_def Let_def)
qed

lemma acc_step_ok:
  assumes "acc_step mx st ev st'" and "acc_ok mx n st" and "n < 2 ^ 32"
  shows "acc_ok mx n st'"
  using assms
proof (induction rule: acc_step.induct)
  case (admit st ip mx m)
  have "count (ac_conns st) (ip, Serving) \<le> size (ac_conns st)" by (rule count_le_size)
  with admit have "ip_count (ac_counts st) ip < 2 ^ 32 - 1" by (auto simp: acc_ok_def)
  note acq = try_acquire_True [OF admit(2) this]
  show ?case
    using admit acq by (auto simp: acc_ok_def)
next
  case (ip_full st ip mx m)
  then show ?case using try_acquire_False(3) [OF ip_full(2)] by (auto simp: acc_ok_def)
next
  case (ip_free st ip rest mx)
  then have cnt: "ip_count (ac_counts st) ip = Suc (count rest (ip, Serving))" by (simp add: acc_ok_def)
  note dr = ip_drop_count [OF this]
  have "ip_count (ip_drop ip (ac_counts st)) k \<le> ip_count (ac_counts st) k" for k
    using dr(1) cnt by simp
  then have "mx \<noteq> 0 \<Longrightarrow> ip_count (ip_drop ip (ac_counts st)) k \<le> unat mx" for k
    using ip_free(2) unfolding acc_ok_def by (meson le_trans)
  then show ?case
    using ip_free dr by (simp add: acc_ok_def)
qed (auto simp: acc_ok_def)

lemma acc_reach_ok:
  assumes "acc_reach mx n st" and "n < 2 ^ 32"
  shows "acc_ok mx n st"
  using assms(1)
proof (induction rule: acc_reach.induct)
  case start
  then show ?case by (simp add: acc_ok_def acceptor_new_def ip_count_def)
next
  case (step st ev st')
  then show ?case using acc_step_ok assms(2) by blast
qed

lemma acc_ok_empty:
  assumes "acc_ok mx n st" and "ac_conns st = {#}" and "ac_held st = None"
  shows "st = acceptor_new n"
proof -
  have "ac_counts st ip = None" for ip
  proof -
    have "ip_count (ac_counts st) ip = 0" "ac_counts st ip \<noteq> Some 0" using assms by (simp_all add: acc_ok_def)
    then show ?thesis by (cases "ac_counts st ip") (simp_all add: ip_count_def unat_eq_0)
  qed
  then have "ac_counts st = Map.empty" by blast
  with assms show ?thesis by (cases st) (simp add: acc_ok_def acceptor_new_def)
qed

lemma acc_admits:
  assumes "ac_held st = None" and "0 < ac_permits st"
    and "mx = 0 \<or> ip_count (ac_counts st) ip < unat mx"
  obtains st1 st2 where "acc_step mx st (Permit ip) st1" and "acc_step mx st1 (Admitted ip) st2"
proof -
  obtain n where n: "ac_permits st = Suc n" using assms(2) gr0_implies_Suc by blast
  let ?st1 = "st\<lparr>ac_permits := n, ac_held := Some ip\<rparr>"
  obtain b m where m: "try_acquire ip mx (ac_counts st) = (b, m)" by fastforce
  with assms(3) try_acquire_False [of ip mx "ac_counts st" m] have b by (cases b) auto
  with m acc_step.admit [of ?st1 ip mx m] acc_step.permit [OF assms(1) n, of mx ip] that [of ?st1]
  show thesis by auto
qed

text \<open>C9: The accept loop keeps its limits and leaks no slot, in every interleaving of arrivals and of
  the ends of connections. At most \<open>max_clients\<close> connections are alive, at most
  \<open>max_conns_per_ip\<close> (if it is set) serve one address; when the last one has ended every permit and
  every counter is back where it started. A connection is refused only when the limit that is named
  is really reached, and one that arrives below both limits is admitted.\<close>

theorem accept_bounded:
  assumes "n = unat (max clients 1 :: u32)" and "acc_reach mx n st"
  shows "size (ac_conns st) \<le> n \<and>
    (mx \<noteq> 0 \<longrightarrow> count (ac_conns st) (ip, Serving) \<le> unat mx) \<and>
    (ac_conns st = {#} \<and> ac_held st = None \<longrightarrow> st = acceptor_new n) \<and>
    (acc_step mx st (Refused_full ip) st' \<longrightarrow> size (ac_conns st) = n) \<and>
    (acc_step mx st (Refused_ip ip) st' \<longrightarrow> mx \<noteq> 0 \<and> count (ac_conns st) (ip, Serving) = unat mx) \<and>
    (ac_held st = None \<and> size (ac_conns st) < n \<and> (mx = 0 \<or> count (ac_conns st) (ip, Serving) < unat mx) \<longrightarrow>
       (\<exists>st1 st2. acc_step mx st (Permit ip) st1 \<and> acc_step mx st1 (Admitted ip) st2))"
proof -
  have "n < 2 ^ 32" unfolding assms(1) using unsigned_less [of "max clients 1"] by simp
  with assms(2) have ok: "acc_ok mx n st" by (rule acc_reach_ok)
  then have cnt: "ip_count (ac_counts st) ip = count (ac_conns st) (ip, Serving)"
    and lim: "mx \<noteq> 0 \<Longrightarrow> count (ac_conns st) (ip, Serving) \<le> unat mx"
    and slots: "ac_permits st + size (ac_conns st) + (if ac_held st = None then 0 else 1) = n"
    by (auto simp: acc_ok_def)
  have "size (ac_conns st) = n" if "acc_step mx st (Refused_full ip) st'"
    using that slots by (auto elim: acc_step_fullE)
  moreover have "mx \<noteq> 0 \<and> count (ac_conns st) (ip, Serving) = unat mx"
    if "acc_step mx st (Refused_ip ip) st'"
  proof -
    from that obtain m where "try_acquire ip mx (ac_counts st) = (False, m)"
      by (auto elim: acc_step_ip_fullE)
    from try_acquire_False(1,2) [OF this] show ?thesis using lim cnt by simp
  qed
  moreover have "\<exists>st1 st2. acc_step mx st (Permit ip) st1 \<and> acc_step mx st1 (Admitted ip) st2"
    if "ac_held st = None" "size (ac_conns st) < n" "mx = 0 \<or> count (ac_conns st) (ip, Serving) < unat mx"
  proof -
    note free = that(1)
    from that(1,2) slots have "0 < ac_permits st" by simp
    moreover from that(3) cnt have "mx = 0 \<or> ip_count (ac_counts st) ip < unat mx" by simp
    ultimately obtain st1 st2 where "acc_step mx st (Permit ip) st1" "acc_step mx st1 (Admitted ip) st2"
      by (rule acc_admits [OF free])
    then show ?thesis by blast
  qed
  ultimately show ?thesis using slots lim acc_ok_empty [OF ok] by auto
qed

definition one_client :: "nat acceptor" where
  "one_client = \<lparr>ac_permits = 0, ac_counts = [7 \<mapsto> 1], ac_held = None, ac_conns = {#(7, Serving)#}\<rparr>"

theorem accept_bounded_witness:
  "acc_reach 1 1 one_client \<and> size (ac_conns one_client) \<le> 1 \<and>
   count (ac_conns one_client) (7, Serving) \<le> 1"
proof -
  let ?a = "acceptor_new 1 :: nat acceptor"
  have "acc_step 1 ?a (Permit 7) (?a\<lparr>ac_permits := 0, ac_held := Some 7\<rparr>)"
    by (rule acc_step.permit) (simp_all add: acceptor_new_def)
  moreover have "acc_step 1 (?a\<lparr>ac_permits := 0, ac_held := Some 7\<rparr>) (Admitted 7) one_client"
    using acc_step.admit [of "?a\<lparr>ac_permits := 0, ac_held := Some 7\<rparr>" 7 1 "[7 \<mapsto> 1]"]
    by (simp add: acceptor_new_def try_acquire_def one_client_def)
  ultimately have r: "acc_reach 1 1 one_client"
    using acc_reach.start [of 1 1] acc_reach.step by blast
  then show ?thesis using accept_bounded [of 1 1 1 one_client 7] by simp
qed

section \<open>Authorizing a client\<close>

lemma authorized_keys_load_ok:
  assumes "authorized_keys_load uf fs path = Inr ak"
  shows "ak_path ak = path" and "bt_ok (ak_fingerprints ak)"
proof -
  have "bt_ok (fold ak_line ls [])" for ls
    by (rule bt_ok_fold [OF bt_ok_ak_line]) (simp_all add: bt_ok_def)
  moreover have "bt_ok ([] :: (string \<times> string) list)" by (simp add: bt_ok_def)
  ultimately show "ak_path ak = path" "bt_ok (ak_fingerprints ak)"
    using assms by (auto simp: authorized_keys_load_def split: if_splits sum.splits)
qed

lemma cmd_authorize_load:
  assumes uf: "files_ok uf" and cfg: "config_load (ho_toml ho) uf fs config_path = Inr cfg"
    and fp: "parse_fingerprint (ho_debug ho) fingerprint = Inr fp"
    and new: "key_word fp" "comment_ok comment"
    and old: "authorized_keys_load uf fs (authorized_keys_path (ho_env ho) (Some cfg)) = Inr ak"
      "list_all (\<lambda>(f, c). key_word f \<and> comment_ok c) (ak_fingerprints ak)"
    and run: "cmd_authorize ho uf config_path fingerprint comment fs = (Inr (), fs1)"
  shows "authorized_keys_load uf fs1 (authorized_keys_path (ho_env ho) (Some cfg)) =
    Inr (ak\<lparr>ak_fingerprints := bt_insert fp comment (ak_fingerprints ak)\<rparr>)"
proof -
  let ?ak = "ak\<lparr>ak_fingerprints := bt_insert fp comment (ak_fingerprints ak)\<rparr>"
  have "authorized_keys_save uf ?ak fs = (Inr (), fs1)"
    using run cfg fp old(1) by (simp add: cmd_authorize_def authorize_def result_ok_def Let_def split: prod.splits)
  moreover have "list_all (\<lambda>(f, c). key_word f \<and> comment_ok c) (ak_fingerprints ?ak)"
    using old(2) new set_bt_insert_subset [of fp comment "ak_fingerprints ak"]
    by (auto simp: list_all_iff)
  ultimately show ?thesis
    using authorized_keys_save_load [OF uf, of ?ak fs fs1] authorized_keys_load_ok [OF old(1)]
    by (simp add: bt_ok_insert)
qed

lemma run_server_authorized:
  assumes "config_load (ho_toml ho) uf fs config_path = Inr cfg"
    and "identity_paths (ho_env ho) (Some cfg) = (cert_path, key_path)"
    and "uf_exists uf fs cert_path" and "uf_exists uf fs key_path"
    and "run_server cr ho uf config_path fs = (Inr rd, fs')"
  shows "authorized_keys_load uf fs (authorized_keys_path (ho_env ho) (Some cfg)) = Inr (rd_authorized rd)"
    and "rd_allow_any rd = au_allow_any_client (cf_auth cfg)" and "fs' = fs"
proof -
  have same: "load_or_generate_at cr uf cert_path key_path nm fs = (r, fs1) \<Longrightarrow> fs1 = fs" for nm r fs1
    using assms(3,4) by (simp add: load_or_generate_at_def)
  show "authorized_keys_load uf fs (authorized_keys_path (ho_env ho) (Some cfg)) = Inr (rd_authorized rd)"
    and "rd_allow_any rd = au_allow_any_client (cf_auth cfg)" and "fs' = fs"
    using assms(5)
    by (auto simp: run_server_def assms(1,2) Let_def dest!: same
        split: option.splits sum.splits if_splits prod.splits)
qed

text \<open>C13: A key that was authorized is admitted. After \<open>quicfs-server authorize\<close> has reported success, a
  server that starts with the same configuration accepts exactly the clients whose key was listed
  before and the client with the new key; the policy \<open>allow_any_client\<close> no longer admits anyone,
  because the list is not empty. The hypotheses are what \<open>std::fs\<close> promises, that the listed keys and
  comments are words of printing characters, and that the server has its identity already.\<close>

theorem authorize_admits:
  assumes "files_ok uf" and "config_load (ho_toml ho) uf fs config_path = Inr cfg"
    and "parse_fingerprint (ho_debug ho) fingerprint = Inr fp" and "key_word fp" and "comment_ok comment"
    and "authorized_keys_load uf fs (authorized_keys_path (ho_env ho) (Some cfg)) = Inr ak"
    and "list_all (\<lambda>(f, c). key_word f \<and> comment_ok c) (ak_fingerprints ak)"
    and "cmd_authorize ho uf config_path fingerprint comment fs = (Inr (), fs1)"
    and "config_load (ho_toml ho) uf fs1 config_path = Inr cfg"
    and "identity_paths (ho_env ho) (Some cfg) = (cert_path, key_path)"
    and "uf_exists uf fs1 cert_path" and "uf_exists uf fs1 key_path"
    and "run_server cr ho uf config_path fs1 = (Inr rd, fs2)"
  shows "verify_client_cert cr (rd_authorized rd) (rd_allow_any rd) cert = Inr () \<longleftrightarrow>
    (\<exists>f. cert_fingerprint cr cert = Inr f \<and> (f = fp \<or> authorized_contains ak f))"
proof -
  have "rd_authorized rd = ak\<lparr>ak_fingerprints := bt_insert fp comment (ak_fingerprints ak)\<rparr>"
    using cmd_authorize_load [OF assms(1-8)] run_server_authorized(1) [OF assms(9-13)] by simp
  moreover have "bt_insert fp comment m \<noteq> []" for m
    by (cases "(fp, comment, m)" rule: bt_insert.cases) auto
  ultimately show ?thesis
    by (auto simp: verify_client_cert_def authorized_is_empty_def authorized_contains_def map_of_bt_insert
        split: sum.split)
qed

text \<open>A host with one configuration, one identity and no authorized key, for the witness.\<close>

definition small_doc :: toml_doc where
  "small_doc =
     \<lparr>td_server = Some \<lparr>ts_listen = Some ''a'', ts_export_root = Some ''/e'', ts_max_clients = None,
        ts_max_conns_per_ip = None, ts_log_level = None\<rparr>,
      td_tls = Some (Some ''/c'', Some ''/k''), td_quic = None, td_limits = None,
      td_auth = Some (Some ''/a'', None), td_durability = None\<rparr>"

definition small_host :: "string host" where
  "small_host =
     \<lparr>ho_env = \<lparr>he_quicfs_home = None, he_config_dir = None, he_home_dir = None\<rparr>,
      ho_toml = (\<lambda>_. Some small_doc), ho_socket_addr = Some, ho_debug = id, ho_varint = Some,
      ho_endpoint = (\<lambda>_ _ _ _ _. Inr ())\<rparr>"

definition small_fs :: "(string \<rightharpoonup> string) \<times> string" where
  "small_fs = ([''/q'' \<mapsto> [], ''/e'' \<mapsto> [], ''/k'' \<mapsto> ''key'',
     ''/c'' \<mapsto> ''-----BEGIN CERTIFICATE-----abc-----END CERTIFICATE-----''], [])"

definition small_cert :: bytes where
  "small_cert = [97, 97, 97, 97, 97, 97, 97, 97, 97, 97]"

definition small_cfg :: Config where
  "small_cfg =
     \<lparr>cf_server = \<lparr>sv_listen = ''a'', sv_export_root = ''/e'', sv_max_clients = 128, sv_max_conns_per_ip = 0,
        sv_log_level = ''info''\<rparr>,
      cf_tls = \<lparr>tl_cert = Some ''/c'', tl_key = Some ''/k''\<rparr>, cf_quic = quic_default,
      cf_limits = limits_default, cf_auth = \<lparr>au_authorized_keys = Some ''/a'', au_allow_any_client = False\<rparr>,
      cf_durability = \<lparr>du_sync_on_close = False, du_sync_metadata = False\<rparr>\<rparr>"

lemma small_toml: "config_of_toml small_doc = Some small_cfg"
  by (simp add: config_of_toml_def small_doc_def small_cfg_def server_section_def tls_section_def quic_section_def
      limits_section_def auth_section_def durability_section_def or_default_def default_max_clients_def
      default_log_level_def)

lemma small_validate: "validate small_cfg = Inr ()"
  by (simp add: validate_def small_cfg_def quic_default_def limits_default_def LOG_LEVELS_def
      default_max_handles_def default_rpc_timeout_ms_def default_keepalive_ms_def default_idle_timeout_ms_def)

lemma small_load:
  "fs ''/q'' = Some t \<Longrightarrow> config_load (ho_toml small_host) mem_files (fs, f) ''/q'' = Inr small_cfg"
  by (simp add: config_load_def small_host_def small_toml small_validate mem_files_def ok_or_def)

lemma small_paths:
  "identity_paths (ho_env small_host) (Some small_cfg) = (''/c'', ''/k'')"
  "authorized_keys_path (ho_env small_host) (Some small_cfg) = ''/a''"
  by (simp_all add: identity_paths_def authorized_keys_path_def small_cfg_def)

lemma small_fingerprint:
  "cert_fingerprint toy_crypto small_cert = Inr ''SHA256:aaaaaaaaaa''"
  "parse_fingerprint (ho_debug small_host) ''SHA256:aaaaaaaaaa'' = Inr ''SHA256:aaaaaaaaaa''"
proof -
  show "cert_fingerprint toy_crypto small_cert = Inr ''SHA256:aaaaaaaaaa''"
    by code_simp
  have "trim_str ''SHA256:aaaaaaaaaa'' = ''SHA256:aaaaaaaaaa''"
    by (rule trim_str_graphic) (simp_all add: graphic_def)
  then show "parse_fingerprint (ho_debug small_host) ''SHA256:aaaaaaaaaa'' = Inr ''SHA256:aaaaaaaaaa''"
    by (simp add: parse_fingerprint_def starts_with_def)
qed

lemma small_authorize:
  "authorized_keys_load mem_files small_fs ''/a'' = Inr \<lparr>ak_path = ''/a'', ak_fingerprints = []\<rparr>"
  "\<exists>t. cmd_authorize small_host mem_files ''/q'' ''SHA256:aaaaaaaaaa'' [] small_fs =
     (Inr (), ((fst small_fs)(''/a'' \<mapsto> t), []))"
proof -
  show load: "authorized_keys_load mem_files small_fs ''/a'' = Inr \<lparr>ak_path = ''/a'', ak_fingerprints = []\<rparr>"
    by (simp add: authorized_keys_load_def mem_files_def small_fs_def)
  have "config_load (ho_toml small_host) mem_files small_fs ''/q'' = Inr small_cfg"
    unfolding small_fs_def by (rule small_load) simp
  then show "\<exists>t. cmd_authorize small_host mem_files ''/q'' ''SHA256:aaaaaaaaaa'' [] small_fs =
     (Inr (), ((fst small_fs)(''/a'' \<mapsto> t), []))"
    using load save_text_mem [of _ _ _ _ "fst small_fs" "[]"]
    by (intro exI [of _ "authorized_keys_text [(''SHA256:aaaaaaaaaa'', [])]"])
      (simp add: cmd_authorize_def result_ok_def small_fingerprint small_paths authorize_def
        authorized_keys_save_def small_fs_def)
qed

lemma small_run:
  assumes "fs ''/q'' = Some t" and "fs ''/e'' = Some d" and "fs ''/k'' = Some k"
    and "fs ''/c'' = Some ''-----BEGIN CERTIFICATE-----abc-----END CERTIFICATE-----''"
    and "authorized_keys_load mem_files (fs, f) ''/a'' = Inr ak"
  shows "\<exists>rd. run_server toy_crypto small_host mem_files ''/q'' (fs, f) = (Inr rd, (fs, f))"
proof -
  have "fingerprint_of_pem toy_crypto ''-----BEGIN CERTIFICATE-----abc-----END CERTIFICATE-----'' = Inr ''SHA256:abc''"
    by code_simp
  then have "\<exists>i. load_or_generate_at toy_crypto mem_files ''/c'' ''/k'' ''quicfs-server'' (fs, f) = (Inr i, (fs, f))"
    using assms by (simp add: load_or_generate_at_def mem_files_def ok_or_def)
  moreover have "uf_exists mem_files (fs, f) (sv_export_root (cf_server small_cfg))"
    using assms(2) by (simp add: mem_files_def small_cfg_def)
  moreover have "ho_socket_addr small_host = Some" "ho_endpoint small_host = (\<lambda>_ _ _ _ _. Inr ())"
    by (simp_all add: small_host_def)
  ultimately show ?thesis
    using assms(5) small_load [where fs = fs and t = t, OF assms(1)]
    by (auto simp: run_server_def small_paths)
qed

theorem authorize_admits_witness:
  "\<exists>rd fs2. run_server toy_crypto small_host mem_files ''/q''
     (snd (cmd_authorize small_host mem_files ''/q'' ''SHA256:aaaaaaaaaa'' [] small_fs)) = (Inr rd, fs2) \<and>
   verify_client_cert toy_crypto (rd_authorized rd) (rd_allow_any rd) small_cert = Inr ()"
proof -
  obtain t where auth: "cmd_authorize small_host mem_files ''/q'' ''SHA256:aaaaaaaaaa'' [] small_fs =
      (Inr (), ((fst small_fs)(''/a'' \<mapsto> t), []))" using small_authorize(2) by blast
  have load: "config_load (ho_toml small_host) mem_files small_fs ''/q'' = Inr small_cfg"
    unfolding small_fs_def by (rule small_load) simp
  have load1: "config_load (ho_toml small_host) mem_files ((fst small_fs)(''/a'' \<mapsto> t), []) ''/q'' = Inr small_cfg"
    by (rule small_load) (simp add: small_fs_def)
  have key: "key_word ''SHA256:aaaaaaaaaa''" "comment_ok []"
    by (simp_all add: key_word_def graphic_word_def graphic_def comment_ok_def)
  have "\<exists>rd. run_server toy_crypto small_host mem_files ''/q'' ((fst small_fs)(''/a'' \<mapsto> t), []) =
      (Inr rd, ((fst small_fs)(''/a'' \<mapsto> t), []))"
    by (rule small_run) (simp_all add: small_fs_def authorized_keys_load_def mem_files_def ok_or_def)
  then obtain rd where run: "run_server toy_crypto small_host mem_files ''/q'' ((fst small_fs)(''/a'' \<mapsto> t), []) =
      (Inr rd, ((fst small_fs)(''/a'' \<mapsto> t), []))" by blast
  have "verify_client_cert toy_crypto (rd_authorized rd) (rd_allow_any rd) small_cert = Inr ()"
    using authorize_admits [OF files_ok_mem load small_fingerprint(2) key
        small_authorize(1) [folded small_paths(2)] _ auth load1 small_paths(1) _ _ run, of small_cert]
      small_fingerprint(1)
    by (simp add: mem_files_def small_fs_def)
  with auth run show ?thesis by auto
qed

end
