(* ===== verification/Write_Serial.thy ===== *)
theory Write_Serial
  imports Loopback
begin

text \<open>
  Concurrent write requests (\<open>handle_write\<close> of \<open>server/src/ops/data.rs\<close> under the stripe locks of
  \<open>server/src/writelock.rs\<close>). The handler is cut at the points where the task can be suspended: before
  it has the lock, and between two frames. Tasks of any sessions take their steps in any order on one
  file system; the deadline of \<open>dispatch_stream\<close> may drop a task at any of these points, which drops
  its guard. A task that is run alone does what \<open>handle_write\<close> does.
\<close>

section \<open>The handler in steps\<close>

text \<open>A call of \<open>write_at\<close>: the inode key, the retained file, whether it appends, the offset, the data.\<close>

record write_call =
  wc_key :: u128
  wc_file :: fd
  wc_append :: bool
  wc_offset :: u64
  wc_data :: bytes

datatype phase =
  Arrived bytes
| Waiting WriteRequest fd bool u128
| Writing fd bool u128 u64 bool u64
| Done "anyhow + unit"

definition done_with :: "(anyhow + unit) \<times> 'x \<Rightarrow> phase \<times> 'x" where
  "done_with rx = (Done (fst rx), snd rx)"

text \<open>Up to the wait for the lock.\<close>

definition write_begin ::
  "('w, 'r) env \<Rightarrow> bytes \<Rightarrow> ('fs, 'w, 'r) srv \<Rightarrow> phase \<times> ('fs, 'w, 'r) srv" where
  "write_begin env raw x =
     (case decode (dec_WriteRequest (e_codec env)) raw of
        Inl e \<Rightarrow> (Done (Inl e), x)
      | Inr first \<Rightarrow>
          (case get_write_ctx (ss_handles (x_session x)) (wq_handle first) of
             None \<Rightarrow> done_with (reply env (write_response (wq_seq first) St_Stale 0) x)
           | Some (file, flags, ino_key) \<Rightarrow> (Waiting first file (flags AND 0x400 \<noteq> 0) ino_key, x)))"

text \<open>With the lock: the first chunk.\<close>

definition write_first ::
  "'fs os \<Rightarrow> ('w, 'r) env \<Rightarrow> WriteRequest \<Rightarrow> fd \<Rightarrow> bool \<Rightarrow> u128 \<Rightarrow> ('fs, 'w, 'r) srv \<Rightarrow> phase \<times> ('fs, 'w, 'r) srv" where
  "write_first os env first file appending ino_key x =
     (case on_fs (write_at os file appending (wq_offset first) (wq_data first) 0) x of
        (Inl e, x1) \<Rightarrow> done_with (reply env (write_response (wq_seq first) (status_from_io e) 0) x1)
      | (Inr tot, x1) \<Rightarrow> (Writing file appending ino_key (wq_seq first) (wq_done first) tot, x1))"

text \<open>With the lock: the next frame, or the reply. The first result is the write that was made.\<close>

definition write_next ::
  "'fs os \<Rightarrow> ('w, 'r) env \<Rightarrow> fd \<Rightarrow> bool \<Rightarrow> u128 \<Rightarrow> u64 \<Rightarrow> bool \<Rightarrow> u64 \<Rightarrow> ('fs, 'w, 'r) srv \<Rightarrow>
   write_call option \<times> phase \<times> ('fs, 'w, 'r) srv" where
  "write_next os env file appending ino_key sq finished tot x =
     (if finished then (None, done_with (reply_rec env (write_response sq St_Ok tot) x))
      else case recv_frame env x of
             (Inl e, x1) \<Rightarrow> (None, Done (Inl e), x1)
           | (Inr chunk_raw, x1) \<Rightarrow>
               (let x2 = record_rx (length chunk_raw) x1
                in case decode (dec_WriteRequest (e_codec env)) chunk_raw of
                     Inl e \<Rightarrow> (None, Done (Inl e), x2)
                   | Inr chunk \<Rightarrow>
                       (Some \<lparr>wc_key = ino_key, wc_file = file, wc_append = appending,
                              wc_offset = wq_offset chunk, wc_data = wq_data chunk\<rparr>,
                        case on_fs (write_at os file appending (wq_offset chunk) (wq_data chunk) tot) x2 of
                          (Inl e, x3) \<Rightarrow> done_with (reply env (write_response sq (status_from_io e) tot) x3)
                        | (Inr tot', x3) \<Rightarrow> (Writing file appending ino_key sq (wq_done chunk) tot', x3))))"

definition first_call :: "WriteRequest \<Rightarrow> fd \<Rightarrow> bool \<Rightarrow> u128 \<Rightarrow> write_call" where
  "first_call first file appending ino_key =
     \<lparr>wc_key = ino_key, wc_file = file, wc_append = appending, wc_offset = wq_offset first, wc_data = wq_data first\<rparr>"

text \<open>A task that is never held up.\<close>

fun alone_step :: "'fs os \<Rightarrow> ('w, 'r) env \<Rightarrow> phase \<times> ('fs, 'w, 'r) srv \<Rightarrow> phase \<times> ('fs, 'w, 'r) srv" where
  "alone_step os env (Arrived raw, x) = write_begin env raw x"
| "alone_step os env (Waiting first file appending ino_key, x) = write_first os env first file appending ino_key x"
| "alone_step os env (Writing file appending ino_key sq finished tot, x) =
     snd (write_next os env file appending ino_key sq finished tot x)"
| "alone_step os env (Done r, x) = (Done r, x)"

section \<open>Tasks and locks\<close>

record ('s, 'w, 'r) wtask =
  tk_sid :: 's
  tk_send :: 'w
  tk_recv :: 'r
  tk_phase :: phase

record ('k, 's, 'fs, 'w, 'r) server =
  se_fs :: 'fs
  se_session :: "'s \<Rightarrow> session"
  se_task :: "'k \<Rightarrow> ('s, 'w, 'r) wtask"
  se_lock :: "nat \<Rightarrow> 'k option"

text \<open>The state as one task sees it, and the state after its step.\<close>

definition view :: "('k, 's, 'fs, 'w, 'r) server \<Rightarrow> 'k \<Rightarrow> ('fs, 'w, 'r) srv" where
  "view sv t =
     \<lparr>x_fs = se_fs sv, x_send = tk_send (se_task sv t), x_recv = tk_recv (se_task sv t),
      x_session = se_session sv (tk_sid (se_task sv t))\<rparr>"

definition put_back ::
  "'k \<Rightarrow> phase \<times> ('fs, 'w, 'r) srv \<Rightarrow> ('k, 's, 'fs, 'w, 'r) server \<Rightarrow> ('k, 's, 'fs, 'w, 'r) server" where
  "put_back t px sv =
     sv\<lparr>se_fs := x_fs (snd px),
        se_session := (se_session sv)(tk_sid (se_task sv t) := x_session (snd px)),
        se_task := (se_task sv)(t := (se_task sv t)\<lparr>tk_send := x_send (snd px), tk_recv := x_recv (snd px),
                                                   tk_phase := fst px\<rparr>)\<rparr>"

fun is_done :: "phase \<Rightarrow> bool" where
  "is_done (Done _) = True"
| "is_done _ = False"

text \<open>The guard is held until the handler returns.\<close>

definition guard :: "'k \<Rightarrow> u128 \<Rightarrow> phase \<Rightarrow> ('k, 's, 'fs, 'w, 'r) server \<Rightarrow> ('k, 's, 'fs, 'w, 'r) server" where
  "guard t ino_key ph sv =
     sv\<lparr>se_lock := (se_lock sv)(stripe_for ino_key := (if is_done ph then None else Some t))\<rparr>"

inductive ser_step ::
  "'fs os \<Rightarrow> ('w, 'r) env \<Rightarrow> ('k, 's, 'fs, 'w, 'r) server \<Rightarrow> ('k \<times> write_call) list \<Rightarrow>
   ('k, 's, 'fs, 'w, 'r) server \<Rightarrow> bool" for os env where
  start: "tk_phase (se_task sv t) = Arrived raw \<Longrightarrow>
     ser_step os env sv [] (put_back t (write_begin env raw (view sv t)) sv)"
| lock: "tk_phase (se_task sv t) = Waiting first file appending ino_key \<Longrightarrow>
     se_lock sv (stripe_for ino_key) = None \<Longrightarrow>
     write_first os env first file appending ino_key (view sv t) = (ph, x) \<Longrightarrow>
     ser_step os env sv [(t, first_call first file appending ino_key)] (guard t ino_key ph (put_back t (ph, x) sv))"
| frame: "tk_phase (se_task sv t) = Writing file appending ino_key sq finished tot \<Longrightarrow>
     write_next os env file appending ino_key sq finished tot (view sv t) = (call, ph, x) \<Longrightarrow>
     ser_step os env sv (case call of Some c \<Rightarrow> [(t, c)] | None \<Rightarrow> []) (guard t ino_key ph (put_back t (ph, x) sv))"
| timeout_free: "tk_phase (se_task sv t) \<in> {Arrived raw, Waiting first file appending ino_key} \<Longrightarrow>
     ser_step os env sv [] (put_back t (Done (Inl ''timeout''), view sv t) sv)"
| timeout_held: "tk_phase (se_task sv t) = Writing file appending ino_key sq finished tot \<Longrightarrow>
     ser_step os env sv [] (guard t ino_key (Done (Inl ''timeout'')) (put_back t (Done (Inl ''timeout''), view sv t) sv))"

text \<open>The steps of a run, with every write that was made.\<close>

inductive ser_run ::
  "'fs os \<Rightarrow> ('w, 'r) env \<Rightarrow> ('k, 's, 'fs, 'w, 'r) server \<Rightarrow> ('k \<times> write_call) list \<Rightarrow>
   ('k, 's, 'fs, 'w, 'r) server \<Rightarrow> bool" for os env sv where
  none: "ser_run os env sv [] sv"
| more: "ser_run os env sv tr sv1 \<Longrightarrow> ser_step os env sv1 cs sv2 \<Longrightarrow> ser_run os env sv (tr @ cs) sv2"

definition fresh :: "('k, 's, 'fs, 'w, 'r) server \<Rightarrow> bool" where
  "fresh sv = ((\<forall>t. \<exists>raw. tk_phase (se_task sv t) = Arrived raw) \<and> se_lock sv = (\<lambda>_. None))"

text \<open>The file system after a list of writes.\<close>

definition replay :: "'fs os \<Rightarrow> 'k \<times> write_call \<Rightarrow> 'fs \<Rightarrow> 'fs" where
  "replay os tc fs =
     (case tc of (_, c) \<Rightarrow> snd (write_at os (wc_file c) (wc_append c) (wc_offset c) (wc_data c) 0 fs))"

definition writers :: "u128 \<Rightarrow> ('k \<times> write_call) list \<Rightarrow> 'k list" where
  "writers key tr = map fst (filter (\<lambda>tc. wc_key (snd tc) = key) tr)"

section \<open>A task alone is the handler\<close>

lemma alone_done: "((alone_step os env) ^^ n) (Done r, x) = (Done r, x)"
  by (induction n) simp_all

lemma alone_loop:
  "((alone_step os env) ^^ n) (Writing file app key sq finished tot, x) = (Done r, x') \<Longrightarrow>
   write_loop (write_at os file app) env sq finished tot x = Some (r, x')"
proof (induction n arbitrary: sq finished tot x)
  case (Suc n)
  let ?next = "snd (write_next os env file app key sq finished tot x)"
  from Suc.prems have run: "((alone_step os env) ^^ n) ?next = (Done r, x')"
    by (simp add: funpow_Suc_right del: funpow.simps)
  show ?case
    using run Suc.IH
    by (subst write_loop.simps)
      (auto simp: write_next_def Let_def done_with_def alone_done split: if_splits prod.splits sum.splits)
qed simp

lemma alone_handle_write:
  assumes "((alone_step os env) ^^ n) (Arrived raw, x) = (Done r, x')"
  shows "handle_write os env raw x = Some (r, x')"
proof -
  from assms obtain n1 where n1: "((alone_step os env) ^^ n1) (write_begin env raw x) = (Done r, x')"
    by (cases n) (simp_all add: funpow_Suc_right del: funpow.simps(2))
  show ?thesis
  proof (cases "\<exists>first file app key. fst (write_begin env raw x) = Waiting first file app key")
    case True
    then obtain first fl app key where w: "write_begin env raw x = (Waiting first fl app key, x)"
      by (auto simp: write_begin_def done_with_def split: sum.splits option.splits prod.splits)
    with n1 obtain n2 where "((alone_step os env) ^^ n2) (write_first os env first fl app key x) = (Done r, x')"
      by (cases n1) (simp_all add: funpow_Suc_right del: funpow.simps(2))
    with w show ?thesis
      by (auto simp: handle_write_def write_begin_def write_first_def done_with_def alone_done Let_def
          dest!: alone_loop split: sum.splits option.splits prod.splits)
  next
    case False
    with n1 show ?thesis
      by (auto simp: handle_write_def write_begin_def done_with_def alone_done
          split: sum.splits option.splits prod.splits)
  qed
qed

section \<open>The invariant\<close>

fun phase_key :: "phase \<Rightarrow> u128 option" where
  "phase_key (Writing _ _ ino_key _ _ _) = Some ino_key"
| "phase_key _ = None"

abbreviation phase_of :: "('k, 's, 'fs, 'w, 'r) server \<Rightarrow> 'k \<Rightarrow> phase" where
  "phase_of sv t \<equiv> tk_phase (se_task sv t)"

definition ser_ok :: "('k \<times> write_call) list \<Rightarrow> ('k, 's, 'fs, 'w, 'r) server \<Rightarrow> bool" where
  "ser_ok tr sv =
     ((\<forall>k t. se_lock sv k = Some t \<longleftrightarrow> (\<exists>key. phase_key (phase_of sv t) = Some key \<and> stripe_for key = k)) \<and>
      (\<forall>t c. (t, c) \<in> set tr \<longrightarrow> is_done (phase_of sv t) \<or> phase_key (phase_of sv t) = Some (wc_key c)) \<and>
      (\<forall>key. distinct (remdups_adj (writers key tr))) \<and>
      (\<forall>t key. phase_key (phase_of sv t) = Some key \<longrightarrow> writers key tr \<noteq> [] \<and> last (writers key tr) = t))"

lemma phase_put_back: "phase_of (put_back t px sv) k = (if k = t then fst px else phase_of sv k)"
  by (simp add: put_back_def)

lemma lock_put_back [simp]: "se_lock (put_back t px sv) = se_lock sv"
  by (simp add: put_back_def)

lemma guard_simps [simp]:
  "se_task (guard t key ph sv) = se_task sv" "se_fs (guard t key ph sv) = se_fs sv"
  "se_lock (guard t key ph sv) = (se_lock sv)(stripe_for key := (if is_done ph then None else Some t))"
  by (simp_all add: guard_def)

lemma writers_append [simp]: "writers key (tr @ tr') = writers key tr @ writers key tr'"
  by (simp add: writers_def)

lemma writers_Cons [simp]: "writers key (tc # tr) = (if wc_key (snd tc) = key then fst tc # writers key tr else writers key tr)"
  by (simp add: writers_def)

lemma writers_Nil [simp]: "writers key [] = []"
  by (simp add: writers_def)

lemma distinct_adj_snoc:
  "distinct (remdups_adj xs) \<Longrightarrow> y \<notin> set xs \<or> last xs = y \<and> xs \<noteq> [] \<Longrightarrow> distinct (remdups_adj (xs @ [y]))"
  by (cases xs rule: rev_cases) (auto simp: remdups_adj_append_two)

lemma is_done_key: "is_done ph \<Longrightarrow> phase_key ph = None"
  by (cases ph) simp_all

lemma ser_ok_lock:
  "ser_ok tr sv \<Longrightarrow> se_lock sv k = Some t \<longleftrightarrow> (\<exists>key. phase_key (phase_of sv t) = Some key \<and> stripe_for key = k)"
  by (simp add: ser_ok_def)

lemma ser_ok_trace:
  "ser_ok tr sv \<Longrightarrow> (t, c) \<in> set tr \<Longrightarrow> is_done (phase_of sv t) \<or> phase_key (phase_of sv t) = Some (wc_key c)"
  unfolding ser_ok_def by blast

lemma ser_ok_last:
  "ser_ok tr sv \<Longrightarrow> phase_key (phase_of sv t) = Some key \<Longrightarrow> writers key tr \<noteq> [] \<and> last (writers key tr) = t"
  unfolding ser_ok_def by blast

lemma ser_ok_blocks: "ser_ok tr sv \<Longrightarrow> distinct (remdups_adj (writers key tr))"
  unfolding ser_ok_def by blast

text \<open>A task that has not had its lock yet has written nothing.\<close>

lemma ser_ok_unseen:
  "ser_ok tr sv \<Longrightarrow> phase_key (phase_of sv t) = None \<Longrightarrow> \<not> is_done (phase_of sv t) \<Longrightarrow> (t, c) \<notin> set tr"
  by (auto dest: ser_ok_trace)

lemma ser_ok_free:
  assumes "ser_ok tr sv" and "phase_key (phase_of sv t) = None" and "\<not> is_done (phase_of sv t)"
    and "phase_key ph = None"
  shows "ser_ok tr (put_back t (ph, x) sv)"
proof -
  have "(t, c) \<notin> set tr" for c using assms(1-3) by (rule ser_ok_unseen)
  with assms show ?thesis by (auto simp: ser_ok_def phase_put_back)
qed

lemma ser_ok_mine:
  assumes ok: "ser_ok tr sv" and that: "(t, c) \<in> set tr"
  and t: "phase_key (phase_of sv t) = Some key \<or>
    phase_key (phase_of sv t) = None \<and> \<not> is_done (phase_of sv t) \<and> se_lock sv (stripe_for key) = None"
  shows "wc_key c = key"
proof -
  have "phase_key (phase_of sv t) = Some key" using t ser_ok_unseen [OF ok, of t c] that by blast
  then show ?thesis using ser_ok_trace [OF ok that] is_done_key [of "phase_of sv t"] by auto
qed

lemma ser_ok_mine_last:
  assumes ok: "ser_ok tr sv" and t: "phase_key (phase_of sv t) = Some key \<or>
    phase_key (phase_of sv t) = None \<and> \<not> is_done (phase_of sv t) \<and> se_lock sv (stripe_for key) = None"
  shows "t \<notin> set (writers key tr) \<or> last (writers key tr) = t \<and> writers key tr \<noteq> []"
proof (cases "phase_key (phase_of sv t) = Some key")
  case True
  then show ?thesis using ser_ok_last [OF ok] by blast
next
  case False
  then have "(t, c) \<notin> set tr" for c using t ser_ok_unseen [OF ok] by blast
  then show ?thesis by (auto simp: writers_def)
qed

lemma ser_ok_owner:
  assumes ok: "ser_ok tr sv" and t: "phase_key (phase_of sv t) = Some key \<or>
      phase_key (phase_of sv t) = None \<and> \<not> is_done (phase_of sv t) \<and> se_lock sv (stripe_for key) = None"
    and that: "phase_key (phase_of sv k) = Some key'" "stripe_for key' = stripe_for key"
  shows "k = t"
proof -
  have "se_lock sv (stripe_for key) = Some k" using ser_ok_lock [OF ok] that by blast
  moreover have "se_lock sv (stripe_for key) = None \<or> se_lock sv (stripe_for key) = Some t"
    using t ser_ok_lock [OF ok] by blast
  ultimately show ?thesis by auto
qed

lemma ser_ok_held_lock:
  assumes ok: "ser_ok tr sv" and ph: "is_done ph \<or> phase_key ph = Some key" and t: "phase_key (phase_of sv t) = Some key \<or>
      phase_key (phase_of sv t) = None \<and> \<not> is_done (phase_of sv t) \<and> se_lock sv (stripe_for key) = None"
  shows "se_lock (guard t key ph (put_back t (ph, x) sv)) k = Some u \<longleftrightarrow>
    (\<exists>key'. phase_key (phase_of (guard t key ph (put_back t (ph, x) sv)) u) = Some key' \<and> stripe_for key' = k)"
proof (cases "k = stripe_for key")
  case True
  then show ?thesis using ph ser_ok_owner [OF ok t, of u] by (auto simp: phase_put_back dest: is_done_key)
next
  case False
  then have "se_lock sv k \<noteq> Some t" using t ser_ok_lock [OF ok, of k t] by auto
  moreover have "\<forall>key'. phase_key ph = Some key' \<longrightarrow> stripe_for key' \<noteq> k"
    using False ph is_done_key [of ph] by auto
  ultimately show ?thesis
    using False ser_ok_lock [OF ok, of k u] by (cases "u = t") (simp_all add: phase_put_back)
qed

lemma ser_ok_held:
  assumes ok: "ser_ok tr sv" and ph: "is_done ph \<or> phase_key ph = Some key"
    and t: "phase_key (phase_of sv t) = Some key \<or>
      phase_key (phase_of sv t) = None \<and> \<not> is_done (phase_of sv t) \<and> se_lock sv (stripe_for key) = None"
    and new: "phase_key (phase_of sv t) = None \<Longrightarrow> cs \<noteq> []"
    and cs: "cs = [] \<or> (\<exists>c. cs = [(t, c)] \<and> wc_key c = key)"
  shows "ser_ok (tr @ cs) (guard t key ph (put_back t (ph, x) sv))"
proof -
  let ?sv = "guard t key ph (put_back t (ph, x) sv)"
  have trace: "is_done (phase_of ?sv u) \<or> phase_key (phase_of ?sv u) = Some (wc_key c)"
    if "(u, c) \<in> set (tr @ cs)" for u c
  proof (cases "u = t")
    case True
    then have "wc_key c = key" using that cs ser_ok_mine [OF ok _ t, of c] by auto
    with True ph show ?thesis by (simp add: phase_put_back)
  next
    case False
    then have "(u, c) \<in> set tr" using that cs by auto
    with False show ?thesis using ser_ok_trace [OF ok, of u c] by (simp add: phase_put_back)
  qed
  have snoc: "writers k (tr @ cs) = (if cs \<noteq> [] \<and> k = key then writers key tr @ [t] else writers k tr)" for k
    using cs by auto
  have blocks: "distinct (remdups_adj (writers k (tr @ cs)))" for k
    unfolding snoc using ser_ok_blocks [OF ok, of k] distinct_adj_snoc [OF ser_ok_blocks [OF ok] ser_ok_mine_last [OF ok t]] by simp
  have tail: "writers k (tr @ cs) \<noteq> [] \<and> last (writers k (tr @ cs)) = u" if "phase_key (phase_of ?sv u) = Some k" for u k
  proof (cases "u = t")
    case True
    then have "phase_key ph = Some k" using that by (simp add: phase_put_back)
    then have "k = key" using ph is_done_key [of ph] by auto
    then show ?thesis unfolding snoc using True t new ser_ok_last [OF ok, of t key] by auto
  next
    case False
    then have u: "phase_key (phase_of sv u) = Some k" using that by (simp add: phase_put_back)
    then have "k \<noteq> key" using ser_ok_owner [OF ok t, of u k] False by auto
    then show ?thesis unfolding snoc using ser_ok_last [OF ok u] by simp
  qed
  show ?thesis unfolding ser_ok_def using ser_ok_held_lock [OF ok ph t] trace blocks tail by blast
qed

lemma write_first_phase:
  "write_first os env first f app key x = (ph, x') \<Longrightarrow> is_done ph \<or> phase_key ph = Some key"
  by (auto simp: write_first_def done_with_def split: prod.splits sum.splits)

lemma write_next_phase:
  assumes "write_next os env f app key sq fin tot x = (call, ph, x')"
  shows "is_done ph \<or> phase_key ph = Some key" and "call = Some c \<Longrightarrow> wc_key c = key"
  using assms by (auto simp: write_next_def done_with_def Let_def split: if_splits prod.splits sum.splits)

lemma write_begin_phase: "phase_key (fst (write_begin env raw x)) = None"
  by (simp add: write_begin_def done_with_def split: sum.split option.split)

lemma ser_step_ok: "ser_step os env sv cs sv' \<Longrightarrow> ser_ok tr sv \<Longrightarrow> ser_ok (tr @ cs) sv'"
proof (induction rule: ser_step.induct)
  case (start sv t raw)
  then show ?case
    using ser_ok_free [of tr sv t "fst (write_begin env raw (view sv t))" "snd (write_begin env raw (view sv t))"]
    by (simp add: write_begin_phase)
next
  case (lock sv t first fl appending ino_key ph x)
  then show ?case
    by (intro ser_ok_held [OF lock.prems write_first_phase [OF lock.hyps(3)]]) (simp_all add: first_call_def)
next
  case (frame sv t fl appending ino_key sq finished tot call ph x)
  then show ?case
    using write_next_phase [OF frame.hyps(2)]
    by (intro ser_ok_held [OF frame.prems]) (auto split: option.split)
next
  case (timeout_free sv t raw first fl appending ino_key)
  then show ?case
    using ser_ok_free [of tr sv t "Done (Inl ''timeout'')" "view sv t"] by auto
next
  case (timeout_held sv t fl appending ino_key sq finished tot)
  then show ?case
    using ser_ok_held [OF timeout_held.prems, of "Done (Inl ''timeout'')" ino_key t "[]" "view sv t"] by simp
qed

lemma write_at_total: "snd (write_at os f app off data tot fs) = snd (write_at os f app off data tot' fs)"
  by (simp add: write_at_def andthen_def split: prod.split sum.split)

lemma x_fs_view [simp]: "x_fs (view sv t) = se_fs sv"
  by (simp add: view_def)

lemma fs_put_back [simp]: "se_fs (put_back t px sv) = x_fs (snd px)"
  by (simp add: put_back_def)

lemma write_begin_fs [simp]: "x_fs (snd (write_begin env raw x)) = x_fs x"
  by (simp add: write_begin_def done_with_def split: sum.split option.split)

lemma x_fs_on_fs: "on_fs m x = (r, x1) \<Longrightarrow> x_fs x1 = snd (m (x_fs x))"
  by (auto simp: on_fs_def split: prod.splits)

lemma write_first_fs:
  assumes "write_first os env first f app key x = (ph, x')"
  shows "x_fs x' = replay os (t, first_call first f app key) (x_fs x)"
proof -
  obtain r x1 where r: "on_fs (write_at os f app (wq_offset first) (wq_data first) 0) x = (r, x1)" by fastforce
  have "x_fs x' = x_fs x1" using assms by (cases r) (auto simp: write_first_def r done_with_def)
  then show ?thesis using x_fs_on_fs [OF r] by (simp add: replay_def first_call_def)
qed

lemma recv_frame_fs: "recv_frame env x = (r, x1) \<Longrightarrow> x_fs x1 = x_fs x"
  by (auto simp: recv_frame_def split: prod.splits)

lemma reply_rec_fs [simp]: "x_fs (snd (reply_rec env resp x)) = x_fs x"
  by (simp add: reply_rec_def snd_andthen)

lemma write_next_fs:
  assumes "write_next os env f app key sq fin tot x = (call, ph, x')"
  shows "x_fs x' = (case call of Some c \<Rightarrow> replay os (t, c) (x_fs x) | None \<Rightarrow> x_fs x)"
proof (cases call)
  case None
  with assms show ?thesis
    by (auto simp: write_next_def Let_def done_with_def dest: recv_frame_fs split: if_splits prod.splits sum.splits)
next
  case (Some c)
  have nf: "\<not> fin" using assms Some by (auto simp: write_next_def)
  obtain raw x1 where rv: "recv_frame env x = (Inr raw, x1)"
    using assms Some nf by (cases "recv_frame env x"; cases "fst (recv_frame env x)") (auto simp: write_next_def)
  obtain chunk where dc: "decode (dec_WriteRequest (e_codec env)) raw = Inr chunk"
    using assms Some nf rv by (cases "decode (dec_WriteRequest (e_codec env)) raw") (auto simp: write_next_def)
  have c: "c = \<lparr>wc_key = key, wc_file = f, wc_append = app, wc_offset = wq_offset chunk, wc_data = wq_data chunk\<rparr>"
    and rest: "(case on_fs (write_at os f app (wq_offset chunk) (wq_data chunk) tot) (record_rx (length raw) x1) of
          (Inl e, x3) \<Rightarrow> done_with (reply env (write_response sq (status_from_io e) tot) x3)
        | (Inr tot', x3) \<Rightarrow> (Writing f app key sq (wq_done chunk) tot', x3)) = (ph, x')"
    using assms Some nf rv dc by (simp_all add: write_next_def Let_def)
  obtain r x3 where r: "on_fs (write_at os f app (wq_offset chunk) (wq_data chunk) tot) (record_rx (length raw) x1) = (r, x3)"
    by fastforce
  have "x_fs x' = x_fs x3" using rest by (cases r) (auto simp: r done_with_def)
  also have "\<dots> = snd (write_at os f app (wq_offset chunk) (wq_data chunk) 0 (x_fs x))"
    using x_fs_on_fs [OF r] recv_frame_fs [OF rv] write_at_total [of os f app "wq_offset chunk" "wq_data chunk" tot] by simp
  finally show ?thesis by (simp add: Some c replay_def)
qed

lemma ser_step_fs: "ser_step os env sv cs sv' \<Longrightarrow> se_fs sv' = fold (replay os) cs (se_fs sv)"
proof (induction rule: ser_step.induct)
  case (lock sv t first fl appending ino_key ph x)
  then show ?case using write_first_fs [OF lock.hyps(3), of t] by simp
next
  case (frame sv t fl appending ino_key sq finished tot call ph x)
  then show ?case using write_next_fs [OF frame.hyps(2), of t] by (simp split: option.split)
qed simp_all

lemma ser_run_ok:
  assumes "ser_run os env sv tr sv'" and "fresh sv"
  shows "ser_ok tr sv' \<and> se_fs sv' = fold (replay os) tr (se_fs sv)"
  using assms(1)
proof (induction rule: ser_run.induct)
  case none
  have "phase_key (phase_of sv t) = None" for t
    using assms(2) unfolding fresh_def by (metis phase_key.simps(2))
  with assms(2) show ?case by (simp add: ser_ok_def fresh_def writers_def)
next
  case (more tr sv1 cs sv2)
  then show ?case using ser_step_ok ser_step_fs by fastforce
qed

section \<open>Properties\<close>

text \<open>C4: Writes to one file land as units. In every interleaving of write requests, of any sessions and
  with any of them dropped by its deadline, the writes that reach one file (one inode key) come in
  blocks, one per request: once another request has written to the file, the first never writes to it
  again. The file system is what these writes, in this order, make of it; two requests inside
  their locked part have different stripes; and when every request has ended every lock is free.\<close>

theorem write_serial:
  assumes "fresh sv" and "ser_run os env sv tr sv'"
  shows "distinct (remdups_adj (writers key tr)) \<and>
    se_fs sv' = fold (replay os) tr (se_fs sv) \<and>
    (phase_key (phase_of sv' t) = Some k1 \<and> phase_key (phase_of sv' u) = Some k2 \<and>
       stripe_for k1 = stripe_for k2 \<longrightarrow> t = u) \<and>
    ((\<forall>t. is_done (phase_of sv' t)) \<longrightarrow> se_lock sv' = (\<lambda>_. None))"
proof -
  from ser_run_ok [OF assms(2,1)] have ok: "ser_ok tr sv'" and fs: "se_fs sv' = fold (replay os) tr (se_fs sv)"
    by simp_all
  have "t = u" if "phase_key (phase_of sv' t) = Some k1" "phase_key (phase_of sv' u) = Some k2"
    "stripe_for k1 = stripe_for k2"
  proof -
    have "se_lock sv' (stripe_for k1) = Some t" "se_lock sv' (stripe_for k1) = Some u"
      using that ser_ok_lock [OF ok] by auto
    then show ?thesis by simp
  qed
  moreover have "se_lock sv' k = None" if "\<forall>t. is_done (phase_of sv' t)" for k
    using that ser_ok_lock [OF ok, of k] is_done_key by (cases "se_lock sv' k") fastforce+
  ultimately show ?thesis using fs ser_ok_blocks [OF ok] by blast
qed

text \<open>The instance: any number of requests on one file, of which the first has made its first write.\<close>

definition one_write :: WriteRequest where
  "one_write = \<lparr>wq_op = OP_WRITE, wq_seq = 2, wq_handle = 1, wq_offset = 1, wq_data = [9], wq_done = True\<rparr>"

definition many_writers :: "(nat, unit, mem_fs, bytes, bytes) server" where
  "many_writers =
     \<lparr>se_fs = lw_fs (mem_world [5, 6] []), se_session = (\<lambda>_. lw_session (mem_world [5, 6] [])),
      se_task = (\<lambda>_. \<lparr>tk_sid = (), tk_send = [], tk_recv = [], tk_phase = Arrived (the (enc_req (Q_Write one_write)))\<rparr>),
      se_lock = (\<lambda>_. None)\<rparr>"

lemma one_write_decodes: "decode (dec_WriteRequest wire_sc) (the (enc_req (Q_Write one_write))) = Inr one_write"
  by (simp add: decode_def ok_or_def wire_sc_def get_write_req_def enc_req_def one_write_def)

theorem write_serial_witness:
  "\<exists>sv'. ser_run mem_os (loop_env wire_sc (\<lambda>_. 0)) many_writers [(0, first_call one_write 3 False 7)] sv' \<and>
     mf_data (se_fs sv') = [5, 9]"
proof -
  let ?env = "loop_env wire_sc (\<lambda>_. 0)"
  let ?sv1 = "put_back 0 (write_begin ?env (the (enc_req (Q_Write one_write))) (view many_writers 0)) many_writers"
  have fresh: "fresh many_writers" by (simp add: fresh_def many_writers_def)
  have "get_write_ctx (ss_handles (lw_session (mem_world [5, 6] []))) (wq_handle one_write) = Some (3, 2, 7)"
    by (simp add: one_write_def)
  then have "write_begin ?env (the (enc_req (Q_Write one_write))) (view many_writers 0) =
      (Waiting one_write 3 False 7, view many_writers 0)"
    by (simp add: write_begin_def one_write_decodes) (simp add: view_def many_writers_def)
  then have w: "tk_phase (se_task ?sv1 0) = Waiting one_write 3 False 7" "se_lock ?sv1 (stripe_for 7) = None"
    by (simp_all add: phase_put_back many_writers_def)
  have "ser_step mem_os ?env many_writers [] ?sv1"
    by (rule ser_step.start) (simp add: many_writers_def)
  then have "ser_run mem_os ?env many_writers [] ?sv1"
    using ser_run.more [OF ser_run.none, of mem_os ?env many_writers "[]" ?sv1] by simp
  moreover obtain ph x where f: "write_first mem_os ?env one_write 3 False 7 (view ?sv1 0) = (ph, x)" by fastforce
  ultimately have run: "ser_run mem_os ?env many_writers [(0, first_call one_write 3 False 7)]
      (guard 0 7 ph (put_back 0 (ph, x) ?sv1))"
    using ser_run.more [OF _ ser_step.lock [OF w f]] by fastforce
  have "fold (replay mem_os) [(0 :: nat, first_call one_write 3 False 7)] (se_fs many_writers) =
      \<lparr>mf_data = [5, 9], mf_pos = 2, mf_dir = []\<rparr>"
    by (simp add: replay_def first_call_def one_write_def write_at_def andthen_def mem_os_def many_writers_def pwrite_def)
  moreover have "se_fs (guard 0 7 ph (put_back 0 (ph, x) ?sv1)) =
      fold (replay mem_os) [(0 :: nat, first_call one_write 3 False 7)] (se_fs many_writers)"
    by (rule write_serial [OF fresh run, THEN conjunct2, THEN conjunct1])
  ultimately have "mf_data (se_fs (guard 0 7 ph (put_back 0 (ph, x) ?sv1))) = [5, 9]" by (simp only: mem_fs.simps)
  with run show ?thesis by blast
qed

end
